theory Spec2Isabelle
  imports Main "HOL-Library.Word"
begin

unbundle bit_operations_syntax

section \<open>AWS validation of kops clusters and instance groups\<close>

text \<open>
  A shallow embedding of \<^verbatim>\<open>pkg/apis/kops/validation/aws.go\<close>. Go strings are byte
  sequences and are modelled as \<^typ>\<open>string\<close>; a pointer that may be nil is an
  \<^typ>\<open>'a option\<close>; a slice is a list; \<^verbatim>\<open>int64\<close> and \<^verbatim>\<open>int32\<close> are
  \<^typ>\<open>64 word\<close> and \<^typ>\<open>32 word\<close> read with \<^const>\<open>sint\<close>. An error list
  that the Go code grows with \<^verbatim>\<open>append\<close> is a list that the model grows with
  \<open>@\<close>, in the same order.
\<close>

subsection \<open>The Go standard library: strconv and strings\<close>

text \<open>
  \<^verbatim>\<open>strconv.formatBits\<close> in base 10: the digits are written from the least significant
  one into the buffer \<open>a\<close>, back to front.
\<close>

fun formatBits :: "nat \<Rightarrow> string \<Rightarrow> string" where
  "formatBits u a =
     (if 10 \<le> u then formatBits (u div 10) (char_of (48 + u mod 10) # a)
      else char_of (48 + u) # a)"

declare formatBits.simps [simp del]

text \<open>
  \<^verbatim>\<open>strconv.FormatInt(i, 10)\<close>: a negative number is negated as an unsigned 64-bit
  value (so the smallest \<^verbatim>\<open>int64\<close> prints as it should) and gets a minus sign.
\<close>

definition FormatInt :: "64 word \<Rightarrow> string" where
  "FormatInt i =
     (if sint i < 0 then CHR ''-'' # formatBits (unat (- i)) [] else formatBits (unat i) [])"

text \<open>
  \<^verbatim>\<open>strconv.Itoa\<close> on the index of a \<^verbatim>\<open>range\<close> loop, which is never negative;
  the index is a \<^typ>\<open>nat\<close>.
\<close>

definition Itoa :: "nat \<Rightarrow> string" where
  "Itoa i = formatBits i []"

text \<open>\<^verbatim>\<open>strings.HasPrefix\<close>.\<close>

definition HasPrefix :: "string \<Rightarrow> string \<Rightarrow> bool" where
  "HasPrefix s pre = (length pre \<le> length s \<and> take (length pre) s = pre)"

text \<open>
  \<^verbatim>\<open>strings.Split(s, sep)\<close> for a separator of one byte: the pieces between the
  separators, empty pieces included; the empty string gives one empty piece.
\<close>

fun Split :: "string \<Rightarrow> char \<Rightarrow> string list" where
  "Split [] sep = [[]]"
| "Split (c # s) sep =
     (if c = sep then [] # Split s sep
      else (case Split s sep of [] \<Rightarrow> [[c]] | t # ts \<Rightarrow> (c # t) # ts))"

text \<open>
  \<^verbatim>\<open>strings.TrimSpace\<close> removes the leading and trailing white space that Unicode
  defines (\<^verbatim>\<open>unicode.IsSpace\<close>). A Go string is a sequence of bytes read as UTF-8, so
  the white-space runes are listed by their encodings: tab, line feed, vertical tab,
  form feed, carriage return, space, U+0085, U+00A0, U+1680, U+2000 to U+200A, U+2028,
  U+2029, U+202F, U+205F and U+3000. A byte sequence that is not the encoding of such a
  rune (malformed UTF-8 included) stops the trimming.
\<close>

definition spaceRunes :: "nat list list" where
  "spaceRunes =
     [[0x09], [0x0A], [0x0B], [0x0C], [0x0D], [0x20],
      [0xC2, 0x85], [0xC2, 0xA0],
      [0xE1, 0x9A, 0x80],
      [0xE2, 0x80, 0x80], [0xE2, 0x80, 0x81], [0xE2, 0x80, 0x82], [0xE2, 0x80, 0x83],
      [0xE2, 0x80, 0x84], [0xE2, 0x80, 0x85], [0xE2, 0x80, 0x86], [0xE2, 0x80, 0x87],
      [0xE2, 0x80, 0x88], [0xE2, 0x80, 0x89], [0xE2, 0x80, 0x8A],
      [0xE2, 0x80, 0xA8], [0xE2, 0x80, 0xA9], [0xE2, 0x80, 0xAF],
      [0xE2, 0x81, 0x9F],
      [0xE3, 0x80, 0x80]]"

text \<open>The width in bytes of the white-space rune that \<open>s\<close> starts with, 0 if there is none.\<close>

definition spaceWidth :: "nat list list \<Rightarrow> string \<Rightarrow> nat" where
  "spaceWidth runes s =
     (case List.find (\<lambda>e. take (length e) (map of_char s) = e) runes of
        None \<Rightarrow> 0
      | Some e \<Rightarrow> length e)"

function trimLeftRunes :: "nat list list \<Rightarrow> string \<Rightarrow> string" where
  "trimLeftRunes runes s =
     (if s = [] \<or> spaceWidth runes s = 0 then s
      else trimLeftRunes runes (drop (spaceWidth runes s) s))"
  by pat_completeness auto
termination
  by (relation "measure (\<lambda>(runes, s). length s)") auto

declare trimLeftRunes.simps [simp del]

text \<open>
  Trimming on the right decodes the last rune of the string; on the reversed string that
  is the reversed encoding at the front.
\<close>

definition TrimSpace :: "string \<Rightarrow> string" where
  "TrimSpace s =
     rev (trimLeftRunes (map rev spaceRunes) (rev (trimLeftRunes spaceRunes s)))"

subsection \<open>k8s.io/apimachinery: field paths and field errors\<close>

text \<open>
  \<^verbatim>\<open>field.Path\<close> is a linked list from the leaf to the root; each element is a field
  name, or a subscript when the name is empty. \<open>NilPath\<close> is the nil pointer.
\<close>

datatype Path = NilPath | Path (path_name: string) (path_index: string) (path_parent: Path)

definition NewPath :: "string \<Rightarrow> string list \<Rightarrow> Path" where
  "NewPath name moreNames =
     foldl (\<lambda>r anotherName. Path anotherName [] r) (Path name [] NilPath) moreNames"

text \<open>\<^verbatim>\<open>(*Path).Child\<close> is only called with one name in this package.\<close>

definition Child :: "Path \<Rightarrow> string \<Rightarrow> Path" where
  "Child p name = Path name [] p"

definition Index :: "Path \<Rightarrow> nat \<Rightarrow> Path" where
  "Index p i = Path [] (Itoa i) p"

text \<open>
  \<^verbatim>\<open>(*Path).String\<close> walks from the root to the leaf: a dot before every named element
  that has a parent, the name, or the subscript in brackets when the name is empty.
\<close>

fun renderPath :: "Path \<Rightarrow> string" where
  "renderPath NilPath = []"
| "renderPath (Path n idx par) =
     renderPath par
     @ (if par \<noteq> NilPath \<and> n \<noteq> [] then ''.'' else [])
     @ (if n \<noteq> [] then n else ''['' @ idx @ '']'')"

definition Path_String :: "Path \<Rightarrow> string" where
  "Path_String p = (if p = NilPath then ''<nil>'' else renderPath p)"

datatype ErrorType =
    ErrorTypeNotFound | ErrorTypeRequired | ErrorTypeDuplicate | ErrorTypeInvalid
  | ErrorTypeNotSupported | ErrorTypeForbidden | ErrorTypeTooLong | ErrorTypeTooMany
  | ErrorTypeInternal

fun ErrorType_String :: "ErrorType \<Rightarrow> string" where
  "ErrorType_String ErrorTypeNotFound = ''Not found''"
| "ErrorType_String ErrorTypeRequired = ''Required value''"
| "ErrorType_String ErrorTypeDuplicate = ''Duplicate value''"
| "ErrorType_String ErrorTypeInvalid = ''Invalid value''"
| "ErrorType_String ErrorTypeNotSupported = ''Unsupported value''"
| "ErrorType_String ErrorTypeForbidden = ''Forbidden''"
| "ErrorType_String ErrorTypeTooLong = ''Too long''"
| "ErrorType_String ErrorTypeTooMany = ''Too many''"
| "ErrorType_String ErrorTypeInternal = ''Internal error''"

subsection \<open>The kops API types that the validators read\<close>

record ClusterSubnetSpec =
  Name :: string
  CIDR :: string

record LoadBalancerSubnetSpec =
  Name :: string
  PrivateIPv4Address :: "string option"
  AllocationID :: "string option"

text \<open>
  The value that a \<^verbatim>\<open>field.Error\<close> carries is an \<^verbatim>\<open>interface{}\<close>; the validators
  store a string, a pointer to an \<^verbatim>\<open>int64\<close> or a load-balancer subnet. The result of
  \<^verbatim>\<open>fmt.Sprintf\<close> is kept as the format with its arguments, not rendered.
\<close>

datatype BadValue =
    StringValue string
  | Int64PtrValue "64 word option"
  | SubnetValue LoadBalancerSubnetSpec
  | SprintfValue string "string list"

text \<open>
  The detail of an error is a message; \<^verbatim>\<open>field.NotSupported\<close> builds it from the
  supported values, which are kept as a list.
\<close>

datatype Detail = Message string | SupportedValues "string list"

record Error =
  Type :: ErrorType
  Field :: string
  BadValue :: BadValue
  Detail :: Detail

type_synonym ErrorList = "Error list"

definition NotFound :: "Path \<Rightarrow> BadValue \<Rightarrow> Error" where
  "NotFound field v =
     \<lparr>Type = ErrorTypeNotFound, Field = Path_String field, BadValue = v, Detail = Message []\<rparr>"

definition Required :: "Path \<Rightarrow> string \<Rightarrow> Error" where
  "Required field detail =
     \<lparr>Type = ErrorTypeRequired, Field = Path_String field, BadValue = StringValue [],
      Detail = Message detail\<rparr>"

definition Duplicate :: "Path \<Rightarrow> BadValue \<Rightarrow> Error" where
  "Duplicate field v =
     \<lparr>Type = ErrorTypeDuplicate, Field = Path_String field, BadValue = v, Detail = Message []\<rparr>"

definition Invalid :: "Path \<Rightarrow> BadValue \<Rightarrow> string \<Rightarrow> Error" where
  "Invalid field v detail =
     \<lparr>Type = ErrorTypeInvalid, Field = Path_String field, BadValue = v, Detail = Message detail\<rparr>"

definition NotSupported :: "Path \<Rightarrow> BadValue \<Rightarrow> string list \<Rightarrow> Error" where
  "NotSupported field v validValues =
     \<lparr>Type = ErrorTypeNotSupported, Field = Path_String field, BadValue = v,
      Detail = (if validValues \<noteq> [] then SupportedValues validValues else Message [])\<rparr>"

definition Forbidden :: "Path \<Rightarrow> string \<Rightarrow> Error" where
  "Forbidden field detail =
     \<lparr>Type = ErrorTypeForbidden, Field = Path_String field, BadValue = StringValue [],
      Detail = Message detail\<rparr>"

text \<open>
  The tests of the package compare an error by its kind and its field:
  \<^verbatim>\<open>err.Type.String() + "::" + err.Field\<close>.
\<close>

definition errString :: "Error \<Rightarrow> string" where
  "errString e = ErrorType_String (Type e) @ ''::'' @ Field e"

subsection \<open>Additional security groups\<close>

text \<open>
  The loop of \<^verbatim>\<open>awsValidateAdditionalSecurityGroups\<close>, with its state: the index
  \<open>i\<close>, the set \<open>names\<close> of the entries seen and the errors \<open>allErrs\<close>. A blank
  entry takes the \<^verbatim>\<open>continue\<close> branch.
\<close>

fun securityGroupsLoop ::
  "Path \<Rightarrow> nat \<Rightarrow> string list \<Rightarrow> string set \<Rightarrow> ErrorList \<Rightarrow> ErrorList" where
  "securityGroupsLoop fieldPath i [] names allErrs = allErrs"
| "securityGroupsLoop fieldPath i (s # groups) names allErrs =
     (let allErrs1 =
            (if s \<in> names
             then allErrs @ [Duplicate (Index fieldPath i) (StringValue s)]
             else allErrs);
          names1 = insert s names
      in if TrimSpace s = []
         then securityGroupsLoop fieldPath (Suc i) groups names1
                (allErrs1 @ [Invalid (Index fieldPath i) (StringValue s)
                   ''security group cannot be empty, if specified''])
         else securityGroupsLoop fieldPath (Suc i) groups names1
                (if \<not> HasPrefix s ''sg-''
                 then allErrs1 @ [Invalid (Index fieldPath i) (StringValue s)
                        ''security group does not match the expected AWS format'']
                 else allErrs1))"

definition awsValidateAdditionalSecurityGroups :: "Path \<Rightarrow> string list \<Rightarrow> ErrorList" where
  "awsValidateAdditionalSecurityGroups fieldPath groups =
     securityGroupsLoop fieldPath 0 groups {} []"

text \<open>
  The errors that one round of the loop appends for the entry \<open>s\<close> at index \<open>i\<close>,
  when \<open>names\<close> are the entries before it.
\<close>

definition securityGroupErrs :: "Path \<Rightarrow> nat \<Rightarrow> string \<Rightarrow> string set \<Rightarrow> ErrorList" where
  "securityGroupErrs fieldPath i s names =
     (if s \<in> names then [Duplicate (Index fieldPath i) (StringValue s)] else [])
     @ (if TrimSpace s = []
        then [Invalid (Index fieldPath i) (StringValue s)
                ''security group cannot be empty, if specified'']
        else if \<not> HasPrefix s ''sg-''
        then [Invalid (Index fieldPath i) (StringValue s)
                ''security group does not match the expected AWS format'']
        else [])"

subsection \<open>The generic check of a value against a list of valid values\<close>

text \<open>
  Modelled from the spec: \<^verbatim>\<open>IsValidValue\<close> is a helper of the validation package that
  is not among the sources. Section 4.2 of the specification: if the value is not absent
  and its content is not a member of the allowed values (exact string match), the result
  is a single Unsupported error whose bad value is the offending value and whose detail
  lists the allowed values; otherwise the result is empty.
\<close>

definition IsValidValue :: "Path \<Rightarrow> string option \<Rightarrow> string list \<Rightarrow> ErrorList" where
  "IsValidValue fldPath v validValues =
     (case v of
        None \<Rightarrow> []
      | Some s \<Rightarrow>
          if s \<in> set validValues then []
          else [NotSupported fldPath (StringValue s) validValues])"

subsection \<open>Helpers of \<^verbatim>\<open>upup/pkg/fi\<close>\<close>

text \<open>
  Modelled from the spec: \<^verbatim>\<open>fi.BoolValue\<close>, \<^verbatim>\<open>fi.Int64Value\<close> and
  \<^verbatim>\<open>fi.Int32Value\<close> are helpers of the repository that are not among the sources.
  They read the value behind a pointer, and the zero value of the type behind a nil
  pointer. Section 4.4 of the specification counts the CSI driver as an integration only
  when the cloud configuration enables it, which is an absent flag read as false. The
  validators read a number only behind a pointer that they have tested, but for the
  maximum size of an instance group.
\<close>

definition BoolValue :: "bool option \<Rightarrow> bool" where
  "BoolValue v = (case v of None \<Rightarrow> False | Some b \<Rightarrow> b)"

definition Int64Value :: "64 word option \<Rightarrow> 64 word" where
  "Int64Value v = (case v of None \<Rightarrow> 0 | Some x \<Rightarrow> x)"

definition Int32Value :: "32 word option \<Rightarrow> 32 word" where
  "Int32Value v = (case v of None \<Rightarrow> 0 | Some x \<Rightarrow> x)"

subsection \<open>Instance groups\<close>

record InstanceMetadataOptions =
  HTTPPutResponseHopLimit :: "64 word option"
  HTTPTokens :: "string option"

record MixedInstancesPolicySpec =
  Instances :: "string list"
  OnDemandBase :: "64 word option"
  OnDemandAboveBase :: "64 word option"
  SpotAllocationStrategy :: "string option"

record InstanceGroupSpec =
  AdditionalSecurityGroups :: "string list"
  MachineType :: string
  MaxSize :: "32 word option"
  SpotDurationInMinutes :: "64 word option"
  InstanceInterruptionBehavior :: "string option"
  MixedInstancesPolicy :: "MixedInstancesPolicySpec option"
  InstanceMetadata :: "InstanceMetadataOptions option"

record ObjectMeta =
  Name :: string

record InstanceGroup =
  ObjectMeta :: ObjectMeta
  Spec :: InstanceGroupSpec

definition GetName :: "InstanceGroup \<Rightarrow> string" where
  "GetName ig = ObjectMeta.Name (ObjectMeta ig)"

text \<open>
  \<^verbatim>\<open>awsup.AWSCloud\<close> is an interface; the validators call one method of it, which
  returns a description of the instance type or an error (\<open>Inl\<close>, with its message).
  A nil interface is \<open>None\<close>.
\<close>

record 'i AWSCloud =
  DescribeInstanceType :: "string \<Rightarrow> string + 'i"

definition awsValidateInstanceMetadata :: "Path \<Rightarrow> InstanceMetadataOptions \<Rightarrow> ErrorList" where
  "awsValidateInstanceMetadata fieldPath instanceMetadata =
     (let allErrs = [];
          allErrs =
            (if HTTPTokens instanceMetadata \<noteq> None
             then allErrs @ IsValidValue (Child fieldPath ''httpTokens'')
                    (HTTPTokens instanceMetadata) [''optional'', ''required'']
             else allErrs);
          allErrs =
            (if HTTPPutResponseHopLimit instanceMetadata \<noteq> None
             then (let httpPutResponseHopLimit =
                         Int64Value (HTTPPutResponseHopLimit instanceMetadata)
                   in if sint httpPutResponseHopLimit < 1 \<or> 64 < sint httpPutResponseHopLimit
                      then allErrs @ [Invalid (Child fieldPath ''httpPutResponseHopLimit'')
                             (Int64PtrValue (HTTPPutResponseHopLimit instanceMetadata))
                             ''HTTPPutResponseLimit must be a value between 1 and 64'']
                      else allErrs)
             else allErrs)
      in allErrs)"

text \<open>
  The loop of \<^verbatim>\<open>awsValidateInstanceType\<close> over the pieces of the machine type. Every
  error is at \<open>fieldPath\<close> itself.
\<close>

fun instanceTypeLoop :: "Path \<Rightarrow> 'i AWSCloud \<Rightarrow> string list \<Rightarrow> ErrorList \<Rightarrow> ErrorList" where
  "instanceTypeLoop fieldPath cloud [] allErrs = allErrs"
| "instanceTypeLoop fieldPath cloud (typ # typs) allErrs =
     (case DescribeInstanceType cloud typ of
        Inl err \<Rightarrow>
          instanceTypeLoop fieldPath cloud typs
            (allErrs @ [Invalid fieldPath (StringValue typ) ''machine type specified is invalid''])
      | Inr info \<Rightarrow> instanceTypeLoop fieldPath cloud typs allErrs)"

definition awsValidateInstanceType ::
  "Path \<Rightarrow> string \<Rightarrow> 'i AWSCloud option \<Rightarrow> ErrorList" where
  "awsValidateInstanceType fieldPath instanceType cloud =
     (case cloud of
        None \<Rightarrow> []
      | Some cl \<Rightarrow>
          if instanceType \<noteq> []
          then instanceTypeLoop fieldPath cl (Split instanceType CHR '','') []
          else [])"

definition validSpotDurations :: "string list" where
  "validSpotDurations = [''60'', ''120'', ''180'', ''240'', ''300'', ''360'']"

definition awsValidateSpotDurationInMinute :: "Path \<Rightarrow> InstanceGroup \<Rightarrow> ErrorList" where
  "awsValidateSpotDurationInMinute fieldPath ig =
     (case SpotDurationInMinutes (InstanceGroup.Spec ig) of
        None \<Rightarrow> []
      | Some d \<Rightarrow>
          (let spotDurationStr = FormatInt d
           in [] @ IsValidValue fieldPath (Some spotDurationStr) validSpotDurations))"

text \<open>
  \<^verbatim>\<open>ec2.InstanceInterruptionBehavior_Values()\<close> of the AWS SDK for Go: the values of
  the enumeration.
\<close>

definition InstanceInterruptionBehavior_Values :: "string list" where
  "InstanceInterruptionBehavior_Values = [''hibernate'', ''stop'', ''terminate'']"

definition awsValidateInstanceInterruptionBehavior :: "Path \<Rightarrow> InstanceGroup \<Rightarrow> ErrorList" where
  "awsValidateInstanceInterruptionBehavior fieldPath ig =
     (case InstanceInterruptionBehavior (InstanceGroup.Spec ig) of
        None \<Rightarrow> []
      | Some instanceInterruptionBehavior \<Rightarrow>
          [] @ IsValidValue fieldPath (Some instanceInterruptionBehavior)
                 InstanceInterruptionBehavior_Values)"

text \<open>
  The first loop of \<^verbatim>\<open>awsValidateMixedInstancesPolicy\<close>: the candidate at index
  \<open>i\<close> is checked as a machine type, at \<open>path.instances[i]\<close>.
\<close>

fun mixedInstancesLoop ::
  "Path \<Rightarrow> 'i AWSCloud option \<Rightarrow> nat \<Rightarrow> string list \<Rightarrow> ErrorList \<Rightarrow> ErrorList" where
  "mixedInstancesLoop path cloud i [] errs = errs"
| "mixedInstancesLoop path cloud i (x # xs) errs =
     mixedInstancesLoop path cloud (Suc i) xs
       (errs @ awsValidateInstanceType (Index (Child path ''instances'') i) x cloud)"

text \<open>
  \<^verbatim>\<open>kops.SpotAllocationStrategies\<close> is a variable of the API package that is not among
  the sources; it is the parameter \<open>strategies\<close>. \<^verbatim>\<open>int64(fi.Int32Value(...))\<close>
  extends the sign, so both sides of the comparison are read with \<^const>\<open>sint\<close>.
\<close>

definition awsValidateMixedInstancesPolicy ::
  "string list \<Rightarrow> Path \<Rightarrow> MixedInstancesPolicySpec \<Rightarrow> InstanceGroup \<Rightarrow> 'i AWSCloud option
     \<Rightarrow> ErrorList" where
  "awsValidateMixedInstancesPolicy strategies path spec ig cloud =
     (let errs = mixedInstancesLoop path cloud 0 (Instances spec) [];
          errs =
            (if OnDemandBase spec \<noteq> None
             then (let errs =
                         (if sint (Int64Value (OnDemandBase spec)) < 0
                          then errs @ [Invalid (Child path ''onDemandBase'')
                                 (Int64PtrValue (OnDemandBase spec)) ''cannot be less than zero'']
                          else errs)
                   in if sint (Int32Value (MaxSize (InstanceGroup.Spec ig)))
                           < sint (Int64Value (OnDemandBase spec))
                      then errs @ [Invalid (Child path ''onDemandBase'')
                             (Int64PtrValue (OnDemandBase spec)) ''cannot be greater than max size'']
                      else errs)
             else errs);
          errs =
            (if OnDemandAboveBase spec \<noteq> None
             then (let errs =
                         (if sint (Int64Value (OnDemandAboveBase spec)) < 0
                          then errs @ [Invalid (Child path ''onDemandAboveBase'')
                                 (Int64PtrValue (OnDemandAboveBase spec)) ''cannot be less than 0'']
                          else errs)
                   in if 100 < sint (Int64Value (OnDemandAboveBase spec))
                      then errs @ [Invalid (Child path ''onDemandAboveBase'')
                             (Int64PtrValue (OnDemandAboveBase spec)) ''cannot be greater than 100'']
                      else errs)
             else errs)
      in errs @ IsValidValue (Child path ''spotAllocationStrategy'')
                  (SpotAllocationStrategy spec) strategies)"

definition awsValidateInstanceGroup ::
  "string list \<Rightarrow> InstanceGroup \<Rightarrow> 'i AWSCloud option \<Rightarrow> ErrorList" where
  "awsValidateInstanceGroup strategies ig cloud =
     (let allErrs = [];
          allErrs = allErrs @ awsValidateAdditionalSecurityGroups
                      (NewPath ''spec'' [''additionalSecurityGroups''])
                      (InstanceGroupSpec.AdditionalSecurityGroups (InstanceGroup.Spec ig));
          allErrs = allErrs @ awsValidateInstanceType
                      (NewPath (GetName ig) [''spec'', ''machineType''])
                      (MachineType (InstanceGroup.Spec ig)) cloud;
          allErrs = allErrs @ awsValidateSpotDurationInMinute
                      (NewPath (GetName ig) [''spec'', ''spotDurationInMinutes'']) ig;
          allErrs = allErrs @ awsValidateInstanceInterruptionBehavior
                      (NewPath (GetName ig) [''spec'', ''instanceInterruptionBehavior'']) ig;
          allErrs =
            (case MixedInstancesPolicy (InstanceGroup.Spec ig) of
               None \<Rightarrow> allErrs
             | Some policy \<Rightarrow>
                 allErrs @ awsValidateMixedInstancesPolicy strategies
                   (NewPath ''spec'' [''mixedInstancesPolicy'']) policy ig cloud);
          allErrs =
            (case InstanceMetadata (InstanceGroup.Spec ig) of
               None \<Rightarrow> allErrs
             | Some instanceMetadata \<Rightarrow>
                 allErrs @ awsValidateInstanceMetadata
                   (NewPath ''spec'' [''instanceMetadata'']) instanceMetadata)
      in allErrs)"

subsection \<open>The Go standard library: net and net/netip\<close>

text \<open>
  \<^verbatim>\<open>net.IP\<close> and \<^verbatim>\<open>net.IPMask\<close> are byte slices. The nil slice is the empty
  list: the functions below return nil or a slice of 4 or 16 bytes, so the test
  \<^verbatim>\<open>ip == nil\<close> is the test for the empty list. \<^verbatim>\<open>net.ParseIP\<close> and
  \<^verbatim>\<open>net.ParseCIDR\<close> read the address with \<^verbatim>\<open>netip.ParseAddr\<close>, as the package
  does in the current Go releases: an octet with a leading zero, a group of more than
  four hexadecimal digits and an address with a zone are rejected.
\<close>

type_synonym byte = "8 word"
type_synonym IP = "byte list"
type_synonym IPMask = "byte list"

record IPNet =
  IP :: IP
  Mask :: IPMask

abbreviation IPv4len :: nat where "IPv4len \<equiv> 4"
abbreviation IPv6len :: nat where "IPv6len \<equiv> 16"

text \<open>\<^verbatim>\<open>big\<close>: the bound at which \<^verbatim>\<open>dtoi\<close> gives up.\<close>

definition big :: int where
  "big = 0xFFFFFF"

text \<open>
  \<^verbatim>\<open>dtoi\<close>: the decimal number at the start of \<open>s\<close> (a Go \<^verbatim>\<open>int\<close>, which
  stays below \<^verbatim>\<open>big\<close>), the number of bytes read and whether a number was read.
  The loop returns its state and whether it ran to its end.
\<close>

fun dtoi_loop :: "string \<Rightarrow> int \<Rightarrow> nat \<Rightarrow> int \<times> nat \<times> bool" where
  "dtoi_loop [] n i = (n, i, True)"
| "dtoi_loop (c # s) n i =
     (if 48 \<le> (of_char c :: nat) \<and> (of_char c :: nat) \<le> 57
      then (let n1 = n * 10 + (of_char c - 48)
            in if big \<le> n1 then (big, i, False) else dtoi_loop s n1 (Suc i))
      else (n, i, True))"

definition dtoi :: "string \<Rightarrow> int \<times> nat \<times> bool" where
  "dtoi s =
     (case dtoi_loop s 0 0 of
        (n, i, finished) \<Rightarrow>
          if \<not> finished then (n, i, False)
          else if i = 0 then (0, 0, False)
          else (n, i, True))"

definition v4InV6Prefix :: "byte list" where
  "v4InV6Prefix = [0, 0, 0, 0, 0, 0, 0, 0, 0, 0, 0xff, 0xff]"

text \<open>
  \<^verbatim>\<open>netip.Addr\<close>: the 128 bits of the address, here as 16 bytes, and the marker
  \<^verbatim>\<open>z\<close> that tells an IPv4 address (\<^verbatim>\<open>z4\<close>) from an IPv6 address without a
  zone (\<^verbatim>\<open>z6noz\<close>) and from an IPv6 address with a zone. An IPv4 address is held in
  its IPv4-mapped form. The zero \<^verbatim>\<open>Addr\<close> is returned only with an error, which is
  the result \<open>None\<close> of the parsers.
\<close>

datatype AddrZone = z4 | z6noz | z6zone string

datatype Addr = Addr "byte list" AddrZone

fun As16 :: "Addr \<Rightarrow> byte list" where
  "As16 (Addr a z) = a"

fun Zone :: "Addr \<Rightarrow> string" where
  "Zone (Addr a (z6zone zone)) = zone"
| "Zone (Addr a z) = []"

fun BitLen :: "Addr \<Rightarrow> nat" where
  "BitLen (Addr a z4) = 32"
| "BitLen (Addr a z) = 128"

definition AddrFrom4 :: "byte list \<Rightarrow> Addr" where
  "AddrFrom4 flds = Addr (v4InV6Prefix @ flds) z4"

definition AddrFrom16 :: "byte list \<Rightarrow> Addr" where
  "AddrFrom16 ip = Addr ip z6noz"

fun WithZone :: "Addr \<Rightarrow> string \<Rightarrow> Addr" where
  "WithZone (Addr a z4) zone = Addr a z4"
| "WithZone (Addr a z) zone = (if zone = [] then Addr a z6noz else Addr a (z6zone zone))"

definition IPv6Unspecified :: Addr where
  "IPv6Unspecified = Addr (replicate IPv6len 0) z6noz"

text \<open>
  The loop of \<^verbatim>\<open>parseIPv4Fields\<close> over the bytes of the string, with its state: the
  value \<open>val\<close> and the number of digits \<open>digLen\<close> of the current octet, the number
  \<open>pos\<close> of octets written and the octets \<open>flds\<close> (the slice \<^verbatim>\<open>fields\<close>). The loop
  reads \<^verbatim>\<open>s[i]\<close>, here the head \<open>c\<close> of the string that is left, and tests
  \<^verbatim>\<open>i == 0\<close>, \<^verbatim>\<open>s[i-1] == '.'\<close> and \<^verbatim>\<open>i == len(s)-1\<close>: \<open>prev\<close> is the byte
  before \<open>c\<close>, \<open>None\<close> at the start of the string, and \<open>c\<close> is the last byte when the
  rest is empty. \<open>None\<close> is the return of an error.
\<close>

fun parseIPv4Fields_loop ::
  "string \<Rightarrow> char option \<Rightarrow> int \<Rightarrow> nat \<Rightarrow> nat \<Rightarrow> byte list \<Rightarrow> byte list option" where
  "parseIPv4Fields_loop [] prev val pos digLen flds =
     (if pos < 3 then None else Some (flds[3 := of_int val]))"
| "parseIPv4Fields_loop (c # rest) prev val pos digLen flds =
     (if 48 \<le> (of_char c :: nat) \<and> (of_char c :: nat) \<le> 57
      then (if digLen = 1 \<and> val = 0 then None
            else (let val1 = val * 10 + (of_char c - 48)
                  in if 255 < val1 then None
                     else parseIPv4Fields_loop rest (Some c) val1 pos (Suc digLen) flds))
      else if c = CHR ''.''
      then (if prev = None \<or> rest = [] \<or> prev = Some CHR ''.'' then None
            else if pos = 3 then None
            else parseIPv4Fields_loop rest (Some c) 0 (Suc pos) 0 (flds[pos := of_int val]))
      else None)"

text \<open>
  \<^verbatim>\<open>parseIPv4Fields(in, off, end, fields)\<close> reads \<^verbatim>\<open>in[off:end]\<close>, the string \<open>s\<close>
  here, and writes the four octets to \<^verbatim>\<open>fields\<close>.
\<close>

definition parseIPv4Fields :: "string \<Rightarrow> byte list \<Rightarrow> byte list option" where
  "parseIPv4Fields s flds = parseIPv4Fields_loop s None 0 0 0 flds"

definition parseIPv4 :: "string \<Rightarrow> Addr option" where
  "parseIPv4 s =
     (case parseIPv4Fields s [0, 0, 0, 0] of
        None \<Rightarrow> None
      | Some flds \<Rightarrow> Some (AddrFrom4 flds))"

text \<open>
  The inner loop of \<^verbatim>\<open>parseIPv6\<close>, which reads one group of hexadecimal digits: the
  number \<open>off\<close> of digits read and their value \<open>acc\<close>. A fifth digit and a value above
  \<^verbatim>\<open>0xFFFF\<close> are errors.
\<close>

fun hexField :: "string \<Rightarrow> nat \<Rightarrow> int \<Rightarrow> (nat \<times> int) option" where
  "hexField [] off acc = Some (off, acc)"
| "hexField (c # s) off acc =
     (let b = (of_char c :: int);
          d = (if 48 \<le> b \<and> b \<le> 57 then Some (b - 48)
               else if 97 \<le> b \<and> b \<le> 102 then Some (b - 97 + 10)
               else if 65 \<le> b \<and> b \<le> 70 then Some (b - 65 + 10)
               else None)
      in case d of
           None \<Rightarrow> Some (off, acc)
         | Some v \<Rightarrow>
             (let acc1 = acc * 16 + v
              in if 3 < off then None
                 else if 0xFFFF < acc1 then None
                 else hexField s (Suc off) acc1))"

text \<open>
  The outer loop of \<^verbatim>\<open>parseIPv6\<close>, with its state: the rest \<open>s\<close> of the string, the
  position \<open>i\<close> in the address, the position of the ellipsis (\<open>None\<close> for -1) and the
  bytes \<open>ip\<close>. A group that a dot follows starts a trailing IPv4 address, which
  \<^verbatim>\<open>parseIPv4Fields\<close> reads from the rest of the string into \<^verbatim>\<open>ip[i:i+4]\<close>.
  \<open>None\<close> is the return of an error from inside the loop.
\<close>

function parseIPv6_loop ::
  "string \<Rightarrow> nat \<Rightarrow> nat option \<Rightarrow> byte list \<Rightarrow> (string \<times> nat \<times> nat option \<times> byte list) option" where
  "parseIPv6_loop s i ellipsis ip =
     (if \<not> i < IPv6len then Some (s, i, ellipsis, ip)
      else case hexField s 0 0 of
        None \<Rightarrow> None
      | Some (off, acc) \<Rightarrow>
          if off = 0 then None
          else if off < length s \<and> s ! off = CHR ''.''
          then (if ellipsis = None \<and> i \<noteq> 12 then None
                else if IPv6len < i + 4 then None
                else (case parseIPv4Fields s (take 4 (drop i ip)) of
                        None \<Rightarrow> None
                      | Some flds \<Rightarrow>
                          Some ([], i + 4, ellipsis, take i ip @ flds @ drop (i + 4) ip)))
          else (let ip1 = ip[i := of_int (acc div 256), i + 1 := of_int acc];
                    i1 = i + 2;
                    s1 = drop off s
                in if s1 = [] then Some (s1, i1, ellipsis, ip1)
                   else if hd s1 \<noteq> CHR '':'' then None
                   else if length s1 = 1 then None
                   else (let s2 = tl s1
                         in if hd s2 = CHR '':''
                            then (if ellipsis \<noteq> None then None
                                  else (let s3 = tl s2
                                        in if s3 = [] then Some (s3, i1, Some i1, ip1)
                                           else parseIPv6_loop s3 i1 (Some i1) ip1))
                            else parseIPv6_loop s2 i1 ellipsis ip1)))"
  by pat_completeness auto
termination
  by (relation "measure (\<lambda>(s, i, ellipsis, ip). IPv6len - i)") auto

declare parseIPv6_loop.simps [simp del]

text \<open>
  The expansion of the ellipsis: the bytes from the ellipsis on move to the end of the
  address, from the last one down, and the gap is set to zero.
\<close>

definition expandEllipsis :: "nat \<Rightarrow> nat \<Rightarrow> byte list \<Rightarrow> byte list" where
  "expandEllipsis ellipsis i ip =
     (let n = IPv6len - i;
          ip1 = foldl (\<lambda>a j. a[j + n := a ! j]) ip (rev [ellipsis..<i])
      in foldl (\<lambda>a j. a[j := 0]) ip1 [ellipsis..<ellipsis + n])"

text \<open>
  \<^verbatim>\<open>parseIPv6\<close> splits the zone off at the first \<^verbatim>\<open>%\<close>; a zone that is given must not
  be empty.
\<close>

definition parseIPv6 :: "string \<Rightarrow> Addr option" where
  "parseIPv6 in0 =
     (let hasZone = (CHR ''%'' \<in> set in0);
          s = takeWhile (\<lambda>c. c \<noteq> CHR ''%'') in0;
          zone = (if hasZone then tl (dropWhile (\<lambda>c. c \<noteq> CHR ''%'') in0) else [])
      in if hasZone \<and> zone = [] then None
         else (let ip = replicate IPv6len 0;
                   leading = (2 \<le> length s \<and> s ! 0 = CHR '':'' \<and> s ! 1 = CHR '':'');
                   ellipsis = (if leading then Some 0 else None);
                   s1 = (if leading then drop 2 s else s)
               in if leading \<and> s1 = [] then Some (WithZone IPv6Unspecified zone)
                  else (case parseIPv6_loop s1 0 ellipsis ip of
                          None \<Rightarrow> None
                        | Some (s2, i, ellipsis1, ip1) \<Rightarrow>
                            if s2 \<noteq> [] then None
                            else if i < IPv6len
                            then (case ellipsis1 of
                                    None \<Rightarrow> None
                                  | Some e \<Rightarrow>
                                      Some (WithZone (AddrFrom16 (expandEllipsis e i ip1)) zone))
                            else if ellipsis1 \<noteq> None then None
                            else Some (WithZone (AddrFrom16 ip1) zone))))"

text \<open>
  \<^verbatim>\<open>netip.ParseAddr\<close>: the first dot, colon or percent sign decides which parser
  reads the string.
\<close>

fun ParseAddr_scan :: "string \<Rightarrow> string \<Rightarrow> Addr option" where
  "ParseAddr_scan [] s = None"
| "ParseAddr_scan (c # cs) s =
     (if c = CHR ''.'' then parseIPv4 s
      else if c = CHR '':'' then parseIPv6 s
      else if c = CHR ''%'' then None
      else ParseAddr_scan cs s)"

definition ParseAddr :: "string \<Rightarrow> Addr option" where
  "ParseAddr s = ParseAddr_scan s s"

text \<open>\<^verbatim>\<open>net.ParseIP\<close>: the 16 bytes of the address that was read, nil on an error or a zone.\<close>

definition ParseIP :: "string \<Rightarrow> IP" where
  "ParseIP s =
     (case ParseAddr s of
        None \<Rightarrow> []
      | Some ip \<Rightarrow> if Zone ip \<noteq> [] then [] else As16 ip)"

text \<open>
  \<^verbatim>\<open>(IP).To4\<close>: the four bytes of an IPv4 address, also of one in its 16-byte form
  (ten zero bytes, two bytes 0xff and the address); nil otherwise.
\<close>

definition To4 :: "IP \<Rightarrow> IP" where
  "To4 ip =
     (if length ip = IPv4len then ip
      else if length ip = IPv6len \<and> list_all (\<lambda>b. b = 0) (take 10 ip)
                \<and> ip ! 10 = 0xff \<and> ip ! 11 = 0xff
      then drop 12 ip
      else [])"

text \<open>\<^verbatim>\<open>net.CIDRMask(ones, bits)\<close>: \<open>ones\<close> bits set, then zeros.\<close>

fun CIDRMask_loop :: "nat \<Rightarrow> nat \<Rightarrow> byte list" where
  "CIDRMask_loop 0 n = []"
| "CIDRMask_loop (Suc l) n =
     (if 8 \<le> n then 0xff # CIDRMask_loop l (n - 8)
      else NOT (drop_bit n (0xff :: byte)) # CIDRMask_loop l 0)"

definition CIDRMask :: "nat \<Rightarrow> nat \<Rightarrow> IPMask" where
  "CIDRMask ones bits =
     (if bits \<noteq> 8 * IPv4len \<and> bits \<noteq> 8 * IPv6len then []
      else if bits < ones then []
      else CIDRMask_loop (bits div 8) ones)"

text \<open>\<^verbatim>\<open>(IP).Mask\<close>: the address under the mask, byte by byte.\<close>

definition IP_Mask :: "IP \<Rightarrow> IPMask \<Rightarrow> IP" where
  "IP_Mask ip msk =
     (let mask1 = (if length msk = IPv6len \<and> length ip = IPv4len
                      \<and> list_all (\<lambda>b. b = 0xff) (take 12 msk)
                   then drop 12 msk else msk);
          ip1 = (if length mask1 = IPv4len \<and> length ip = IPv6len
                    \<and> take 12 ip = v4InV6Prefix
                 then drop 12 ip else ip)
      in if length ip1 \<noteq> length mask1 then []
         else map (\<lambda>(a, m). a AND m) (zip ip1 mask1))"

text \<open>
  \<^verbatim>\<open>net.ParseCIDR\<close> returns the address, the network and an error; \<open>None\<close> is the
  error. The string is cut at the first slash.
\<close>

definition ParseCIDR :: "string \<Rightarrow> (IP \<times> IPNet) option" where
  "ParseCIDR s =
     (if CHR ''/'' \<notin> set s then None
      else (let addr = takeWhile (\<lambda>c. c \<noteq> CHR ''/'') s;
                maskStr = tl (dropWhile (\<lambda>c. c \<noteq> CHR ''/'') s)
            in case ParseAddr addr of
                 None \<Rightarrow> None
               | Some ipAddr \<Rightarrow>
                   if Zone ipAddr \<noteq> [] then None
                   else (case dtoi maskStr of
                           (n, i, ok) \<Rightarrow>
                             if \<not> ok \<or> i \<noteq> length maskStr \<or> n < 0 \<or> int (BitLen ipAddr) < n
                             then None
                             else (let m = CIDRMask (nat n) (BitLen ipAddr);
                                       addr16 = As16 ipAddr
                                   in Some (addr16, \<lparr>IP = IP_Mask addr16 m, Mask = m\<rparr>)))))"

definition networkNumberAndMask :: "IPNet \<Rightarrow> IP \<times> IPMask" where
  "networkNumberAndMask n =
     (let ip = (if To4 (IP n) \<noteq> [] then To4 (IP n) else IP n);
          m = Mask n
      in if To4 (IP n) = [] \<and> length ip \<noteq> IPv6len then ([], [])
         else if length m = IPv4len
         then (if length ip \<noteq> IPv4len then ([], []) else (ip, m))
         else if length m = IPv6len
         then (if length ip = IPv4len then (ip, drop 12 m) else (ip, m))
         else ([], []))"

text \<open>\<^verbatim>\<open>(*IPNet).Contains\<close>.\<close>

definition Contains :: "IPNet \<Rightarrow> IP \<Rightarrow> bool" where
  "Contains n ip =
     (case networkNumberAndMask n of
        (nn, m) \<Rightarrow>
          (let ip1 = (if To4 ip \<noteq> [] then To4 ip else ip);
               l = length ip1
           in if l \<noteq> length nn then False
              else list_all (\<lambda>i. (nn ! i) AND (m ! i) = (ip1 ! i) AND (m ! i)) [0..<l]))"

subsection \<open>Clusters\<close>

text \<open>
  Modelled from the spec: the constants \<^verbatim>\<open>kops.LoadBalancerClassNetwork\<close>,
  \<^verbatim>\<open>kops.LoadBalancerClassClassic\<close> and \<^verbatim>\<open>kops.LoadBalancerTypeInternal\<close> of the
  API package are not among the sources. The specification names the classes "network"
  and "classic" and the type "internal" (sections 4.4 and 8). A class and a type are
  strings, so a load balancer can carry any other value.
\<close>

definition LoadBalancerClassNetwork :: string where
  "LoadBalancerClassNetwork = ''network''"

definition LoadBalancerClassClassic :: string where
  "LoadBalancerClassClassic = ''classic''"

definition LoadBalancerTypeInternal :: string where
  "LoadBalancerTypeInternal = ''internal''"

record LoadBalancerAccessSpec =
  Class :: string
  Type :: string
  AdditionalSecurityGroups :: "string list"
  SSLCertificate :: string
  SSLPolicy :: "string option"
  Subnets :: "LoadBalancerSubnetSpec list"

record AccessSpec =
  LoadBalancer :: "LoadBalancerAccessSpec option"

record CloudControllerManagerConfig =
  CloudProvider :: string

record KubeControllerManagerConfig =
  ExternalCloudVolumePlugin :: string

record AWSEBSCSIDriver =
  Enabled :: "bool option"

record CloudConfiguration =
  AWSEBSCSIDriver :: "AWSEBSCSIDriver option"

record ClusterSpec =
  API :: "AccessSpec option"
  Subnets :: "ClusterSubnetSpec list"
  ExternalCloudControllerManager :: "CloudControllerManagerConfig option"
  KubeControllerManager :: "KubeControllerManagerConfig option"
  CloudConfig :: "CloudConfiguration option"

record Cluster =
  Spec :: ClusterSpec

definition awsValidateExternalCloudControllerManager :: "ClusterSpec \<Rightarrow> ErrorList" where
  "awsValidateExternalCloudControllerManager c =
     (if ExternalCloudControllerManager c \<noteq> None
      then (if (case KubeControllerManager c of
                  None \<Rightarrow> True
                | Some kcm \<Rightarrow> ExternalCloudVolumePlugin kcm \<noteq> ''aws'')
            then (if (case CloudConfig c of
                        None \<Rightarrow> True
                      | Some cc \<Rightarrow>
                          (case AWSEBSCSIDriver cc of
                             None \<Rightarrow> True
                           | Some driver \<Rightarrow> \<not> BoolValue (Enabled driver)))
                  then [] @ [Forbidden (NewPath ''spec'' [''externalCloudControllerManager''])
                    ''AWS external CCM cannot be used without enabling spec.cloudConfig.AWSEBSCSIDriver or setting spec.kubeControllerManaager.externalCloudVolumePlugin set to `aws`'']
                  else [])
            else [])
      else [])"

definition awsValidateSSLPolicy :: "Path \<Rightarrow> LoadBalancerAccessSpec \<Rightarrow> ErrorList" where
  "awsValidateSSLPolicy fieldPath spec =
     (if SSLPolicy spec \<noteq> None
      then (if Class spec \<noteq> LoadBalancerClassNetwork
            then [Forbidden fieldPath ''sslPolicy should be specified with Network Load Balancer'']
            else [])
           @ (if SSLCertificate spec = []
              then [Forbidden fieldPath ''sslPolicy should not be specified without SSLCertificate'']
              else [])
      else [])"

text \<open>
  The inner loop of \<^verbatim>\<open>awsValidateLoadBalancerSubnets\<close>: the first cluster subnet with
  the name, or nil.
\<close>

fun findClusterSubnet :: "string \<Rightarrow> ClusterSubnetSpec list \<Rightarrow> ClusterSubnetSpec option" where
  "findClusterSubnet name [] = None"
| "findClusterSubnet name (cs # rest) =
     (if name = ClusterSubnetSpec.Name cs then Some cs else findClusterSubnet name rest)"

text \<open>
  One round of the outer loop, in its three parts. The first part gives the errors on
  the name and the cluster subnet that the name resolves to.
\<close>

definition subnetNameCheck ::
  "Path \<Rightarrow> ClusterSubnetSpec list \<Rightarrow> nat \<Rightarrow> LoadBalancerSubnetSpec
     \<Rightarrow> ErrorList \<times> ClusterSubnetSpec option" where
  "subnetNameCheck fieldPath clusterSubnets i subnet =
     (if LoadBalancerSubnetSpec.Name subnet = []
      then ([Required (Child (Index fieldPath i) ''name'') ''subnet name can't be empty''], None)
      else (let clusterSubnet = findClusterSubnet (LoadBalancerSubnetSpec.Name subnet) clusterSubnets
            in if clusterSubnet = None
               then ([NotFound (Child (Index fieldPath i) ''name'')
                        (SprintfValue ''subnet %q not found in cluster subnets''
                           [LoadBalancerSubnetSpec.Name subnet])], clusterSubnet)
               else ([], clusterSubnet)))"

definition subnetPrivateIPv4Check ::
  "Path \<Rightarrow> LoadBalancerAccessSpec \<Rightarrow> nat \<Rightarrow> LoadBalancerSubnetSpec
     \<Rightarrow> ClusterSubnetSpec option \<Rightarrow> ErrorList" where
  "subnetPrivateIPv4Check fieldPath lbSpec i subnet clusterSubnet =
     (case PrivateIPv4Address subnet of
        None \<Rightarrow> []
      | Some addr \<Rightarrow>
          (if addr = []
           then [Required (Child (Index fieldPath i) ''privateIPv4Address'')
                   ''privateIPv4Address can't be empty'']
           else [])
          @ (let ip = ParseIP addr
             in if ip = [] \<or> To4 ip = []
                then [Invalid (Child (Index fieldPath i) ''privateIPv4Address'') (SubnetValue subnet)
                        ''privateIPv4Address is not a valid IPv4 address'']
                else (case clusterSubnet of
                        None \<Rightarrow> []
                      | Some cs \<Rightarrow>
                          (case ParseCIDR (CIDR cs) of
                             None \<Rightarrow> []
                           | Some (cidrIP, ipNet) \<Rightarrow>
                               if \<not> Contains ipNet ip
                               then [Invalid (Child (Index fieldPath i) ''privateIPv4Address'')
                                       (SubnetValue subnet)
                                       ''privateIPv4Address is not part of the subnet CIDR'']
                               else [])))
          @ (if Class lbSpec \<noteq> LoadBalancerClassNetwork \<or> Type lbSpec \<noteq> LoadBalancerTypeInternal
             then [Forbidden (Child (Index fieldPath i) ''privateIPv4Address'')
                     ''privateIPv4Address only allowed for internal NLBs'']
             else []))"

definition subnetAllocationIDCheck ::
  "Path \<Rightarrow> LoadBalancerAccessSpec \<Rightarrow> nat \<Rightarrow> LoadBalancerSubnetSpec \<Rightarrow> ErrorList" where
  "subnetAllocationIDCheck fieldPath lbSpec i subnet =
     (case AllocationID subnet of
        None \<Rightarrow> []
      | Some allocationID \<Rightarrow>
          (if allocationID = []
           then [Required (Child (Index fieldPath i) ''allocationID'') ''allocationID can't be empty'']
           else [])
          @ (if Class lbSpec \<noteq> LoadBalancerClassNetwork \<or> Type lbSpec = LoadBalancerTypeInternal
             then [Forbidden (Child (Index fieldPath i) ''allocationID'')
                     ''allocationID only allowed for Public NLBs'']
             else []))"

definition loadBalancerSubnetErrs ::
  "Path \<Rightarrow> ClusterSubnetSpec list \<Rightarrow> LoadBalancerAccessSpec \<Rightarrow> nat \<Rightarrow> LoadBalancerSubnetSpec
     \<Rightarrow> ErrorList" where
  "loadBalancerSubnetErrs fieldPath clusterSubnets lbSpec i subnet =
     (case subnetNameCheck fieldPath clusterSubnets i subnet of
        (nameErrs, clusterSubnet) \<Rightarrow>
          nameErrs
          @ subnetPrivateIPv4Check fieldPath lbSpec i subnet clusterSubnet
          @ subnetAllocationIDCheck fieldPath lbSpec i subnet)"

text \<open>The outer loop, with the index \<open>i\<close> and the errors \<open>allErrs\<close>.\<close>

fun loadBalancerSubnetsLoop ::
  "Path \<Rightarrow> ClusterSubnetSpec list \<Rightarrow> LoadBalancerAccessSpec \<Rightarrow> nat
     \<Rightarrow> LoadBalancerSubnetSpec list \<Rightarrow> ErrorList \<Rightarrow> ErrorList" where
  "loadBalancerSubnetsLoop fieldPath clusterSubnets lbSpec i [] allErrs = allErrs"
| "loadBalancerSubnetsLoop fieldPath clusterSubnets lbSpec i (subnet # subnets) allErrs =
     loadBalancerSubnetsLoop fieldPath clusterSubnets lbSpec (Suc i) subnets
       (allErrs @ loadBalancerSubnetErrs fieldPath clusterSubnets lbSpec i subnet)"

text \<open>
  \<^verbatim>\<open>awsValidateLoadBalancerSubnets\<close> reads \<^verbatim>\<open>spec.API.LoadBalancer\<close> without a
  test: on a nil pointer the Go code panics, which is the result \<open>None\<close>.
\<close>

definition awsValidateLoadBalancerSubnets :: "Path \<Rightarrow> ClusterSpec \<Rightarrow> ErrorList option" where
  "awsValidateLoadBalancerSubnets fieldPath spec =
     (case API spec of
        None \<Rightarrow> None
      | Some api \<Rightarrow>
          (case LoadBalancer api of
             None \<Rightarrow> None
           | Some lbSpec \<Rightarrow>
               Some (loadBalancerSubnetsLoop fieldPath (ClusterSpec.Subnets spec) lbSpec 0
                       (LoadBalancerAccessSpec.Subnets lbSpec) [])))"

definition awsValidateCluster :: "Cluster \<Rightarrow> ErrorList option" where
  "awsValidateCluster c =
     (let allErrs = [];
          lbErrs =
            (case API (Cluster.Spec c) of
               None \<Rightarrow> Some allErrs
             | Some api \<Rightarrow>
                 (case LoadBalancer api of
                    None \<Rightarrow> Some allErrs
                  | Some lb \<Rightarrow>
                      (let allErrs1 = allErrs @ awsValidateAdditionalSecurityGroups
                                        (NewPath ''spec'' [''api'', ''loadBalancer'', ''additionalSecurityGroups''])
                                        (LoadBalancerAccessSpec.AdditionalSecurityGroups lb);
                           allErrs2 = allErrs1 @ awsValidateSSLPolicy
                                        (NewPath ''spec'' [''api'', ''loadBalancer'', ''sslPolicy'']) lb
                       in case awsValidateLoadBalancerSubnets
                                 (NewPath ''spec'' [''api'', ''loadBalancer'', ''subnets''])
                                 (Cluster.Spec c) of
                            None \<Rightarrow> None
                          | Some subnetErrs \<Rightarrow> Some (allErrs2 @ subnetErrs))))
      in case lbErrs of
           None \<Rightarrow> None
         | Some allErrs3 \<Rightarrow>
             Some (allErrs3 @ awsValidateExternalCloudControllerManager (Cluster.Spec c)))"

subsection \<open>IPv4 literals and CIDR blocks, as the specification speaks of them\<close>

text \<open>
  The specification speaks of a syntactically valid IPv4 literal and of an address that
  lies inside or outside a CIDR block. These notions are defined here on their own, not
  through the parsers above, which are then compared with them.

  A decimal octet is a string of decimal digits that is not empty, has no leading zero
  (the octet \<open>0\<close> itself apart) and whose value is at most 255. An IPv4 literal is four
  decimal octets separated by three dots; its octets are the four values.
\<close>

definition decimalValue :: "string \<Rightarrow> int" where
  "decimalValue t = foldl (\<lambda>n c. n * 10 + (of_char c - 48)) 0 t"

definition isDecimalDigit :: "char \<Rightarrow> bool" where
  "isDecimalDigit c \<longleftrightarrow> c \<in> set ''0123456789''"

definition isDecimalOctet :: "string \<Rightarrow> bool" where
  "isDecimalOctet t \<longleftrightarrow>
     t \<noteq> [] \<and> list_all isDecimalDigit t
     \<and> (1 < length t \<longrightarrow> hd t \<noteq> CHR ''0'') \<and> decimalValue t \<le> 255"

definition isIPv4Literal :: "string \<Rightarrow> bool" where
  "isIPv4Literal s \<longleftrightarrow>
     length (Split s CHR ''.'') = 4 \<and> list_all isDecimalOctet (Split s CHR ''.'')"

definition ipv4LiteralOctets :: "string \<Rightarrow> byte list" where
  "ipv4LiteralOctets s = map (\<lambda>t. of_int (decimalValue t)) (Split s CHR ''.'')"

text \<open>
  An IPv4-mapped IPv6 literal is a string with a colon that \<^verbatim>\<open>net.ParseIP\<close> reads as
  an address of the form \<open>::ffff:a.b.c.d\<close>, which has a 4-byte form. It is not an
  IPv4 literal.
\<close>

definition isIPv4MappedIPv6Literal :: "string \<Rightarrow> bool" where
  "isIPv4MappedIPv6Literal s \<longleftrightarrow> CHR '':'' \<in> set s \<and> To4 (ParseIP s) \<noteq> []"

text \<open>
  The 32 bits of an address of four octets, the most significant bit of the first octet
  first. An IPv4 CIDR block is an IPv4 literal, a slash and a prefix length in decimal
  digits from 0 to 32. An address lies in the block when its first bits, as many as the
  prefix length says, are those of the address of the block.
\<close>

definition addressBits :: "byte list \<Rightarrow> bool list" where
  "addressBits bs = concat (map (\<lambda>b. map (bit b) (rev [0..<8])) bs)"

definition cidrBase :: "string \<Rightarrow> string" where
  "cidrBase s = takeWhile (\<lambda>c. c \<noteq> CHR ''/'') s"

definition cidrPrefix :: "string \<Rightarrow> string" where
  "cidrPrefix s = tl (dropWhile (\<lambda>c. c \<noteq> CHR ''/'') s)"

definition isIPv4CIDR :: "string \<Rightarrow> bool" where
  "isIPv4CIDR s \<longleftrightarrow>
     CHR ''/'' \<in> set s \<and> isIPv4Literal (cidrBase s)
     \<and> cidrPrefix s \<noteq> [] \<and> list_all isDecimalDigit (cidrPrefix s)
     \<and> decimalValue (cidrPrefix s) \<le> 32"

definition inIPv4CIDR :: "string \<Rightarrow> string \<Rightarrow> bool" where
  "inIPv4CIDR cidr a \<longleftrightarrow>
     take (nat (decimalValue (cidrPrefix cidr))) (addressBits (ipv4LiteralOctets a))
     = take (nat (decimalValue (cidrPrefix cidr)))
         (addressBits (ipv4LiteralOctets (cidrBase cidr)))"

subsection \<open>Sample values\<close>

text \<open>
  The values of the package's tests: an instance group named \<open>test-nodes\<close>, a cloud
  that knows a few machine types, and a cluster with the subnets \<open>a\<close>, \<open>b\<close> and
  \<open>c\<close>, all with the CIDR \<open>10.0.0.0/24\<close>, behind a load balancer of a given class
  and type.
\<close>

definition sampleCloud :: "unit AWSCloud" where
  "sampleCloud =
     \<lparr>DescribeInstanceType =
        (\<lambda>typ. if typ \<in> set [''t2.micro'', ''m5.large'', ''c5.large''] then Inr ()
               else Inl (''invalid instance type: '' @ typ))\<rparr>"

definition emptyInstanceGroupSpec :: InstanceGroupSpec where
  "emptyInstanceGroupSpec =
     \<lparr>InstanceGroupSpec.AdditionalSecurityGroups = [], MachineType = [], MaxSize = None,
      SpotDurationInMinutes = None, InstanceInterruptionBehavior = None,
      MixedInstancesPolicy = None, InstanceMetadata = None\<rparr>"

definition testNodes :: "InstanceGroupSpec \<Rightarrow> InstanceGroup" where
  "testNodes spec = \<lparr>ObjectMeta = \<lparr>ObjectMeta.Name = ''test-nodes''\<rparr>, Spec = spec\<rparr>"

definition testClusterSubnets :: "ClusterSubnetSpec list" where
  "testClusterSubnets =
     [\<lparr>ClusterSubnetSpec.Name = ''a'', CIDR = ''10.0.0.0/24''\<rparr>,
      \<lparr>ClusterSubnetSpec.Name = ''b'', CIDR = ''10.0.0.0/24''\<rparr>,
      \<lparr>ClusterSubnetSpec.Name = ''c'', CIDR = ''10.0.0.0/24''\<rparr>]"

definition testLoadBalancer ::
  "string \<Rightarrow> string \<Rightarrow> LoadBalancerSubnetSpec list \<Rightarrow> LoadBalancerAccessSpec" where
  "testLoadBalancer cls typ lbSubnets =
     \<lparr>Class = cls, Type = typ, AdditionalSecurityGroups = [], SSLCertificate = [],
      SSLPolicy = None, Subnets = lbSubnets\<rparr>"

definition testClusterSpec ::
  "string \<Rightarrow> string \<Rightarrow> LoadBalancerSubnetSpec list \<Rightarrow> ClusterSpec" where
  "testClusterSpec cls typ lbSubnets =
     \<lparr>API = Some \<lparr>LoadBalancer = Some (testLoadBalancer cls typ lbSubnets)\<rparr>,
      Subnets = testClusterSubnets,
      ExternalCloudControllerManager = None,
      KubeControllerManager = None,
      CloudConfig = None\<rparr>"

definition lbSubnetsPath :: Path where
  "lbSubnetsPath = NewPath ''spec'' [''api'', ''loadBalancer'', ''subnets'']"

text \<open>
  Two cluster subnets with the same name and different CIDRs, which tell the first
  subnet of a name from a later one.
\<close>

definition sameNameSubnets :: "ClusterSubnetSpec list" where
  "sameNameSubnets =
     [\<lparr>ClusterSubnetSpec.Name = ''a'', CIDR = ''10.0.0.0/24''\<rparr>,
      \<lparr>ClusterSubnetSpec.Name = ''a'', CIDR = ''11.0.0.0/24''\<rparr>]"

text \<open>
  A binding of the load balancer of the tests (a network load balancer that is internal)
  to the subnet of a given name with a given private address, and the errors of that
  binding.
\<close>

definition privateBinding :: "string \<Rightarrow> string \<Rightarrow> LoadBalancerSubnetSpec" where
  "privateBinding name addr =
     \<lparr>LoadBalancerSubnetSpec.Name = name, PrivateIPv4Address = Some addr, AllocationID = None\<rparr>"

definition privateBindingErrs :: "string \<Rightarrow> string \<Rightarrow> ErrorList" where
  "privateBindingErrs name addr =
     loadBalancerSubnetErrs lbSubnetsPath testClusterSubnets
       (testLoadBalancer LoadBalancerClassNetwork LoadBalancerTypeInternal
          [privateBinding name addr]) 0 (privateBinding name addr)"

text \<open>The three inputs of \<^verbatim>\<open>TestAWSValidateExternalCloudConfig\<close>.\<close>

definition ccmOnly :: ClusterSpec where
  "ccmOnly =
     \<lparr>API = None, Subnets = [],
      ExternalCloudControllerManager = Some \<lparr>CloudProvider = []\<rparr>,
      KubeControllerManager = None,
      CloudConfig = None\<rparr>"

definition ccmWithCSIDriver :: ClusterSpec where
  "ccmWithCSIDriver =
     ccmOnly\<lparr>CloudConfig := Some \<lparr>AWSEBSCSIDriver = Some \<lparr>Enabled = Some True\<rparr>\<rparr>\<rparr>"

definition ccmWithVolumePlugin :: ClusterSpec where
  "ccmWithVolumePlugin =
     ccmOnly\<lparr>KubeControllerManager := Some \<lparr>ExternalCloudVolumePlugin = ''aws''\<rparr>\<rparr>"

section \<open>Properties\<close>

subsection \<open>Loops in closed form\<close>

text \<open>
  Each loop that appends to an error list gives the errors it started with, followed by
  the errors of its rounds in the order of the list it runs over.
\<close>

lemma upt_0_Suc_map: "[0..<Suc n] = 0 # map Suc [0..<n]"
  by (simp add: upt_conv_Cons map_Suc_upt del: upt_Suc)

lemma securityGroupsLoop_step:
  "securityGroupsLoop fp k (s # gs) names acc =
     securityGroupsLoop fp (Suc k) gs (insert s names) (acc @ securityGroupErrs fp k s names)"
  by (simp add: securityGroupErrs_def Let_def)

lemma securityGroupsLoop_closed:
  "securityGroupsLoop fp k gs names acc =
     acc @ concat (map (\<lambda>i. securityGroupErrs fp (k + i) (gs ! i) (names \<union> set (take i gs)))
                    [0..<length gs])"
proof (induction gs arbitrary: k names acc)
  case Nil
  show ?case by simp
next
  case (Cons s gs)
  have "securityGroupsLoop fp k (s # gs) names acc =
        securityGroupsLoop fp (Suc k) gs (insert s names) (acc @ securityGroupErrs fp k s names)"
    by (rule securityGroupsLoop_step)
  also have "\<dots> = (acc @ securityGroupErrs fp k s names) @
      concat (map (\<lambda>i. securityGroupErrs fp (Suc k + i) (gs ! i) (insert s names \<union> set (take i gs)))
                    [0..<length gs])"
    by (rule Cons.IH)
  also have "\<dots> = acc @ concat (map (\<lambda>i. securityGroupErrs fp (k + i) ((s # gs) ! i)
                        (names \<union> set (take i (s # gs)))) [0..<length (s # gs)])"
    by (simp add: upt_0_Suc_map comp_def del: upt_Suc)
  finally show ?case .
qed

lemma instanceTypeLoop_closed:
  "instanceTypeLoop fp cl typs acc =
     acc @ map (\<lambda>typ. Invalid fp (StringValue typ) ''machine type specified is invalid'')
             (filter (\<lambda>typ. isl (DescribeInstanceType cl typ)) typs)"
  by (induction typs arbitrary: acc) (auto split: sum.splits)

lemma mixedInstancesLoop_closed:
  "mixedInstancesLoop path cloud k xs acc =
     acc @ concat (map (\<lambda>i. awsValidateInstanceType (Index (Child path ''instances'') (k + i))
                              (xs ! i) cloud) [0..<length xs])"
proof (induction xs arbitrary: k acc)
  case Nil
  show ?case by simp
next
  case (Cons x xs)
  show ?case
    by (simp add: Cons.IH upt_0_Suc_map comp_def del: upt_Suc)
qed

lemma loadBalancerSubnetsLoop_closed:
  "loadBalancerSubnetsLoop fp cs lb k subnets acc =
     acc @ concat (map (\<lambda>i. loadBalancerSubnetErrs fp cs lb (k + i) (subnets ! i))
                    [0..<length subnets])"
proof (induction subnets arbitrary: k acc)
  case Nil
  show ?case by simp
next
  case (Cons x xs)
  show ?case
    by (simp add: Cons.IH upt_0_Suc_map comp_def del: upt_Suc)
qed

lemma awsValidateLoadBalancerSubnets_closed:
  assumes "API spec = Some api" and "LoadBalancer api = Some lbSpec"
  shows "awsValidateLoadBalancerSubnets fp spec =
     Some (concat (map (\<lambda>i. loadBalancerSubnetErrs fp (ClusterSpec.Subnets spec) lbSpec i
                               (LoadBalancerAccessSpec.Subnets lbSpec ! i))
                     [0..<length (LoadBalancerAccessSpec.Subnets lbSpec)]))"
  using assms by (simp add: awsValidateLoadBalancerSubnets_def loadBalancerSubnetsLoop_closed)

lemma binding_errs_emitted:
  assumes "API spec = Some api" and "LoadBalancer api = Some lbSpec"
    and "i < length (LoadBalancerAccessSpec.Subnets lbSpec)"
    and "awsValidateLoadBalancerSubnets fp spec = Some errs"
  shows "set (loadBalancerSubnetErrs fp (ClusterSpec.Subnets spec) lbSpec i
               (LoadBalancerAccessSpec.Subnets lbSpec ! i)) \<subseteq> set errs"
proof -
  have "errs = concat (map (\<lambda>i. loadBalancerSubnetErrs fp (ClusterSpec.Subnets spec) lbSpec i
                               (LoadBalancerAccessSpec.Subnets lbSpec ! i))
                     [0..<length (LoadBalancerAccessSpec.Subnets lbSpec)])"
    using assms(4) awsValidateLoadBalancerSubnets_closed [OF assms(1,2), of fp] by simp
  then show ?thesis using assms(3) by auto
qed

subsection \<open>Splitting and printing\<close>

lemma Split_not_Nil: "Split s sep \<noteq> []"
  by (induction s) (auto split: list.splits)

lemma Split_pieces: "t \<in> set (Split s sep) \<Longrightarrow> sep \<notin> set t"
  by (induction s arbitrary: t) (auto split: list.splits if_splits)

lemma Split_join: "concat (map (\<lambda>t. t @ [sep]) (Split s sep)) = s @ [sep]"
  by (induction s) (auto split: list.splits)

lemma of_char_digit: "d < 10 \<Longrightarrow> (of_char (char_of (48 + d :: nat)) :: nat) = 48 + d"
  by simp

lemma formatBits_decimal:
  "foldl (\<lambda>n c. n * 10 + (of_char c - 48)) (0::nat) (formatBits u a)
     = foldl (\<lambda>n c. n * 10 + (of_char c - 48)) u a"
proof (induction u a rule: formatBits.induct)
  case (1 u a)
  show ?case
  proof (cases "10 \<le> u")
    case True
    have "u mod 10 < 10" by simp
    then have d: "(of_char (char_of (48 + u mod 10)) :: nat) = 48 + u mod 10"
      by (rule of_char_digit)
    have "formatBits u a = formatBits (u div 10) (char_of (48 + u mod 10) # a)"
      using True by (simp add: formatBits.simps [of u a])
    then show ?thesis
      using "1.IH" [OF True] d by (simp add: mult.commute)
  next
    case False
    then have "u < 10" by simp
    then have d: "(of_char (char_of (48 + u)) :: nat) = 48 + u"
      by (rule of_char_digit)
    have "formatBits u a = char_of (48 + u) # a"
      using False by (simp add: formatBits.simps [of u a])
    then show ?thesis using d by simp
  qed
qed

lemma formatBits_inj:
  assumes "formatBits u [] = formatBits v []"
  shows "u = v"
proof -
  have "foldl (\<lambda>n c. n * 10 + (of_char c - 48)) (0::nat) (formatBits u [])
      = foldl (\<lambda>n c. n * 10 + (of_char c - 48)) (0::nat) (formatBits v [])"
    using assms by simp
  then show "u = v" by (simp add: formatBits_decimal)
qed

lemma formatBits_hd: "hd (formatBits u a) \<noteq> CHR ''-''"
proof (induction u a rule: formatBits.induct)
  case (1 u a)
  show ?case
  proof (cases "10 \<le> u")
    case True
    then show ?thesis using "1.IH" by (simp add: formatBits.simps [of u a])
  next
    case False
    then have "u < 10" by simp
    then have d: "(of_char (char_of (48 + u)) :: nat) = 48 + u" by (rule of_char_digit)
    have "char_of (48 + u) \<noteq> CHR ''-''"
    proof
      assume "char_of (48 + u) = CHR ''-''"
      then have "(of_char (char_of (48 + u)) :: nat) = of_char CHR ''-''" by simp
      with d show False by simp
    qed
    then show ?thesis using False by (simp add: formatBits.simps [of u a])
  qed
qed

lemma FormatInt_eq_formatBits:
  assumes "FormatInt d = formatBits n []"
  shows "d = of_nat n"
proof (cases "sint d < 0")
  case True
  then have "hd (FormatInt d) = CHR ''-''" by (simp add: FormatInt_def)
  with assms show ?thesis using formatBits_hd [of n "[]"] by simp
next
  case False
  then have "formatBits (unat d) [] = formatBits n []"
    using assms by (simp add: FormatInt_def)
  then have "unat d = n" by (rule formatBits_inj)
  then show ?thesis by auto
qed

lemma validSpotDurations_formatBits:
  "validSpotDurations = map (\<lambda>n. formatBits n []) [60, 120, 180, 240, 300, 360]"
  unfolding validSpotDurations_def by code_simp

lemma FormatInt_valid_iff:
  "FormatInt d \<in> set validSpotDurations \<longleftrightarrow> sint d \<in> {60, 120, 180, 240, 300, 360}"
proof
  assume "FormatInt d \<in> set validSpotDurations"
  then have "FormatInt d \<in> (\<lambda>n. formatBits n []) ` {60, 120, 180, 240, 300, 360}"
    by (simp add: validSpotDurations_formatBits)
  then obtain n where n: "n \<in> {60, 120, 180, 240, 300, 360::nat}"
    and f: "FormatInt d = formatBits n []"
    by blast
  from f have "d = of_nat n" by (rule FormatInt_eq_formatBits)
  with n show "sint d \<in> {60, 120, 180, 240, 300, 360}" by auto
next
  assume "sint d \<in> {60, 120, 180, 240, 300, 360}"
  moreover have "d = of_int (sint d)" by auto
  ultimately obtain k :: int where dk: "d = of_int k" and k: "k \<in> {60, 120, 180, 240, 300, 360}"
    by blast
  from k show "FormatInt d \<in> set validSpotDurations"
    unfolding validSpotDurations_def dk
    by (elim insertE emptyE; hypsubst; code_simp)
qed

subsection \<open>The fields of errors and the text of paths\<close>

lemma Field_simps [simp]:
  "Field (NotFound p v) = Path_String p"
  "Field (Required p d) = Path_String p"
  "Field (Duplicate p v) = Path_String p"
  "Field (Invalid p v d) = Path_String p"
  "Field (NotSupported p v vs) = Path_String p"
  "Field (Forbidden p d) = Path_String p"
  by (simp_all add: NotFound_def Required_def Duplicate_def Invalid_def NotSupported_def
        Forbidden_def)

lemma Path_String_Index: "Path_String (Index p i) = renderPath p @ ''['' @ Itoa i @ '']''"
  by (simp add: Path_String_def Index_def)

lemma Path_String_Child:
  "n \<noteq> [] \<Longrightarrow> p \<noteq> NilPath \<Longrightarrow> Path_String (Child p n) = renderPath p @ ''.'' @ n"
  by (simp add: Path_String_def Child_def)

lemma renderPath_Index: "renderPath (Index p i) = renderPath p @ ''['' @ Itoa i @ '']''"
  by (simp add: Index_def)

lemma Index_not_Nil [simp]: "Index p i \<noteq> NilPath"
  by (simp add: Index_def)

lemma Child_not_Nil [simp]: "Child p n \<noteq> NilPath"
  by (simp add: Child_def)

lemma renderPath_Child:
  "n \<noteq> [] \<Longrightarrow> p \<noteq> NilPath \<Longrightarrow> renderPath (Child p n) = renderPath p @ ''.'' @ n"
  by (simp add: Child_def)

lemma NewPath_not_Nil [simp]: "NewPath n ns \<noteq> NilPath"
proof -
  have "\<And>p. p \<noteq> NilPath \<Longrightarrow> foldl (\<lambda>r a. Path a [] r) p ns \<noteq> NilPath"
    by (induction ns) auto
  then show ?thesis by (simp add: NewPath_def)
qed

lemma renderPath_NewPath2:
  "a \<noteq> [] \<Longrightarrow> b \<noteq> [] \<Longrightarrow>
   renderPath (NewPath n [a, b]) = (if n = [] then ''[]'' else n) @ ''.'' @ a @ ''.'' @ b"
  by (simp add: NewPath_def)

lemma ErrorType_simps [simp]:
  "Error.Type (NotFound p v) = ErrorTypeNotFound"
  "Error.Type (Required p d) = ErrorTypeRequired"
  "Error.Type (Duplicate p v) = ErrorTypeDuplicate"
  "Error.Type (Invalid p v d) = ErrorTypeInvalid"
  "Error.Type (NotSupported p v vs) = ErrorTypeNotSupported"
  "Error.Type (Forbidden p d) = ErrorTypeForbidden"
  by (simp_all add: NotFound_def Required_def Duplicate_def Invalid_def NotSupported_def
        Forbidden_def)

lemma Detail_simps [simp]:
  "Detail (Required p d) = Message d"
  "Detail (Invalid p v d) = Message d"
  "Detail (Forbidden p d) = Message d"
  by (simp_all add: Required_def Invalid_def Forbidden_def)

lemma Forbidden_neq [simp]:
  "Forbidden p d \<noteq> Required q d'"
  "Forbidden p d \<noteq> Invalid q v d'"
  "Forbidden p d \<noteq> NotFound q v"
  "Required q d' \<noteq> Forbidden p d"
  "Invalid q v d' \<noteq> Forbidden p d"
  "NotFound q v \<noteq> Forbidden p d"
  by (simp_all add: NotFound_def Required_def Invalid_def Forbidden_def)

lemma Invalid_neq [simp]:
  "Invalid p v d \<noteq> Required q d'"
  "Invalid p v d \<noteq> NotFound q v'"
  "Required q d' \<noteq> Invalid p v d"
  "NotFound q v' \<noteq> Invalid p v d"
  by (simp_all add: NotFound_def Required_def Invalid_def)

lemma Forbidden_eq_iff: "Forbidden p d = Forbidden q d' \<longleftrightarrow> Path_String p = Path_String q \<and> d = d'"
  by (auto simp: Forbidden_def)

lemma Invalid_eq_iff:
  "Invalid p v d = Invalid q v' d' \<longleftrightarrow> Path_String p = Path_String q \<and> v = v' \<and> d = d'"
  by (auto simp: Invalid_def)

lemma Required_eq_iff: "Required p d = Required q d' \<longleftrightarrow> Path_String p = Path_String q \<and> d = d'"
  by (auto simp: Required_def)

lemma securityGroups_Field:
  assumes "e \<in> set (awsValidateAdditionalSecurityGroups fp gs)"
  shows "\<exists>i<length gs. Field e = Path_String (Index fp i)"
  using assms
  unfolding awsValidateAdditionalSecurityGroups_def securityGroupsLoop_closed
  by (auto simp: securityGroupErrs_def split: if_splits)

lemma instanceType_Field:
  assumes "e \<in> set (awsValidateInstanceType fp s cloud)"
  shows "Field e = Path_String fp"
  using assms
  by (auto simp: awsValidateInstanceType_def instanceTypeLoop_closed split: option.splits if_splits)

lemma IsValidValue_Field:
  assumes "e \<in> set (IsValidValue fp v vs)"
  shows "Field e = Path_String fp"
  using assms by (auto simp: IsValidValue_def split: option.splits if_splits)

lemma spotDuration_Field:
  assumes "e \<in> set (awsValidateSpotDurationInMinute fp ig)"
  shows "Field e = Path_String fp"
  using assms
  by (auto simp: awsValidateSpotDurationInMinute_def Let_def dest: IsValidValue_Field
        split: option.splits)

lemma interruptionBehavior_Field:
  assumes "e \<in> set (awsValidateInstanceInterruptionBehavior fp ig)"
  shows "Field e = Path_String fp"
  using assms
  by (auto simp: awsValidateInstanceInterruptionBehavior_def dest: IsValidValue_Field
        split: option.splits)

lemma instanceMetadata_Field:
  assumes "e \<in> set (awsValidateInstanceMetadata fp m)"
  shows "Field e = Path_String (Child fp ''httpTokens'')
       \<or> Field e = Path_String (Child fp ''httpPutResponseHopLimit'')"
  using assms
  by (auto simp: awsValidateInstanceMetadata_def Let_def dest: IsValidValue_Field
        split: option.splits if_splits)

lemma mixedInstancesPolicy_parts:
  "awsValidateMixedInstancesPolicy strategies path spec ig cloud =
     concat (map (\<lambda>i. awsValidateInstanceType (Index (Child path ''instances'') i)
                         (Instances spec ! i) cloud) [0..<length (Instances spec)])
     @ (case OnDemandBase spec of
          None \<Rightarrow> []
        | Some b \<Rightarrow>
            (if sint b < 0
             then [Invalid (Child path ''onDemandBase'') (Int64PtrValue (Some b))
                     ''cannot be less than zero'']
             else [])
            @ (if (case MaxSize (InstanceGroup.Spec ig) of None \<Rightarrow> 0 | Some m \<Rightarrow> sint m) < sint b
               then [Invalid (Child path ''onDemandBase'') (Int64PtrValue (Some b))
                       ''cannot be greater than max size'']
               else []))
     @ (case OnDemandAboveBase spec of
          None \<Rightarrow> []
        | Some a \<Rightarrow>
            (if sint a < 0
             then [Invalid (Child path ''onDemandAboveBase'') (Int64PtrValue (Some a))
                     ''cannot be less than 0'']
             else [])
            @ (if 100 < sint a
               then [Invalid (Child path ''onDemandAboveBase'') (Int64PtrValue (Some a))
                       ''cannot be greater than 100'']
               else []))
     @ IsValidValue (Child path ''spotAllocationStrategy'') (SpotAllocationStrategy spec) strategies"
  by (simp add: awsValidateMixedInstancesPolicy_def mixedInstancesLoop_closed
        Int64Value_def Int32Value_def Let_def split: option.split)

lemma mixedInstancesPolicy_Field:
  assumes "e \<in> set (awsValidateMixedInstancesPolicy strategies fp spec ig cloud)"
  shows "(\<exists>i<length (Instances spec). Field e = Path_String (Index (Child fp ''instances'') i))
       \<or> Field e = Path_String (Child fp ''onDemandBase'')
       \<or> Field e = Path_String (Child fp ''onDemandAboveBase'')
       \<or> Field e = Path_String (Child fp ''spotAllocationStrategy'')"
proof -
  let ?A = "concat (map (\<lambda>i. awsValidateInstanceType (Index (Child fp ''instances'') i)
                         (Instances spec ! i) cloud) [0..<length (Instances spec)])"
  let ?B = "case OnDemandBase spec of
          None \<Rightarrow> []
        | Some b \<Rightarrow>
            (if sint b < 0
             then [Invalid (Child fp ''onDemandBase'') (Int64PtrValue (Some b))
                     ''cannot be less than zero'']
             else [])
            @ (if (case MaxSize (InstanceGroup.Spec ig) of None \<Rightarrow> 0 | Some m \<Rightarrow> sint m) < sint b
               then [Invalid (Child fp ''onDemandBase'') (Int64PtrValue (Some b))
                       ''cannot be greater than max size'']
               else [])"
  let ?C = "case OnDemandAboveBase spec of
          None \<Rightarrow> []
        | Some a \<Rightarrow>
            (if sint a < 0
             then [Invalid (Child fp ''onDemandAboveBase'') (Int64PtrValue (Some a))
                     ''cannot be less than 0'']
             else [])
            @ (if 100 < sint a
               then [Invalid (Child fp ''onDemandAboveBase'') (Int64PtrValue (Some a))
                       ''cannot be greater than 100'']
               else [])"
  let ?D = "IsValidValue (Child fp ''spotAllocationStrategy'') (SpotAllocationStrategy spec) strategies"
  have "e \<in> set (?A @ ?B @ ?C @ ?D)"
    using assms unfolding mixedInstancesPolicy_parts .
  then consider "e \<in> set ?A" | "e \<in> set ?B" | "e \<in> set ?C" | "e \<in> set ?D"
    by auto
  then show ?thesis
  proof cases
    case 1
    then obtain i where "i < length (Instances spec)"
      and "e \<in> set (awsValidateInstanceType (Index (Child fp ''instances'') i) (Instances spec ! i) cloud)"
      by auto
    then show ?thesis using instanceType_Field by blast
  next
    case 2
    then have "Field e = Path_String (Child fp ''onDemandBase'')"
      by (cases "OnDemandBase spec") (auto split: if_splits)
    then show ?thesis by simp
  next
    case 3
    then have "Field e = Path_String (Child fp ''onDemandAboveBase'')"
      by (cases "OnDemandAboveBase spec") (auto split: if_splits)
    then show ?thesis by simp
  next
    case 4
    then have "Field e = Path_String (Child fp ''spotAllocationStrategy'')"
      by (rule IsValidValue_Field)
    then show ?thesis by simp
  qed
qed

subsection \<open>Load-balancer subnets\<close>

lemma findClusterSubnet_None:
  "findClusterSubnet n cs = None \<longleftrightarrow> n \<notin> ClusterSubnetSpec.Name ` set cs"
  by (induction cs) auto

lemma findClusterSubnet_first:
  assumes "cs = pre @ c # post" and "ClusterSubnetSpec.Name c = n"
    and "\<forall>x \<in> set pre. ClusterSubnetSpec.Name x \<noteq> n"
  shows "findClusterSubnet n cs = Some c"
  using assms by (induction pre arbitrary: cs) auto

lemma findClusterSubnet_Some:
  assumes "findClusterSubnet n cs = Some c"
  shows "\<exists>pre post. cs = pre @ c # post \<and> ClusterSubnetSpec.Name c = n
           \<and> (\<forall>x \<in> set pre. ClusterSubnetSpec.Name x \<noteq> n)"
  using assms
proof (induction cs)
  case Nil
  then show ?case by simp
next
  case (Cons a cs)
  show ?case
  proof (cases "n = ClusterSubnetSpec.Name a")
    case True
    with Cons.prems have "c = a" by simp
    with True have "a # cs = [] @ c # cs \<and> ClusterSubnetSpec.Name c = n
        \<and> (\<forall>x \<in> set []. ClusterSubnetSpec.Name x \<noteq> n)" by simp
    then show ?thesis by blast
  next
    case False
    with Cons.prems have "findClusterSubnet n cs = Some c" by simp
    then obtain pre post where "cs = pre @ c # post" "ClusterSubnetSpec.Name c = n"
      "\<forall>x \<in> set pre. ClusterSubnetSpec.Name x \<noteq> n"
      using Cons.IH by blast
    with False have "a # cs = (a # pre) @ c # post \<and> ClusterSubnetSpec.Name c = n
        \<and> (\<forall>x \<in> set (a # pre). ClusterSubnetSpec.Name x \<noteq> n)" by auto
    then show ?thesis by blast
  qed
qed

lemma subnetNameCheck_empty:
  assumes "LoadBalancerSubnetSpec.Name subnet = []"
  shows "subnetNameCheck fp cs i subnet =
     ([Required (Child (Index fp i) ''name'') ''subnet name can't be empty''], None)"
  using assms by (simp add: subnetNameCheck_def)

lemma subnetNameCheck_missing:
  assumes "LoadBalancerSubnetSpec.Name subnet \<noteq> []"
    and "LoadBalancerSubnetSpec.Name subnet \<notin> ClusterSubnetSpec.Name ` set cs"
  shows "subnetNameCheck fp cs i subnet =
     ([NotFound (Child (Index fp i) ''name'')
         (SprintfValue ''subnet %q not found in cluster subnets''
            [LoadBalancerSubnetSpec.Name subnet])], None)"
proof -
  have "findClusterSubnet (LoadBalancerSubnetSpec.Name subnet) cs = None"
    using assms(2) by (simp add: findClusterSubnet_None)
  then show ?thesis using assms(1) by (simp add: subnetNameCheck_def)
qed

lemma subnetNameCheck_found:
  assumes "LoadBalancerSubnetSpec.Name subnet \<noteq> []"
    and "findClusterSubnet (LoadBalancerSubnetSpec.Name subnet) cs = Some c"
  shows "subnetNameCheck fp cs i subnet = ([], Some c)"
  using assms by (simp add: subnetNameCheck_def)

lemma Forbidden_in_nameErrs:
  "Forbidden p d \<notin> set (fst (subnetNameCheck fp cs i subnet))"
  by (simp add: subnetNameCheck_def Let_def)

lemma Invalid_in_nameErrs:
  "Invalid p v d \<notin> set (fst (subnetNameCheck fp cs i subnet))"
  by (simp add: subnetNameCheck_def Let_def)

lemma loadBalancerSubnetErrs_parts:
  "loadBalancerSubnetErrs fp cs lb i subnet =
     fst (subnetNameCheck fp cs i subnet)
     @ subnetPrivateIPv4Check fp lb i subnet (snd (subnetNameCheck fp cs i subnet))
     @ subnetAllocationIDCheck fp lb i subnet"
  by (simp add: loadBalancerSubnetErrs_def split: prod.split)

lemma privateForbidden_iff:
  assumes "PrivateIPv4Address subnet = Some addr"
  shows "Forbidden (Child (Index fp i) ''privateIPv4Address'')
           ''privateIPv4Address only allowed for internal NLBs''
         \<in> set (subnetPrivateIPv4Check fp lb i subnet resolved)
     \<longleftrightarrow> \<not> (Class lb = LoadBalancerClassNetwork \<and> LoadBalancerAccessSpec.Type lb = LoadBalancerTypeInternal)"
  using assms
  by (simp add: subnetPrivateIPv4Check_def Let_def split: option.split prod.split)

lemma allocationForbidden_iff:
  assumes "AllocationID subnet = Some a"
  shows "Forbidden (Child (Index fp i) ''allocationID'') ''allocationID only allowed for Public NLBs''
         \<in> set (subnetAllocationIDCheck fp lb i subnet)
     \<longleftrightarrow> \<not> (Class lb = LoadBalancerClassNetwork \<and> LoadBalancerAccessSpec.Type lb \<noteq> LoadBalancerTypeInternal)"
  using assms
  by (simp add: subnetAllocationIDCheck_def)

lemma privateForbidden_not_in_allocation:
  "Forbidden (Child (Index fp i) ''privateIPv4Address'')
           ''privateIPv4Address only allowed for internal NLBs''
     \<notin> set (subnetAllocationIDCheck fp lb i subnet)"
  by (simp add: subnetAllocationIDCheck_def Forbidden_eq_iff split: option.split)

lemma allocationForbidden_not_in_private:
  "Forbidden (Child (Index fp i) ''allocationID'') ''allocationID only allowed for Public NLBs''
     \<notin> set (subnetPrivateIPv4Check fp lb i subnet resolved)"
  by (simp add: subnetPrivateIPv4Check_def Let_def Forbidden_eq_iff split: option.split prod.split)

lemma privateRequired_iff:
  assumes "PrivateIPv4Address subnet = Some addr"
  shows "Required (Child (Index fp i) ''privateIPv4Address'') ''privateIPv4Address can't be empty''
         \<in> set (subnetPrivateIPv4Check fp lb i subnet resolved) \<longleftrightarrow> addr = []"
  using assms
  by (simp add: subnetPrivateIPv4Check_def Let_def split: option.split prod.split)

lemma privateInvalidIP_iff:
  assumes "PrivateIPv4Address subnet = Some addr"
  shows "Invalid (Child (Index fp i) ''privateIPv4Address'') (SubnetValue subnet)
           ''privateIPv4Address is not a valid IPv4 address''
         \<in> set (subnetPrivateIPv4Check fp lb i subnet resolved)
     \<longleftrightarrow> ParseIP addr = [] \<or> To4 (ParseIP addr) = []"
  using assms
  by (simp add: subnetPrivateIPv4Check_def Let_def Invalid_eq_iff split: option.split prod.split)

lemma privateInvalidCIDR_iff:
  assumes "PrivateIPv4Address subnet = Some addr"
  shows "Invalid (Child (Index fp i) ''privateIPv4Address'') (SubnetValue subnet)
           ''privateIPv4Address is not part of the subnet CIDR''
         \<in> set (subnetPrivateIPv4Check fp lb i subnet resolved)
     \<longleftrightarrow> ParseIP addr \<noteq> [] \<and> To4 (ParseIP addr) \<noteq> []
          \<and> (\<exists>cs cidrIP ipNet. resolved = Some cs \<and> ParseCIDR (CIDR cs) = Some (cidrIP, ipNet)
                \<and> \<not> Contains ipNet (ParseIP addr))"
proof (cases resolved)
  case None
  then show ?thesis
    using assms by (simp add: subnetPrivateIPv4Check_def Let_def Invalid_eq_iff)
next
  case (Some cs)
  show ?thesis
  proof (cases "ParseCIDR (CIDR cs)")
    case None
    then show ?thesis
      using assms Some by (simp add: subnetPrivateIPv4Check_def Let_def Invalid_eq_iff)
  next
    case (Some pr)
    obtain cidrIP ipNet where pr: "pr = (cidrIP, ipNet)" by (cases pr)
    show ?thesis
      using assms \<open>resolved = Some cs\<close> Some pr
      by (simp add: subnetPrivateIPv4Check_def Let_def Invalid_eq_iff)
  qed
qed

lemma private_not_in_allocation:
  "Required (Child (Index fp i) ''privateIPv4Address'') ''privateIPv4Address can't be empty''
     \<notin> set (subnetAllocationIDCheck fp lb i subnet)"
  "Invalid p v d \<notin> set (subnetAllocationIDCheck fp lb i subnet)"
  by (simp_all add: subnetAllocationIDCheck_def Required_eq_iff split: option.split)

subsection \<open>IPv4 literals\<close>

text \<open>
  The parser of dotted-decimal addresses accepts exactly the IPv4 literals and reads
  their octets; \<^verbatim>\<open>net.ParseIP\<close> hands a string without a colon to that parser or
  rejects it. The loop is compared with the pieces between the dots: at each point the
  digits \<open>ds\<close> of the current octet have been read, and the loop accepts the rest
  exactly when \<open>ds\<close> with the first piece of the rest, and the other pieces, are the
  octets that are still expected.
\<close>

lemma digit_iff:
  "(48 \<le> (of_char c :: nat) \<and> (of_char c :: nat) \<le> 57) \<longleftrightarrow> isDecimalDigit c"
proof
  assume r: "48 \<le> (of_char c :: nat) \<and> (of_char c :: nat) \<le> 57"
  define n where "n = (of_char c :: nat)"
  have c: "c = char_of n" by (simp add: n_def)
  from r have "n = 48 \<or> n = 49 \<or> n = 50 \<or> n = 51 \<or> n = 52 \<or> n = 53 \<or> n = 54 \<or> n = 55
      \<or> n = 56 \<or> n = 57"
    unfolding n_def by arith
  then show "isDecimalDigit c"
    unfolding c by (elim disjE; hypsubst; code_simp)
next
  assume "isDecimalDigit c"
  then show "48 \<le> (of_char c :: nat) \<and> (of_char c :: nat) \<le> 57"
    by (auto simp: isDecimalDigit_def)
qed

lemma digit_int:
  assumes "isDecimalDigit c"
  shows "0 \<le> (of_char c :: int) - 48 \<and> (of_char c :: int) - 48 \<le> 9"
  using assms by (auto simp: isDecimalDigit_def)

lemma digit_zero:
  assumes "isDecimalDigit c" and "(of_char c :: int) - 48 = 0"
  shows "c = CHR ''0''"
  using assms by (auto simp: isDecimalDigit_def)

lemma digit_not_dot: "isDecimalDigit c \<Longrightarrow> c \<noteq> CHR ''.'' \<and> c \<noteq> CHR '':'' \<and> c \<noteq> CHR ''%''"
  by (auto simp: isDecimalDigit_def)

lemma decimalValue_Nil: "decimalValue [] = 0"
  by (simp add: decimalValue_def)

lemma decimalValue_snoc:
  "decimalValue (ds @ [c]) = decimalValue ds * 10 + (of_char c - 48)"
  by (simp add: decimalValue_def)

lemma decimal_foldl_mono:
  assumes "list_all isDecimalDigit t" and "0 \<le> n"
  shows "n \<le> foldl (\<lambda>n c. n * 10 + (of_char c - 48)) (n :: int) t"
  using assms
proof (induction t arbitrary: n)
  case Nil
  then show ?case by simp
next
  case (Cons c t)
  from Cons.prems have d: "isDecimalDigit c" and t: "list_all isDecimalDigit t"
    by simp_all
  from digit_int [OF d] Cons.prems(2) have n1: "n \<le> n * 10 + (of_char c - 48)" by arith
  with Cons.prems(2) have "0 \<le> n * 10 + (of_char c - 48)" by arith
  from Cons.IH [OF t this] n1 show ?case by simp
qed

lemma decimalValue_nonneg:
  assumes "list_all isDecimalDigit t"
  shows "0 \<le> decimalValue t"
  using decimal_foldl_mono [OF assms, of 0] by (simp add: decimalValue_def)

lemma decimalValue_append_mono:
  assumes "list_all isDecimalDigit (x @ t)"
  shows "decimalValue x \<le> decimalValue (x @ t)"
proof -
  from assms have x: "list_all isDecimalDigit x"
    and t: "list_all isDecimalDigit t" by simp_all
  from decimal_foldl_mono [OF t decimalValue_nonneg [OF x]]
  show ?thesis by (simp add: decimalValue_def)
qed

lemma Split_Cons_other:
  assumes "c \<noteq> sep"
  shows "Split (c # s) sep = (c # hd (Split s sep)) # tl (Split s sep)"
  using assms Split_not_Nil [of s sep] by (cases "Split s sep") auto

lemma update_last4:
  assumes "length (flds :: 'a list) = 4"
  shows "flds[3 := x] = take 3 flds @ [x]"
proof -
  from assms obtain a b c d where "flds = [a, b, c, d]"
    by (cases flds; cases "tl flds"; cases "tl (tl flds)"; cases "tl (tl (tl flds))") auto
  then show ?thesis by simp
qed

lemma take_Suc_update:
  assumes "pos < length (flds :: 'a list)"
  shows "take (Suc pos) (flds[pos := x]) = take pos flds @ [x]"
  using assms by (simp add: take_Suc_conv_app_nth)

lemma parseIPv4Fields_loop_spec:
  assumes "list_all isDecimalDigit ds" and "digLen = length ds" and "val = decimalValue ds"
    and "val \<le> 255" and "1 < length ds \<longrightarrow> hd ds \<noteq> CHR ''0''"
    and "pos \<le> 3" and "length flds = 4"
    and "ds = [] \<longleftrightarrow> (prev = None \<or> prev = Some CHR ''.'')"
    and "prev = None \<longrightarrow> pos = 0"
    and "prev = Some CHR ''.'' \<longrightarrow> r \<noteq> []"
  shows "parseIPv4Fields_loop r prev val pos digLen flds =
           (if length (Split r CHR ''.'') = 4 - pos
               \<and> list_all isDecimalOctet ((ds @ hd (Split r CHR ''.'')) # tl (Split r CHR ''.''))
            then Some (take pos flds
                       @ map (\<lambda>t. of_int (decimalValue t))
                           ((ds @ hd (Split r CHR ''.'')) # tl (Split r CHR ''.'')))
            else None)"
  using assms
proof (induction r arbitrary: ds digLen val pos flds prev)
  case Nil
  show ?case
  proof (cases "pos < 3")
    case True
    then have "Suc 0 \<noteq> 4 - pos" by arith
    with True show ?thesis by simp
  next
    case False
    with Nil.prems have pos: "pos = 3" by simp
    with Nil.prems have "ds \<noteq> []" by auto
    with Nil.prems have oct: "isDecimalOctet ds" by (simp add: isDecimalOctet_def)
    from pos oct Nil.prems(3) update_last4 [OF Nil.prems(7)] show ?thesis by simp
  qed
next
  case (Cons c rest)
  let ?ps = "Split rest CHR ''.''"
  have psne: "?ps \<noteq> []" by (rule Split_not_Nil)
  then have lps: "Suc (length ?ps - Suc 0) = length ?ps" by (cases ?ps) auto
  show ?case
  proof (cases "isDecimalDigit c")
    case True
    then have rng: "48 \<le> (of_char c :: nat) \<and> (of_char c :: nat) \<le> 57" by (simp add: digit_iff)
    from True have nd: "c \<noteq> CHR ''.''" using digit_not_dot by blast
    have sp: "Split (c # rest) CHR ''.'' = (c # hd ?ps) # tl ?ps"
      using nd by (rule Split_Cons_other)
    have ap: "ds @ c # hd ?ps = (ds @ [c]) @ hd ?ps" by simp
    show ?thesis
    proof (cases "digLen = 1 \<and> val = 0")
      case z: True
      with Cons.prems obtain d where ds: "ds = [d]" by (cases ds) auto
      with z Cons.prems have "isDecimalDigit d" and "(of_char d :: int) - 48 = 0"
        by (simp_all add: decimalValue_def)
      then have "d = CHR ''0''" by (rule digit_zero)
      with ds have "\<not> isDecimalOctet (ds @ c # hd ?ps)" by (simp add: isDecimalOctet_def)
      then show ?thesis
        unfolding sp using z rng by simp
    next
      case nz: False
      let ?v = "val * 10 + (of_char c - 48)"
      have v: "?v = decimalValue (ds @ [c])"
        using Cons.prems(3) by (simp add: decimalValue_snoc)
      show ?thesis
      proof (cases "255 < ?v")
        case big: True
        have "\<not> isDecimalOctet ((ds @ [c]) @ hd ?ps)"
        proof
          assume o: "isDecimalOctet ((ds @ [c]) @ hd ?ps)"
          then have "list_all isDecimalDigit ((ds @ [c]) @ hd ?ps)"
            and le: "decimalValue ((ds @ [c]) @ hd ?ps) \<le> 255"
            by (simp_all add: isDecimalOctet_def)
          from decimalValue_append_mono [OF this(1)] le v big show False by simp
        qed
        then show ?thesis
          unfolding sp using nz rng big by (auto simp: Let_def)
      next
        case small: False
        have l: "1 < length (ds @ [c]) \<longrightarrow> hd (ds @ [c]) \<noteq> CHR ''0''"
        proof
          assume "1 < length (ds @ [c])"
          then have ne: "ds \<noteq> []" by auto
          show "hd (ds @ [c]) \<noteq> CHR ''0''"
          proof (cases "1 < length ds")
            case True
            with Cons.prems(5) ne show ?thesis by simp
          next
            case False
            with ne obtain d where ds: "ds = [d]" by (cases ds) auto
            with nz Cons.prems have "val \<noteq> 0" by simp
            with ds Cons.prems(3) have "d \<noteq> CHR ''0''" by (auto simp: decimalValue_def)
            with ds show ?thesis by simp
          qed
        qed
        have ih: "parseIPv4Fields_loop rest (Some c) ?v pos (Suc digLen) flds =
           (if length ?ps = 4 - pos
               \<and> list_all isDecimalOctet (((ds @ [c]) @ hd ?ps) # tl ?ps)
            then Some (take pos flds
                       @ map (\<lambda>t. of_int (decimalValue t)) (((ds @ [c]) @ hd ?ps) # tl ?ps))
            else None)"
        proof (rule Cons.IH)
          show "list_all isDecimalDigit (ds @ [c])" using Cons.prems(1) True by simp
          show "Suc digLen = length (ds @ [c])" using Cons.prems(2) by simp
          show "?v = decimalValue (ds @ [c])" by (rule v)
          show "?v \<le> 255" using small by simp
          show "1 < length (ds @ [c]) \<longrightarrow> hd (ds @ [c]) \<noteq> CHR ''0''" by (rule l)
          show "pos \<le> 3" by (rule Cons.prems(6))
          show "length flds = 4" by (rule Cons.prems(7))
          show "(ds @ [c] = []) = (Some c = None \<or> Some c = Some CHR ''.'')" using nd by simp
          show "Some c = None \<longrightarrow> pos = 0" by simp
          show "Some c = Some CHR ''.'' \<longrightarrow> rest \<noteq> []" using nd by simp
        qed
        have "parseIPv4Fields_loop (c # rest) prev val pos digLen flds
            = parseIPv4Fields_loop rest (Some c) ?v pos (Suc digLen) flds"
          using rng nz small by (auto simp: Let_def)
        then show ?thesis
          unfolding ih sp using lps by simp
      qed
    qed
  next
    case False
    then have nrng: "\<not> (48 \<le> (of_char c :: nat) \<and> (of_char c :: nat) \<le> 57)"
      by (simp add: digit_iff)
    show ?thesis
    proof (cases "c = CHR ''.''")
      case nd: False
      have sp: "Split (c # rest) CHR ''.'' = (c # hd ?ps) # tl ?ps"
        using nd by (rule Split_Cons_other)
      have "\<not> isDecimalOctet (ds @ c # hd ?ps)"
        using False by (simp add: isDecimalOctet_def)
      then show ?thesis
        unfolding sp using nrng nd by auto
    next
      case dot: True
      have sp: "Split (c # rest) CHR ''.'' = [] # ?ps" using dot by simp
      show ?thesis
      proof (cases "prev = None \<or> rest = [] \<or> prev = Some CHR ''.''")
        case rej: True
        have "\<not> (isDecimalOctet ds \<and> list_all isDecimalOctet ?ps)"
        proof (cases "rest = []")
          case True
          then show ?thesis by (simp add: isDecimalOctet_def)
        next
          case False
          with rej Cons.prems(8) have "ds = []" by blast
          then show ?thesis by (simp add: isDecimalOctet_def)
        qed
        then show ?thesis
          unfolding sp using rej nrng dot by auto
      next
        case acc: False
        then have ne: "ds \<noteq> []" and rne: "rest \<noteq> []" using Cons.prems(8) by auto
        from ne Cons.prems have oct: "isDecimalOctet ds" by (simp add: isDecimalOctet_def)
        show ?thesis
        proof (cases "pos = 3")
          case True
          with psne have "length ([] # ?ps) \<noteq> 4 - pos" by simp
          then show ?thesis
            unfolding sp using acc nrng dot True by auto
        next
          case False
          with Cons.prems(6) have p3: "pos < 3" by simp
          have ih: "parseIPv4Fields_loop rest (Some c) 0 (Suc pos) 0 (flds[pos := of_int val]) =
             (if length ?ps = 4 - Suc pos
                 \<and> list_all isDecimalOctet (([] @ hd ?ps) # tl ?ps)
              then Some (take (Suc pos) (flds[pos := of_int val])
                         @ map (\<lambda>t. of_int (decimalValue t)) (([] @ hd ?ps) # tl ?ps))
              else None)"
          proof (rule Cons.IH)
            show "list_all isDecimalDigit []" by simp
            show "0 = length ([] :: string)" by simp
            show "0 = decimalValue []" by (simp add: decimalValue_Nil)
            show "(0 :: int) \<le> 255" by simp
            show "1 < length ([] :: string) \<longrightarrow> hd [] \<noteq> CHR ''0''" by simp
            show "Suc pos \<le> 3" using p3 by simp
            show "length (flds[pos := of_int val]) = 4" using Cons.prems(7) by simp
            show "(([] :: string) = []) = (Some c = None \<or> Some c = Some CHR ''.'')" using dot by simp
            show "Some c = None \<longrightarrow> Suc pos = 0" by simp
            show "Some c = Some CHR ''.'' \<longrightarrow> rest \<noteq> []" using rne by simp
          qed
          have hdtl: "hd ?ps # tl ?ps = ?ps" using psne by simp
          have tk: "take (Suc pos) (flds[pos := of_int val]) = take pos flds @ [of_int val]"
            using p3 Cons.prems(7) by (simp add: take_Suc_update)
          have lp: "parseIPv4Fields_loop (c # rest) prev val pos digLen flds
              = parseIPv4Fields_loop rest (Some c) 0 (Suc pos) 0 (flds[pos := of_int val])"
            using acc nrng dot False by auto
          have len: "(length ([] # ?ps) = 4 - pos) = (length ?ps = 4 - Suc pos)"
            using p3 by auto
          show ?thesis
            unfolding lp ih sp using hdtl tk len oct Cons.prems(3) by simp
        qed
      qed
    qed
  qed
qed

lemma parseIPv4Fields_spec:
  assumes "length flds = 4"
  shows "parseIPv4Fields s flds = (if isIPv4Literal s then Some (ipv4LiteralOctets s) else None)"
proof -
  have ne: "Split s CHR ''.'' \<noteq> []" by (rule Split_not_Nil)
  have "parseIPv4Fields_loop s None 0 0 0 flds =
           (if length (Split s CHR ''.'') = 4 - 0
               \<and> list_all isDecimalOctet (([] @ hd (Split s CHR ''.'')) # tl (Split s CHR ''.''))
            then Some (take 0 flds
                       @ map (\<lambda>t. of_int (decimalValue t))
                           (([] @ hd (Split s CHR ''.'')) # tl (Split s CHR ''.'')))
            else None)"
    by (rule parseIPv4Fields_loop_spec) (simp_all add: decimalValue_Nil assms)
  with ne show ?thesis
    by (simp add: parseIPv4Fields_def isIPv4Literal_def ipv4LiteralOctets_def)
qed


lemma Split_chars:
  assumes "c \<in> set s"
  shows "c = sep \<or> (\<exists>t \<in> set (Split s sep). c \<in> set t)"
proof -
  from assms have "c \<in> set (s @ [sep])" by simp
  then have "c \<in> set (concat (map (\<lambda>t. t @ [sep]) (Split s sep)))"
    by (simp only: Split_join)
  then show ?thesis by (auto split: if_splits)
qed

lemma Split_first:
  assumes "1 < length (Split s sep)"
  shows "\<exists>rest. s = hd (Split s sep) @ sep # rest"
  using assms
proof (induction s)
  case Nil
  then show ?case by simp
next
  case (Cons c s)
  show ?case
  proof (cases "c = sep")
    case True
    then show ?thesis by simp
  next
    case False
    have ne: "Split s sep \<noteq> []" by (rule Split_not_Nil)
    from False have sp: "Split (c # s) sep = (c # hd (Split s sep)) # tl (Split s sep)"
      by (rule Split_Cons_other)
    with Cons.prems ne have "1 < length (Split s sep)" by (cases "Split s sep") auto
    from Cons.IH [OF this] obtain rest where "s = hd (Split s sep) @ sep # rest" by blast
    then have "c # s = hd (Split (c # s) sep) @ sep # rest" unfolding sp by simp
    then show ?thesis by blast
  qed
qed

lemma isIPv4Literal_chars:
  assumes "isIPv4Literal s" and "c \<in> set s"
  shows "c = CHR ''.'' \<or> isDecimalDigit c"
proof -
  from Split_chars [OF assms(2), of "CHR ''.''"]
  show ?thesis
  proof
    assume "c = CHR ''.''"
    then show ?thesis by simp
  next
    assume "\<exists>t \<in> set (Split s CHR ''.''). c \<in> set t"
    then obtain t where t: "t \<in> set (Split s CHR ''.'')" and c: "c \<in> set t" by blast
    from assms(1) t have "isDecimalOctet t"
      by (simp add: isIPv4Literal_def list_all_iff)
    with c have "isDecimalDigit c" by (simp add: isDecimalOctet_def list_all_iff)
    then show ?thesis by simp
  qed
qed

lemma isIPv4Literal_no_colon:
  assumes "isIPv4Literal s"
  shows "CHR '':'' \<notin> set s"
proof
  assume "CHR '':'' \<in> set s"
  from isIPv4Literal_chars [OF assms this] show False
    by (simp add: isDecimalDigit_def)
qed

lemma ParseAddr_scan_digits:
  assumes "list_all isDecimalDigit ds"
  shows "ParseAddr_scan (ds @ CHR ''.'' # rest) s = parseIPv4 s"
  using assms
proof (induction ds)
  case Nil
  show ?case by simp
next
  case (Cons d ds)
  then have "isDecimalDigit d" by simp
  from digit_not_dot [OF this] Cons show ?case by simp
qed

lemma ParseAddr_scan_no_colon:
  assumes "CHR '':'' \<notin> set cs"
  shows "ParseAddr_scan cs s = None \<or> ParseAddr_scan cs s = parseIPv4 s"
  using assms by (induction cs) auto

lemma parseIPv4_spec:
  "parseIPv4 s = (if isIPv4Literal s then Some (AddrFrom4 (ipv4LiteralOctets s)) else None)"
  by (simp add: parseIPv4_def parseIPv4Fields_spec)

lemma ParseAddr_literal:
  assumes "isIPv4Literal s"
  shows "ParseAddr s = Some (AddrFrom4 (ipv4LiteralOctets s))"
proof -
  from assms have l: "1 < length (Split s CHR ''.'')"
    and o: "list_all isDecimalOctet (Split s CHR ''.'')"
    by (simp_all add: isIPv4Literal_def)
  from Split_first [OF l] obtain rest where s: "s = hd (Split s CHR ''.'') @ CHR ''.'' # rest"
    by blast
  have "hd (Split s CHR ''.'') \<in> set (Split s CHR ''.'')"
    using Split_not_Nil [of s "CHR ''.''"] by simp
  with o have "isDecimalOctet (hd (Split s CHR ''.''))" by (simp add: list_all_iff)
  then have d: "list_all isDecimalDigit (hd (Split s CHR ''.''))" by (simp add: isDecimalOctet_def)
  have "ParseAddr_scan (hd (Split s CHR ''.'') @ CHR ''.'' # rest) s = parseIPv4 s"
    using d by (rule ParseAddr_scan_digits)
  with s have "ParseAddr s = parseIPv4 s" by (simp add: ParseAddr_def)
  with assms show ?thesis by (simp add: parseIPv4_spec)
qed

lemma ipv4LiteralOctets_length:
  assumes "isIPv4Literal s"
  shows "length (ipv4LiteralOctets s) = 4"
  using assms by (simp add: isIPv4Literal_def ipv4LiteralOctets_def)

lemma To4_v4InV6: "length xs = 4 \<Longrightarrow> To4 (v4InV6Prefix @ xs) = xs"
  by (simp add: To4_def v4InV6Prefix_def)

lemma ParseIP_literal:
  assumes "isIPv4Literal s"
  shows "ParseIP s = v4InV6Prefix @ ipv4LiteralOctets s"
  using ParseAddr_literal [OF assms] by (simp add: ParseIP_def AddrFrom4_def)

lemma ParseIP_no_colon:
  assumes "CHR '':'' \<notin> set s" and "\<not> isIPv4Literal s"
  shows "ParseIP s = []"
proof -
  from ParseAddr_scan_no_colon [OF assms(1), of s]
  have "ParseAddr s = None \<or> ParseAddr s = parseIPv4 s" by (simp add: ParseAddr_def)
  with assms(2) have "ParseAddr s = None" by (auto simp: parseIPv4_spec)
  then show ?thesis by (simp add: ParseIP_def)
qed

lemma To4_Nil: "To4 [] = []"
  by (simp add: To4_def)

lemma ParseIP_accepts_iff:
  "ParseIP s = [] \<or> To4 (ParseIP s) = [] \<longleftrightarrow> \<not> isIPv4Literal s \<and> \<not> isIPv4MappedIPv6Literal s"
proof (cases "isIPv4Literal s")
  case True
  have l: "length (ipv4LiteralOctets s) = 4" by (rule ipv4LiteralOctets_length [OF True])
  have p: "ParseIP s = v4InV6Prefix @ ipv4LiteralOctets s" by (rule ParseIP_literal [OF True])
  have "To4 (ParseIP s) = ipv4LiteralOctets s" unfolding p by (rule To4_v4InV6 [OF l])
  with l have "To4 (ParseIP s) \<noteq> []" by auto
  moreover from p have "ParseIP s \<noteq> []" by (simp add: v4InV6Prefix_def)
  ultimately show ?thesis using True by simp
next
  case False
  show ?thesis
  proof (cases "CHR '':'' \<in> set s")
    case True
    with False show ?thesis
      using To4_Nil by (auto simp: isIPv4MappedIPv6Literal_def)
  next
    case nc: False
    from ParseIP_no_colon [OF nc False] nc False show ?thesis
      by (simp add: isIPv4MappedIPv6Literal_def)
  qed
qed

lemma Split_no_sep:
  assumes "sep \<notin> set t"
  shows "Split t sep = [t]"
  using assms by (induction t) auto

lemma Split_append_sep:
  assumes "sep \<notin> set t"
  shows "Split (t @ sep # r) sep = t # Split r sep"
  using assms by (induction t) auto

lemma isDecimalOctet_no_dot:
  assumes "isDecimalOctet t"
  shows "CHR ''.'' \<notin> set t"
proof
  assume "CHR ''.'' \<in> set t"
  with assms have "isDecimalDigit CHR ''.''" by (simp add: isDecimalOctet_def list_all_iff)
  then show False by (simp add: isDecimalDigit_def)
qed

lemma isIPv4Literal_iff:
  "isIPv4Literal s \<longleftrightarrow>
     (\<exists>a b c d. s = a @ CHR ''.'' # b @ CHR ''.'' # c @ CHR ''.'' # d
        \<and> isDecimalOctet a \<and> isDecimalOctet b \<and> isDecimalOctet c \<and> isDecimalOctet d)"
proof
  assume l: "isIPv4Literal s"
  then have "length (Split s CHR ''.'') = 4" by (simp add: isIPv4Literal_def)
  then obtain a b c d where sp: "Split s CHR ''.'' = [a, b, c, d]"
    by (cases "Split s CHR ''.''"; cases "tl (Split s CHR ''.'')";
        cases "tl (tl (Split s CHR ''.''))"; cases "tl (tl (tl (Split s CHR ''.'')))") auto
  from Split_join [of "CHR ''.''" s] have "s = a @ CHR ''.'' # b @ CHR ''.'' # c @ CHR ''.'' # d"
    unfolding sp by simp
  moreover from l sp have "isDecimalOctet a \<and> isDecimalOctet b \<and> isDecimalOctet c \<and> isDecimalOctet d"
    by (simp add: isIPv4Literal_def)
  ultimately show "\<exists>a b c d. s = a @ CHR ''.'' # b @ CHR ''.'' # c @ CHR ''.'' # d
        \<and> isDecimalOctet a \<and> isDecimalOctet b \<and> isDecimalOctet c \<and> isDecimalOctet d"
    by blast
next
  assume "\<exists>a b c d. s = a @ CHR ''.'' # b @ CHR ''.'' # c @ CHR ''.'' # d
        \<and> isDecimalOctet a \<and> isDecimalOctet b \<and> isDecimalOctet c \<and> isDecimalOctet d"
  then obtain a b c d where s: "s = a @ CHR ''.'' # b @ CHR ''.'' # c @ CHR ''.'' # d"
    and o: "isDecimalOctet a" "isDecimalOctet b" "isDecimalOctet c" "isDecimalOctet d"
    by blast
  have "Split s CHR ''.'' = [a, b, c, d]"
    unfolding s
    by (simp add: Split_append_sep Split_no_sep isDecimalOctet_no_dot o del: Split.simps)
  with o show "isIPv4Literal s" by (simp add: isIPv4Literal_def)
qed

subsection \<open>IPv4-mapped IPv6 literals\<close>

text \<open>
  The parser of IPv6 addresses reads \<open>::ffff:\<close> followed by an IPv4 literal as the
  address of the literal: a decimal octet has at most three digits, which the parser
  reads as a group of hexadecimal digits before it meets the dot, and the ellipsis
  then moves the two bytes \<open>ff\<close> and the four octets to the end of the address.
\<close>

lemma decimalValue_lower:
  assumes "list_all isDecimalDigit ds" and "ds \<noteq> []" and "hd ds \<noteq> CHR ''0''"
  shows "10 ^ (length ds - 1) \<le> decimalValue ds"
  using assms
proof (induction ds rule: rev_induct)
  case Nil
  then show ?case by simp
next
  case (snoc c xs)
  from snoc.prems have d: "isDecimalDigit c" and dx: "list_all isDecimalDigit xs" by simp_all
  show ?case
  proof (cases "xs = []")
    case True
    with snoc.prems have "c \<noteq> CHR ''0''" by simp
    with d digit_zero [of c] digit_int [OF d] have "1 \<le> (of_char c :: int) - 48" by force
    with True show ?thesis by (simp add: decimalValue_def)
  next
    case False
    with snoc.prems have "hd xs \<noteq> CHR ''0''" by simp
    from snoc.IH [OF dx False this] have ih: "10 ^ (length xs - 1) \<le> decimalValue xs" .
    from False have l: "length (xs @ [c]) - 1 = Suc (length xs - 1)" by (cases xs) auto
    from digit_int [OF d] ih show ?thesis
      unfolding l decimalValue_snoc by simp
  qed
qed

lemma isDecimalOctet_length:
  assumes "isDecimalOctet t"
  shows "length t \<le> 3"
proof (rule ccontr)
  assume "\<not> length t \<le> 3"
  then have l: "3 \<le> length t - 1" and l1: "1 < length t" by simp_all
  from assms l1 have d: "list_all isDecimalDigit t" and ne: "t \<noteq> []" and z: "hd t \<noteq> CHR ''0''"
    and v: "decimalValue t \<le> 255"
    by (simp_all add: isDecimalOctet_def)
  have "(10 :: int) ^ 3 \<le> 10 ^ (length t - 1)"
    using l by (intro power_increasing) simp_all
  with decimalValue_lower [OF d ne z] v show False by simp
qed

lemma hexField_digits:
  assumes "list_all isDecimalDigit ds" and "off + length ds \<le> 4"
    and "0 \<le> acc" and "acc < 16 ^ off"
    and "c = CHR ''.'' \<or> c = CHR '':''"
  shows "\<exists>v. hexField (ds @ c # r) off acc = Some (off + length ds, v)"
  using assms
proof (induction ds arbitrary: off acc)
  case Nil
  then show ?case by auto
next
  case (Cons d ds)
  from Cons.prems have dg: "isDecimalDigit d" and ds: "list_all isDecimalDigit ds" by simp_all
  from dg have rng: "48 \<le> (of_char d :: int) \<and> (of_char d :: int) \<le> 57"
    using digit_int [OF dg] by simp
  let ?a = "acc * 16 + (of_char d - 48)"
  from rng Cons.prems have a0: "0 \<le> ?a" by simp
  from rng Cons.prems(4) have "acc + 1 \<le> 16 ^ off" by simp
  then have "(acc + 1) * 16 \<le> 16 ^ off * 16" by simp
  with rng have a1: "?a < 16 ^ Suc off" by simp
  from Cons.prems(2) have o3: "\<not> 3 < off" and o4: "Suc off \<le> 4" by simp_all
  have "(16 :: int) ^ Suc off \<le> 16 ^ 4" using o4 by (intro power_increasing) simp_all
  with a1 have a2: "\<not> 0xFFFF < ?a" by simp
  from Cons.prems(2) have "Suc off + length ds \<le> 4" by simp
  from Cons.IH [OF ds this a0 a1 Cons.prems(5)]
  obtain v where "hexField (ds @ c # r) (Suc off) ?a = Some (Suc off + length ds, v)" by blast
  with rng o3 a2 show ?case by (simp add: Let_def)
qed


lemma expandEllipsis_mapped:
  "expandEllipsis 0 6 ([0xff, 0xff, a, b, c, d] @ replicate 10 0) = v4InV6Prefix @ [a, b, c, d]"
  by (simp add: expandEllipsis_def v4InV6Prefix_def upt_rec numeral_eq_Suc)

lemma isIPv4Literal_first:
  assumes "isIPv4Literal t"
  shows "\<exists>a rest. t = a @ CHR ''.'' # rest \<and> a \<noteq> [] \<and> list_all isDecimalDigit a \<and> length a \<le> 3"
proof -
  from assms have l: "1 < length (Split t CHR ''.'')"
    and o: "list_all isDecimalOctet (Split t CHR ''.'')"
    by (simp_all add: isIPv4Literal_def)
  from Split_first [OF l] obtain rest where s: "t = hd (Split t CHR ''.'') @ CHR ''.'' # rest"
    by blast
  have "hd (Split t CHR ''.'') \<in> set (Split t CHR ''.'')"
    using Split_not_Nil [of t "CHR ''.''"] by simp
  with o have oc: "isDecimalOctet (hd (Split t CHR ''.''))" by (simp add: list_all_iff)
  then have "hd (Split t CHR ''.'') \<noteq> []" and "list_all isDecimalDigit (hd (Split t CHR ''.''))"
    by (simp_all add: isDecimalOctet_def)
  with s isDecimalOctet_length [OF oc] show ?thesis by blast
qed

lemma parseIPv6_loop_embedded:
  assumes "isIPv4Literal t" and "length ip = 16"
  shows "parseIPv6_loop t 2 (Some 0) ip
           = Some ([], 6, Some 0, take 2 ip @ ipv4LiteralOctets t @ drop 6 ip)"
proof -
  from isIPv4Literal_first [OF assms(1)]
  obtain a rest where t: "t = a @ CHR ''.'' # rest" and ne: "a \<noteq> []"
    and dg: "list_all isDecimalDigit a" and la: "length a \<le> 3" by blast
  have "\<exists>v. hexField (a @ CHR ''.'' # rest) 0 0 = Some (0 + length a, v)"
    by (rule hexField_digits) (use dg la in simp_all)
  then obtain v where h: "hexField t 0 0 = Some (length a, v)" unfolding t by auto
  have dot: "length a < length t \<and> t ! length a = CHR ''.''"
    unfolding t by (simp add: nth_append)
  have f: "parseIPv4Fields t (take 4 (drop 2 ip)) = Some (ipv4LiteralOctets t)"
    using assms by (simp add: parseIPv4Fields_spec)
  show ?thesis
    using h ne dot f by (simp add: parseIPv6_loop.simps [of t 2])
qed

lemma parseIPv6_mapped:
  assumes "isIPv4Literal t"
  shows "parseIPv6 (''::ffff:'' @ t) = Some (AddrFrom16 (v4InV6Prefix @ ipv4LiteralOctets t))"
proof -
  from isIPv4Literal_first [OF assms]
  obtain a rest where t: "t = a @ CHR ''.'' # rest" and ne: "a \<noteq> []"
    and dg: "list_all isDecimalDigit a" by blast
  from ne dg have "isDecimalDigit (hd a)" by (cases a) auto
  from digit_not_dot [OF this] ne have hd: "hd t \<noteq> CHR '':''" unfolding t by simp
  from t have tne: "t \<noteq> []" by simp
  have np: "CHR ''%'' \<notin> set t"
  proof
    assume "CHR ''%'' \<in> set t"
    from isIPv4Literal_chars [OF assms this] show False by (simp add: isDecimalDigit_def)
  qed
  then have tw: "takeWhile (\<lambda>c. c \<noteq> CHR ''%'') (''::ffff:'' @ t) = ''::ffff:'' @ t"
    by auto
  let ?ip1 = "[0xff, 0xff, 0, 0, 0, 0, 0, 0, 0, 0, 0, 0, 0, 0, 0, 0 :: byte]"
  obtain o0 o1 o2 o3 where oc: "ipv4LiteralOctets t = [o0, o1, o2, o3]"
    using ipv4LiteralOctets_length [OF assms]
    by (cases "ipv4LiteralOctets t"; cases "tl (ipv4LiteralOctets t)";
        cases "tl (tl (ipv4LiteralOctets t))"; cases "tl (tl (tl (ipv4LiteralOctets t)))") auto
  have l2: "parseIPv6_loop t 2 (Some 0) ?ip1
           = Some ([], 6, Some 0, take 2 ?ip1 @ ipv4LiteralOctets t @ drop 6 ?ip1)"
    by (rule parseIPv6_loop_embedded [OF assms]) simp
  have hx: "hexField (''ffff:'' @ t) 0 0 = Some (4, 0xffff)"
    by (simp add: Let_def)
  have w: "(65535 :: byte) = 255" by simp
  have l1: "parseIPv6_loop (''ffff:'' @ t) 0 (Some 0) (replicate 16 0)
           = Some ([], 6, Some 0, [0xff, 0xff, o0, o1, o2, o3] @ replicate 10 0)"
    using hx tne hd l2 oc
    by (subst parseIPv6_loop.simps) (simp add: Let_def numeral_eq_Suc w)
  have ex: "expandEllipsis 0 6 ([0xff, 0xff, o0, o1, o2, o3] @ replicate 10 0)
      = v4InV6Prefix @ ipv4LiteralOctets t"
    unfolding oc by (rule expandEllipsis_mapped)
  show ?thesis
    unfolding parseIPv6_def tw using np l1 ex
    by (simp add: Let_def AddrFrom16_def del: replicate.simps)
qed

lemma ParseIP_mapped:
  assumes "isIPv4Literal t"
  shows "ParseIP (''::ffff:'' @ t) = v4InV6Prefix @ ipv4LiteralOctets t"
  using parseIPv6_mapped [OF assms]
  by (simp add: ParseIP_def ParseAddr_def AddrFrom16_def)

lemma isIPv4MappedIPv6Literal_prefix:
  assumes "isIPv4Literal t"
  shows "isIPv4MappedIPv6Literal (''::ffff:'' @ t) \<and> \<not> isIPv4Literal (''::ffff:'' @ t)
         \<and> ParseIP (''::ffff:'' @ t) = ParseIP t"
proof -
  have l: "length (ipv4LiteralOctets t) = 4" by (rule ipv4LiteralOctets_length [OF assms])
  have "To4 (ParseIP (''::ffff:'' @ t)) = ipv4LiteralOctets t"
    unfolding ParseIP_mapped [OF assms] by (rule To4_v4InV6 [OF l])
  with l have "To4 (ParseIP (''::ffff:'' @ t)) \<noteq> []" by auto
  then have m: "isIPv4MappedIPv6Literal (''::ffff:'' @ t)"
    by (simp add: isIPv4MappedIPv6Literal_def)
  have n: "\<not> isIPv4Literal (''::ffff:'' @ t)"
    using isIPv4Literal_no_colon [of "''::ffff:'' @ t"] by auto
  from m n ParseIP_mapped [OF assms] ParseIP_literal [OF assms] show ?thesis by simp
qed

subsection \<open>IPv4 CIDR blocks\<close>

text \<open>
  \<^verbatim>\<open>net.ParseCIDR\<close> reads an IPv4 CIDR block as its address and the mask of its
  prefix length, and the network it returns contains the address of an IPv4 literal
  exactly when the literal agrees with the address of the block on the bits of the
  prefix.
\<close>

lemma dtoi_loop_decimal:
  assumes "list_all isDecimalDigit s" and "0 \<le> n"
    and "foldl (\<lambda>n c. n * 10 + (of_char c - 48)) n s < big"
  shows "dtoi_loop s n i = (foldl (\<lambda>n c. n * 10 + (of_char c - 48)) n s, i + length s, True)"
  using assms
proof (induction s arbitrary: n i)
  case Nil
  then show ?case by simp
next
  case (Cons c s)
  let ?n1 = "n * 10 + (of_char c - 48)"
  from Cons.prems have d: "isDecimalDigit c" and t: "list_all isDecimalDigit s" by simp_all
  from d have rng: "48 \<le> (of_char c :: nat) \<and> (of_char c :: nat) \<le> 57" by (simp add: digit_iff)
  from digit_int [OF d] Cons.prems(2) have n1: "0 \<le> ?n1" by arith
  from Cons.prems(3) have f: "foldl (\<lambda>n c. n * 10 + (of_char c - 48)) ?n1 s < big" by simp
  from decimal_foldl_mono [OF t n1] f have "\<not> big \<le> ?n1" by simp
  with rng Cons.IH [OF t n1 f, of "Suc i"] show ?case by (simp add: Let_def)
qed

lemma dtoi_decimal:
  assumes "s \<noteq> []" and "list_all isDecimalDigit s" and "decimalValue s < big"
  shows "dtoi s = (decimalValue s, length s, True)"
proof -
  have "dtoi_loop s 0 0 = (decimalValue s, 0 + length s, True)"
    unfolding decimalValue_def
    by (rule dtoi_loop_decimal) (use assms in \<open>simp_all add: decimalValue_def\<close>)
  with assms(1) show ?thesis by (simp add: dtoi_def)
qed

lemma CIDRMask_loop_length: "length (CIDRMask_loop l n) = l"
  by (induction l arbitrary: n) auto

lemma CIDRMask_loop_Suc:
  "CIDRMask_loop (Suc l) n = NOT (drop_bit (min n 8) (0xff :: byte)) # CIDRMask_loop l (n - 8)"
  by (simp add: min_def)

lemma bit_CIDR_byte:
  "bit (NOT (drop_bit k (0xff :: byte))) i \<longleftrightarrow> i < 8 \<and> 8 \<le> k + i"
proof -
  have m: "(0xff :: byte) = mask 8" by (simp add: mask_eq_exp_minus_1)
  show ?thesis
    unfolding m by (auto simp: bit_simps)
qed

lemma byte_masked_eq:
  assumes "k \<le> 8" and m: "m = NOT (drop_bit k (0xff :: byte))"
  shows "((b AND m) AND m = a AND m) \<longleftrightarrow>
           take k (map (bit b) (rev [0..<8])) = take k (map (bit (a :: byte)) (rev [0..<8]))"
proof -
  have l: "((b AND m) AND m = a AND m) \<longleftrightarrow> (\<forall>i. i < 8 \<and> 8 \<le> k + i \<longrightarrow> bit b i = bit a i)"
    unfolding m by (auto simp: bit_eq_iff bit_and_iff bit_CIDR_byte)
  have tk: "take k (rev [0..<8]) = rev [8 - k..<8]"
    using assms by (simp add: take_rev)
  have r: "take k (map (bit b) (rev [0..<8])) = take k (map (bit a) (rev [0..<8]))
      \<longleftrightarrow> (\<forall>i. i < 8 \<and> 8 \<le> k + i \<longrightarrow> bit b i = bit a i)"
    unfolding take_map tk by auto
  from l r show ?thesis by simp
qed

lemma masked_eq_iff:
  assumes "length B = l" and "length A = l"
  shows "(\<forall>i<l. (map (\<lambda>(a, m). a AND m) (zip B (CIDRMask_loop l n)) ! i) AND (CIDRMask_loop l n ! i)
                 = (A ! i) AND (CIDRMask_loop l n ! i))
       \<longleftrightarrow> take n (addressBits B) = take n (addressBits A)"
  using assms
proof (induction l arbitrary: B A n)
  case 0
  then show ?case by (simp add: addressBits_def)
next
  case (Suc l)
  from Suc.prems obtain b B' where B: "B = b # B'" and lB: "length B' = l" by (cases B) auto
  from Suc.prems obtain a A' where A: "A = a # A'" and lA: "length A' = l" by (cases A) auto
  let ?m = "NOT (drop_bit (min n 8) (0xff :: byte))"
  let ?M = "CIDRMask_loop l (n - 8)"
  have lM: "length ?M = l" by (rule CIDRMask_loop_length)
  have byte: "((b AND ?m) AND ?m = a AND ?m) \<longleftrightarrow>
           take (min n 8) (map (bit b) (rev [0..<8])) = take (min n 8) (map (bit a) (rev [0..<8]))"
    by (rule byte_masked_eq) simp_all
  have ih: "(\<forall>i<l. (map (\<lambda>(a, m). a AND m) (zip B' ?M) ! i) AND (?M ! i) = (A' ! i) AND (?M ! i))
       \<longleftrightarrow> take (n - 8) (addressBits B') = take (n - 8) (addressBits A')"
    by (rule Suc.IH [OF lB lA])
  have split: "\<And>P. (\<forall>i<Suc l. P i) \<longleftrightarrow> P 0 \<and> (\<forall>i<l. P (Suc i))"
    by (auto simp: less_Suc_eq_0_disj)
  have tk: "\<And>x xs. take n (addressBits (x # xs))
       = take (min n 8) (map (bit x) (rev [0..<8])) @ take (n - 8) (addressBits xs)"
    by (simp add: addressBits_def min_def)
  have len: "length (take (min n 8) (map (bit b) (rev [0..<8])))
           = length (take (min n 8) (map (bit a) (rev [0..<8])))" by simp
  show ?case
    unfolding B A CIDRMask_loop_Suc split tk
    using byte ih len by (simp del: CIDRMask_loop.simps)
qed


lemma CIDRMask_IPv4: "n \<le> 32 \<Longrightarrow> CIDRMask n 32 = CIDRMask_loop 4 n"
  by (simp add: CIDRMask_def)

lemma IP_Mask_IPv4:
  assumes "length B = 4" and "length M = 4"
  shows "IP_Mask (v4InV6Prefix @ B) M = map (\<lambda>(a, m). a AND m) (zip B M)"
  using assms by (simp add: IP_Mask_def Let_def v4InV6Prefix_def)

lemma ParseCIDR_IPv4:
  assumes "isIPv4CIDR s"
  shows "ParseCIDR s =
           Some (v4InV6Prefix @ ipv4LiteralOctets (cidrBase s),
                 \<lparr>IP = map (\<lambda>(a, m). a AND m)
                         (zip (ipv4LiteralOctets (cidrBase s))
                              (CIDRMask_loop 4 (nat (decimalValue (cidrPrefix s))))),
                  Mask = CIDRMask_loop 4 (nat (decimalValue (cidrPrefix s)))\<rparr>)"
proof -
  let ?B = "ipv4LiteralOctets (cidrBase s)"
  let ?n = "decimalValue (cidrPrefix s)"
  from assms have sl: "CHR ''/'' \<in> set s" and lit: "isIPv4Literal (cidrBase s)"
    and ne: "cidrPrefix s \<noteq> []" and dg: "list_all isDecimalDigit (cidrPrefix s)"
    and le: "?n \<le> 32"
    by (simp_all add: isIPv4CIDR_def)
  have pa: "ParseAddr (takeWhile (\<lambda>c. c \<noteq> CHR ''/'') s) = Some (AddrFrom4 ?B)"
    using ParseAddr_literal [OF lit] by (simp add: cidrBase_def)
  from le have "?n < big" by (simp add: big_def)
  from dtoi_decimal [OF ne dg this]
  have dt: "dtoi (tl (dropWhile (\<lambda>c. c \<noteq> CHR ''/'') s)) = (?n, length (cidrPrefix s), True)"
    by (simp add: cidrPrefix_def)
  have nn: "0 \<le> ?n" by (rule decimalValue_nonneg [OF dg])
  with le have n32: "nat ?n \<le> 32" by simp
  have lB: "length ?B = 4" by (rule ipv4LiteralOctets_length [OF lit])
  have lM: "length (CIDRMask_loop 4 (nat ?n)) = 4" by (rule CIDRMask_loop_length)
  have z: "Zone (AddrFrom4 ?B) = []" "BitLen (AddrFrom4 ?B) = 32"
    "As16 (AddrFrom4 ?B) = v4InV6Prefix @ ?B"
    by (simp_all add: AddrFrom4_def)
  show ?thesis
    unfolding ParseCIDR_def
    using sl pa dt nn le z CIDRMask_IPv4 [OF n32] IP_Mask_IPv4 [OF lB lM]
    by (simp add: Let_def cidrPrefix_def del: CIDRMask_loop.simps)
qed

lemma Contains_IPv4:
  assumes "length N = 4" and "length A = 4" and "length M = 4"
  shows "Contains \<lparr>IP = N, Mask = M\<rparr> (v4InV6Prefix @ A)
     \<longleftrightarrow> (\<forall>i<4. (N ! i) AND (M ! i) = (A ! i) AND (M ! i))"
proof -
  have tn: "To4 N = N" using assms(1) by (simp add: To4_def)
  have ta: "To4 (v4InV6Prefix @ A) = A" by (rule To4_v4InV6 [OF assms(2)])
  from assms have ne: "N \<noteq> []" "A \<noteq> []" by auto
  have nm: "networkNumberAndMask \<lparr>IP = N, Mask = M\<rparr> = (N, M)"
    using assms tn ne by (simp add: networkNumberAndMask_def Let_def)
  show ?thesis
    unfolding Contains_def nm using ta ne assms by (auto simp: Let_def list_all_iff)
qed

lemma Contains_inIPv4CIDR:
  assumes "isIPv4Literal a" and "isIPv4CIDR c" and "ParseCIDR c = Some (cidrIP, ipNet)"
  shows "Contains ipNet (ParseIP a) \<longleftrightarrow> inIPv4CIDR c a"
proof -
  let ?B = "ipv4LiteralOctets (cidrBase c)"
  let ?A = "ipv4LiteralOctets a"
  let ?n = "nat (decimalValue (cidrPrefix c))"
  let ?M = "CIDRMask_loop 4 ?n"
  let ?N = "map (\<lambda>(a, m). a AND m) (zip ?B ?M)"
  from assms(2) have lit: "isIPv4Literal (cidrBase c)" by (simp add: isIPv4CIDR_def)
  have lB: "length ?B = 4" by (rule ipv4LiteralOctets_length [OF lit])
  have lA: "length ?A = 4" by (rule ipv4LiteralOctets_length [OF assms(1)])
  have lM: "length ?M = 4" by (rule CIDRMask_loop_length)
  have lN: "length ?N = 4" using lB lM by simp
  from ParseCIDR_IPv4 [OF assms(2)] assms(3)
  have net: "ipNet = \<lparr>IP = ?N, Mask = ?M\<rparr>" by simp
  have ip: "ParseIP a = v4InV6Prefix @ ?A" by (rule ParseIP_literal [OF assms(1)])
  have "Contains ipNet (ParseIP a) \<longleftrightarrow> (\<forall>i<4. (?N ! i) AND (?M ! i) = (?A ! i) AND (?M ! i))"
    unfolding net ip by (rule Contains_IPv4 [OF lN lA lM])
  also have "\<dots> \<longleftrightarrow> take ?n (addressBits ?B) = take ?n (addressBits ?A)"
    by (rule masked_eq_iff [OF lB lA])
  also have "\<dots> \<longleftrightarrow> inIPv4CIDR c a"
    by (auto simp: inIPv4CIDR_def)
  finally show ?thesis .
qed

subsection \<open>The private address against the specification\<close>

lemma bindingInvalid_iff:
  "Invalid p v d \<in> set (loadBalancerSubnetErrs fp cs lb i subnet)
     \<longleftrightarrow> Invalid p v d
           \<in> set (subnetPrivateIPv4Check fp lb i subnet (snd (subnetNameCheck fp cs i subnet)))"
  unfolding loadBalancerSubnetErrs_parts
  using Invalid_in_nameErrs [of p v d fp cs i subnet]
    private_not_in_allocation(2) [of p v d fp lb i subnet]
  by simp

lemma resolved_first:
  assumes "LoadBalancerSubnetSpec.Name subnet \<noteq> []" and "cs = pre @ c # post"
    and "ClusterSubnetSpec.Name c = LoadBalancerSubnetSpec.Name subnet"
    and "\<forall>x \<in> set pre. ClusterSubnetSpec.Name x \<noteq> LoadBalancerSubnetSpec.Name subnet"
  shows "snd (subnetNameCheck fp cs i subnet) = Some c"
proof -
  have "findClusterSubnet (LoadBalancerSubnetSpec.Name subnet) cs = Some c"
    using assms(2,3,4) by (rule findClusterSubnet_first)
  with assms(1) show ?thesis by (simp add: subnetNameCheck_found)
qed

lemma unresolved:
  assumes "LoadBalancerSubnetSpec.Name subnet = []
           \<or> LoadBalancerSubnetSpec.Name subnet \<notin> ClusterSubnetSpec.Name ` set cs"
  shows "snd (subnetNameCheck fp cs i subnet) = None"
proof (cases "LoadBalancerSubnetSpec.Name subnet = []")
  case True
  then show ?thesis by (simp add: subnetNameCheck_empty)
next
  case False
  with assms show ?thesis by (simp add: subnetNameCheck_missing)
qed

lemma privateInvalidIP_literal:
  assumes "PrivateIPv4Address subnet = Some addr"
  shows "Invalid (Child (Index fp i) ''privateIPv4Address'') (SubnetValue subnet)
           ''privateIPv4Address is not a valid IPv4 address''
         \<in> set (subnetPrivateIPv4Check fp lb i subnet resolved)
     \<longleftrightarrow> \<not> isIPv4Literal addr \<and> \<not> isIPv4MappedIPv6Literal addr"
  unfolding privateInvalidIP_iff [OF assms] by (rule ParseIP_accepts_iff)

lemma privateInvalidCIDR_Contains:
  assumes "PrivateIPv4Address subnet = Some addr"
    and "isIPv4Literal addr \<or> isIPv4MappedIPv6Literal addr"
    and "ParseCIDR (CIDR cs) = Some (cidrIP, ipNet)"
  shows "Invalid (Child (Index fp i) ''privateIPv4Address'') (SubnetValue subnet)
           ''privateIPv4Address is not part of the subnet CIDR''
         \<in> set (subnetPrivateIPv4Check fp lb i subnet (Some cs))
     \<longleftrightarrow> \<not> Contains ipNet (ParseIP addr)"
proof -
  from assms(2) ParseIP_accepts_iff [of addr]
  have "ParseIP addr \<noteq> [] \<and> To4 (ParseIP addr) \<noteq> []" by blast
  with assms(3) show ?thesis
    unfolding privateInvalidCIDR_iff [OF assms(1)] by simp
qed

lemma privateInvalidCIDR_None:
  assumes "PrivateIPv4Address subnet = Some addr"
  shows "Invalid (Child (Index fp i) ''privateIPv4Address'') (SubnetValue subnet)
           ''privateIPv4Address is not part of the subnet CIDR''
         \<notin> set (subnetPrivateIPv4Check fp lb i subnet None)"
  unfolding privateInvalidCIDR_iff [OF assms] by simp

lemma privateInvalidCIDR_inIPv4CIDR:
  assumes "PrivateIPv4Address subnet = Some addr"
    and "isIPv4Literal addr" and "isIPv4CIDR (CIDR cs)"
  shows "Invalid (Child (Index fp i) ''privateIPv4Address'') (SubnetValue subnet)
           ''privateIPv4Address is not part of the subnet CIDR''
         \<in> set (subnetPrivateIPv4Check fp lb i subnet (Some cs))
     \<longleftrightarrow> \<not> inIPv4CIDR (CIDR cs) addr"
proof -
  from ParseCIDR_IPv4 [OF assms(3)]
  obtain cidrIP ipNet where p: "ParseCIDR (CIDR cs) = Some (cidrIP, ipNet)" by blast
  from assms(2) have "isIPv4Literal addr \<or> isIPv4MappedIPv6Literal addr" by simp
  from privateInvalidCIDR_Contains [OF assms(1) this p, of fp i lb]
    Contains_inIPv4CIDR [OF assms(2,3) p]
  show ?thesis by simp
qed

subsection \<open>The external cloud controller manager\<close>

lemma awsValidateExternalCloudControllerManager_cases:
  "awsValidateExternalCloudControllerManager c =
     (if ExternalCloudControllerManager c \<noteq> None
         \<and> \<not> (\<exists>kcm. KubeControllerManager c = Some kcm \<and> ExternalCloudVolumePlugin kcm = ''aws'')
         \<and> \<not> (\<exists>cc driver. CloudConfig c = Some cc \<and> AWSEBSCSIDriver cc = Some driver
                  \<and> Enabled driver = Some True)
      then [Forbidden (NewPath ''spec'' [''externalCloudControllerManager''])
              ''AWS external CCM cannot be used without enabling spec.cloudConfig.AWSEBSCSIDriver or setting spec.kubeControllerManaager.externalCloudVolumePlugin set to `aws`'']
      else [])"
proof -
  have k: "(case KubeControllerManager c of None \<Rightarrow> True
            | Some kcm \<Rightarrow> ExternalCloudVolumePlugin kcm \<noteq> ''aws'')
        = (\<not> (\<exists>kcm. KubeControllerManager c = Some kcm \<and> ExternalCloudVolumePlugin kcm = ''aws''))"
    by (cases "KubeControllerManager c") simp_all
  have d: "(case CloudConfig c of None \<Rightarrow> True
            | Some cc \<Rightarrow> (case AWSEBSCSIDriver cc of None \<Rightarrow> True
                          | Some driver \<Rightarrow> \<not> BoolValue (Enabled driver)))
        = (\<not> (\<exists>cc driver. CloudConfig c = Some cc \<and> AWSEBSCSIDriver cc = Some driver
                  \<and> Enabled driver = Some True))"
  proof (cases "CloudConfig c")
    case None
    then show ?thesis by simp
  next
    case (Some cc)
    show ?thesis
    proof (cases "AWSEBSCSIDriver cc")
      case None
      with Some show ?thesis by simp
    next
      case (Some driver)
      with \<open>CloudConfig c = Some cc\<close> show ?thesis
        by (cases "Enabled driver") (simp_all add: BoolValue_def)
    qed
  qed
  show ?thesis
    unfolding awsValidateExternalCloudControllerManager_def k d by simp
qed

lemma Path_String_ccm:
  "Path_String (NewPath ''spec'' [''externalCloudControllerManager''])
     = ''spec.externalCloudControllerManager''"
  by (simp add: Path_String_def NewPath_def)

lemma loadBalancerSubnetErrs_Field:
  assumes "e \<in> set (loadBalancerSubnetErrs fp cs lb i subnet)"
  shows "Field e = Path_String (Child (Index fp i) ''name'')
       \<or> Field e = Path_String (Child (Index fp i) ''privateIPv4Address'')
       \<or> Field e = Path_String (Child (Index fp i) ''allocationID'')"
proof -
  have n: "list_all (\<lambda>e. Field e = Path_String (Child (Index fp i) ''name''))
             (fst (subnetNameCheck fp cs i subnet))"
    by (simp add: subnetNameCheck_def Let_def)
  have p: "list_all (\<lambda>e. Field e = Path_String (Child (Index fp i) ''privateIPv4Address''))
             (subnetPrivateIPv4Check fp lb i subnet (snd (subnetNameCheck fp cs i subnet)))"
    by (simp add: subnetPrivateIPv4Check_def Let_def split: option.split prod.split)
  have a: "list_all (\<lambda>e. Field e = Path_String (Child (Index fp i) ''allocationID''))
             (subnetAllocationIDCheck fp lb i subnet)"
    by (simp add: subnetAllocationIDCheck_def split: option.split)
  from assms consider "e \<in> set (fst (subnetNameCheck fp cs i subnet))"
    | "e \<in> set (subnetPrivateIPv4Check fp lb i subnet (snd (subnetNameCheck fp cs i subnet)))"
    | "e \<in> set (subnetAllocationIDCheck fp lb i subnet)"
    unfolding loadBalancerSubnetErrs_parts by auto
  then show ?thesis
  proof cases
    case 1
    with n show ?thesis by (simp add: list_all_iff)
  next
    case 2
    with p show ?thesis by (simp add: list_all_iff)
  next
    case 3
    with a show ?thesis by (simp add: list_all_iff)
  qed
qed

lemma sslPolicy_Field:
  assumes "e \<in> set (awsValidateSSLPolicy fp spec)"
  shows "Field e = Path_String fp"
  using assms by (auto simp: awsValidateSSLPolicy_def split: if_splits)

lemma ccm_Field:
  assumes "e \<in> set (awsValidateExternalCloudControllerManager spec)"
  shows "Field e = ''spec.externalCloudControllerManager''"
  using assms unfolding awsValidateExternalCloudControllerManager_cases
  by (auto simp: Path_String_ccm split: if_splits)

text \<open>The cluster validator always returns; its errors are those of the load-balancer rules,
  when there is a load balancer, followed by those of this rule.\<close>

lemma awsValidateCluster_closed:
  "awsValidateCluster c =
     Some ((case API (Cluster.Spec c) of
              None \<Rightarrow> []
            | Some api \<Rightarrow>
                (case LoadBalancer api of
                   None \<Rightarrow> []
                 | Some lb \<Rightarrow>
                     awsValidateAdditionalSecurityGroups
                       (NewPath ''spec'' [''api'', ''loadBalancer'', ''additionalSecurityGroups''])
                       (LoadBalancerAccessSpec.AdditionalSecurityGroups lb)
                     @ awsValidateSSLPolicy (NewPath ''spec'' [''api'', ''loadBalancer'', ''sslPolicy'']) lb
                     @ concat (map (\<lambda>i. loadBalancerSubnetErrs
                                 (NewPath ''spec'' [''api'', ''loadBalancer'', ''subnets''])
                                 (ClusterSpec.Subnets (Cluster.Spec c)) lb i
                                 (LoadBalancerAccessSpec.Subnets lb ! i))
                         [0..<length (LoadBalancerAccessSpec.Subnets lb)])))
           @ awsValidateExternalCloudControllerManager (Cluster.Spec c))"
proof (cases "API (Cluster.Spec c)")
  case None
  then show ?thesis by (simp add: awsValidateCluster_def)
next
  case (Some api)
  show ?thesis
  proof (cases "LoadBalancer api")
    case None
    with Some show ?thesis by (simp add: awsValidateCluster_def)
  next
    case (Some lb)
    with \<open>API (Cluster.Spec c) = Some api\<close> show ?thesis
      by (simp add: awsValidateCluster_def Let_def
            awsValidateLoadBalancerSubnets_closed [OF \<open>API (Cluster.Spec c) = Some api\<close> Some])
  qed
qed

lemma loadBalancer_Field:
  assumes "e \<in> set (awsValidateAdditionalSecurityGroups
                       (NewPath ''spec'' [''api'', ''loadBalancer'', ''additionalSecurityGroups'']) gs
                     @ awsValidateSSLPolicy (NewPath ''spec'' [''api'', ''loadBalancer'', ''sslPolicy'']) lb
                     @ concat (map (\<lambda>i. loadBalancerSubnetErrs
                                 (NewPath ''spec'' [''api'', ''loadBalancer'', ''subnets'']) cs lb i
                                 (subnets ! i)) [0..<length subnets]))"
  shows "\<exists>r. Field e = ''spec.api.loadBalancer.'' @ r"
proof -
  let ?sg = "NewPath ''spec'' [''api'', ''loadBalancer'', ''additionalSecurityGroups'']"
  let ?sn = "NewPath ''spec'' [''api'', ''loadBalancer'', ''subnets'']"
  from assms consider
      "e \<in> set (awsValidateAdditionalSecurityGroups ?sg gs)"
    | "e \<in> set (awsValidateSSLPolicy (NewPath ''spec'' [''api'', ''loadBalancer'', ''sslPolicy'']) lb)"
    | i where "e \<in> set (loadBalancerSubnetErrs ?sn cs lb i (subnets ! i))"
    by auto
  then show ?thesis
  proof cases
    case 1
    then obtain i where "Field e = Path_String (Index ?sg i)"
      using securityGroups_Field by blast
    then have "Field e = ''spec.api.loadBalancer.'' @ (''additionalSecurityGroups['' @ Itoa i @ '']'')"
      by (simp add: Path_String_Index NewPath_def)
    then show ?thesis by blast
  next
    case 2
    then have "Field e = Path_String (NewPath ''spec'' [''api'', ''loadBalancer'', ''sslPolicy''])"
      by (rule sslPolicy_Field)
    then have "Field e = ''spec.api.loadBalancer.'' @ ''sslPolicy''"
      by (simp add: Path_String_def NewPath_def)
    then show ?thesis by blast
  next
    case 3
    then consider "Field e = Path_String (Child (Index ?sn i) ''name'')"
      | "Field e = Path_String (Child (Index ?sn i) ''privateIPv4Address'')"
      | "Field e = Path_String (Child (Index ?sn i) ''allocationID'')"
      using loadBalancerSubnetErrs_Field by blast
    then show ?thesis
    proof cases
      case 1
      then have "Field e = ''spec.api.loadBalancer.'' @ (''subnets['' @ Itoa i @ ''].name'')"
        by (simp add: Path_String_Child renderPath_Index NewPath_def)
      then show ?thesis by blast
    next
      case 2
      then have "Field e = ''spec.api.loadBalancer.'' @ (''subnets['' @ Itoa i @ ''].privateIPv4Address'')"
        by (simp add: Path_String_Child renderPath_Index NewPath_def)
      then show ?thesis by blast
    next
      case 3
      then have "Field e = ''spec.api.loadBalancer.'' @ (''subnets['' @ Itoa i @ ''].allocationID'')"
        by (simp add: Path_String_Child renderPath_Index NewPath_def)
      then show ?thesis by blast
    qed
  qed
qed

lemma filter_ccm_Field:
  assumes "\<forall>e \<in> set xs. \<exists>r. Field e = ''spec.api.loadBalancer.'' @ r"
  shows "filter (\<lambda>e. Field e = ''spec.externalCloudControllerManager'')
           (xs @ awsValidateExternalCloudControllerManager spec)
         = awsValidateExternalCloudControllerManager spec"
proof -
  have "\<forall>e \<in> set xs. Field e \<noteq> ''spec.externalCloudControllerManager''"
  proof
    fix e assume "e \<in> set xs"
    then obtain r where "Field e = ''spec.api.loadBalancer.'' @ r" using assms by blast
    then show "Field e \<noteq> ''spec.externalCloudControllerManager''" by simp
  qed
  then have "filter (\<lambda>e. Field e = ''spec.externalCloudControllerManager'') xs = []"
    by (simp add: filter_empty_conv)
  moreover have "filter (\<lambda>e. Field e = ''spec.externalCloudControllerManager'')
                   (awsValidateExternalCloudControllerManager spec)
                 = awsValidateExternalCloudControllerManager spec"
    using ccm_Field by (simp add: filter_id_conv)
  ultimately show ?thesis by simp
qed

lemma awsValidateCluster_ccm:
  "\<exists>errs. awsValidateCluster c = Some errs
     \<and> filter (\<lambda>e. Field e = ''spec.externalCloudControllerManager'') errs
         = awsValidateExternalCloudControllerManager (Cluster.Spec c)"
proof (cases "API (Cluster.Spec c)")
  case None
  then show ?thesis
    using filter_ccm_Field [of "[]" "Cluster.Spec c"]
    by (simp add: awsValidateCluster_closed)
next
  case (Some api)
  show ?thesis
  proof (cases "LoadBalancer api")
    case None
    with Some show ?thesis
      using filter_ccm_Field [of "[]" "Cluster.Spec c"]
      by (simp add: awsValidateCluster_closed)
  next
    case (Some lb)
    let ?xs = "awsValidateAdditionalSecurityGroups
                       (NewPath ''spec'' [''api'', ''loadBalancer'', ''additionalSecurityGroups''])
                       (LoadBalancerAccessSpec.AdditionalSecurityGroups lb)
                     @ awsValidateSSLPolicy (NewPath ''spec'' [''api'', ''loadBalancer'', ''sslPolicy'']) lb
                     @ concat (map (\<lambda>i. loadBalancerSubnetErrs
                                 (NewPath ''spec'' [''api'', ''loadBalancer'', ''subnets''])
                                 (ClusterSpec.Subnets (Cluster.Spec c)) lb i
                                 (LoadBalancerAccessSpec.Subnets lb ! i))
                         [0..<length (LoadBalancerAccessSpec.Subnets lb)])"
    have c: "awsValidateCluster c =
        Some (?xs @ awsValidateExternalCloudControllerManager (Cluster.Spec c))"
      using \<open>API (Cluster.Spec c) = Some api\<close> Some by (simp add: awsValidateCluster_closed)
    have "\<forall>e \<in> set ?xs. \<exists>r. Field e = ''spec.api.loadBalancer.'' @ r"
      using loadBalancer_Field by blast
    then have "filter (\<lambda>e. Field e = ''spec.externalCloudControllerManager'')
           (?xs @ awsValidateExternalCloudControllerManager (Cluster.Spec c))
         = awsValidateExternalCloudControllerManager (Cluster.Spec c)"
      by (rule filter_ccm_Field)
    with c show ?thesis by simp
  qed
qed

subsection \<open>Claims on the cluster validator\<close>

text \<open>
  Claim C1, as amended. For a load-balancer subnet binding at index \<open>i\<close> that specifies
  a private IPv4 address: the errors of the binding are among the errors of the
  validator; an empty address gives Required at the binding's \<open>privateIPv4Address\<close>
  path; the Invalid "not a valid IPv4 address" is given exactly when the address is not
  an IPv4 literal (four decimal octets separated by dots) and is not an IPv4-mapped IPv6
  literal either, and so it is not given for \<open>::ffff:\<close> followed by an IPv4 literal;
  when the name of the binding resolves to a cluster subnet (the first one with that
  name), the Invalid "not part of the subnet CIDR" is given for an IPv4 literal and an
  IPv4 CIDR block exactly when the literal does not agree with the address of the block
  on the bits of the prefix, and more generally, for an address that passes the first
  check and a CIDR that \<^verbatim>\<open>net.ParseCIDR\<close> reads, exactly when the network does not
  contain the address; and when the name is empty or is not the name of a cluster subnet
  that error is not given.
\<close>

theorem private_ipv4_address_rules:
  assumes "API spec = Some api" and "LoadBalancer api = Some lbSpec"
    and "i < length (LoadBalancerAccessSpec.Subnets lbSpec)"
    and "subnet = LoadBalancerAccessSpec.Subnets lbSpec ! i"
    and "PrivateIPv4Address subnet = Some addr"
  shows "(\<exists>errs. awsValidateLoadBalancerSubnets fieldPath spec = Some errs
           \<and> set (loadBalancerSubnetErrs fieldPath (ClusterSpec.Subnets spec) lbSpec i subnet)
               \<subseteq> set errs)
    \<and> (addr = [] \<longrightarrow>
         Required (Child (Index fieldPath i) ''privateIPv4Address'')
           ''privateIPv4Address can't be empty''
         \<in> set (loadBalancerSubnetErrs fieldPath (ClusterSpec.Subnets spec) lbSpec i subnet))
    \<and> ((Invalid (Child (Index fieldPath i) ''privateIPv4Address'') (SubnetValue subnet)
           ''privateIPv4Address is not a valid IPv4 address''
          \<in> set (loadBalancerSubnetErrs fieldPath (ClusterSpec.Subnets spec) lbSpec i subnet))
         = (\<not> isIPv4Literal addr \<and> \<not> isIPv4MappedIPv6Literal addr))
    \<and> (\<forall>t. isIPv4Literal t \<and> addr = ''::ffff:'' @ t \<longrightarrow>
         Invalid (Child (Index fieldPath i) ''privateIPv4Address'') (SubnetValue subnet)
           ''privateIPv4Address is not a valid IPv4 address''
         \<notin> set (loadBalancerSubnetErrs fieldPath (ClusterSpec.Subnets spec) lbSpec i subnet))
    \<and> (\<forall>pre cs post.
          isIPv4Literal addr
          \<and> LoadBalancerSubnetSpec.Name subnet \<noteq> []
          \<and> ClusterSpec.Subnets spec = pre @ cs # post
          \<and> ClusterSubnetSpec.Name cs = LoadBalancerSubnetSpec.Name subnet
          \<and> (\<forall>c \<in> set pre. ClusterSubnetSpec.Name c \<noteq> LoadBalancerSubnetSpec.Name subnet)
          \<and> isIPv4CIDR (CIDR cs) \<longrightarrow>
          (Invalid (Child (Index fieldPath i) ''privateIPv4Address'') (SubnetValue subnet)
             ''privateIPv4Address is not part of the subnet CIDR''
           \<in> set (loadBalancerSubnetErrs fieldPath (ClusterSpec.Subnets spec) lbSpec i subnet))
          = (\<not> inIPv4CIDR (CIDR cs) addr))
    \<and> (\<forall>pre cs post cidrIP ipNet.
          (isIPv4Literal addr \<or> isIPv4MappedIPv6Literal addr)
          \<and> LoadBalancerSubnetSpec.Name subnet \<noteq> []
          \<and> ClusterSpec.Subnets spec = pre @ cs # post
          \<and> ClusterSubnetSpec.Name cs = LoadBalancerSubnetSpec.Name subnet
          \<and> (\<forall>c \<in> set pre. ClusterSubnetSpec.Name c \<noteq> LoadBalancerSubnetSpec.Name subnet)
          \<and> ParseCIDR (CIDR cs) = Some (cidrIP, ipNet) \<longrightarrow>
          (Invalid (Child (Index fieldPath i) ''privateIPv4Address'') (SubnetValue subnet)
             ''privateIPv4Address is not part of the subnet CIDR''
           \<in> set (loadBalancerSubnetErrs fieldPath (ClusterSpec.Subnets spec) lbSpec i subnet))
          = (\<not> Contains ipNet (ParseIP addr)))
    \<and> (LoadBalancerSubnetSpec.Name subnet = []
         \<or> LoadBalancerSubnetSpec.Name subnet \<notin> ClusterSubnetSpec.Name ` set (ClusterSpec.Subnets spec) \<longrightarrow>
         Invalid (Child (Index fieldPath i) ''privateIPv4Address'') (SubnetValue subnet)
           ''privateIPv4Address is not part of the subnet CIDR''
         \<notin> set (loadBalancerSubnetErrs fieldPath (ClusterSpec.Subnets spec) lbSpec i subnet))"
proof -
  let ?cs = "ClusterSpec.Subnets spec"
  let ?n = "LoadBalancerSubnetSpec.Name subnet"
  let ?errs = "loadBalancerSubnetErrs fieldPath ?cs lbSpec i subnet"
  let ?res = "snd (subnetNameCheck fieldPath ?cs i subnet)"
  let ?P = "Child (Index fieldPath i) ''privateIPv4Address''"
  obtain errs where errs: "awsValidateLoadBalancerSubnets fieldPath spec = Some errs"
    using awsValidateLoadBalancerSubnets_closed [OF assms(1,2)] by blast
  have sub: "set ?errs \<subseteq> set errs"
    using binding_errs_emitted [OF assms(1,2,3) errs] assms(4) by simp
  have parts: "?errs =
         fst (subnetNameCheck fieldPath ?cs i subnet)
         @ subnetPrivateIPv4Check fieldPath lbSpec i subnet ?res
         @ subnetAllocationIDCheck fieldPath lbSpec i subnet"
    by (rule loadBalancerSubnetErrs_parts)
  have inv: "\<And>d. (Invalid ?P (SubnetValue subnet) d \<in> set ?errs)
      = (Invalid ?P (SubnetValue subnet) d \<in> set (subnetPrivateIPv4Check fieldPath lbSpec i subnet ?res))"
    by (rule bindingInvalid_iff)
  show ?thesis
  proof (intro conjI)
    show "\<exists>errs. awsValidateLoadBalancerSubnets fieldPath spec = Some errs \<and> set ?errs \<subseteq> set errs"
      using errs sub by blast
    show "addr = [] \<longrightarrow> Required ?P ''privateIPv4Address can't be empty'' \<in> set ?errs"
      unfolding parts using privateRequired_iff [OF assms(5), of fieldPath i lbSpec ?res] by simp
    show "(Invalid ?P (SubnetValue subnet) ''privateIPv4Address is not a valid IPv4 address''
              \<in> set ?errs) = (\<not> isIPv4Literal addr \<and> \<not> isIPv4MappedIPv6Literal addr)"
      unfolding inv by (rule privateInvalidIP_literal [OF assms(5)])
    show "\<forall>t. isIPv4Literal t \<and> addr = ''::ffff:'' @ t \<longrightarrow>
         Invalid ?P (SubnetValue subnet) ''privateIPv4Address is not a valid IPv4 address''
         \<notin> set ?errs"
    proof (intro allI impI)
      fix t
      assume "isIPv4Literal t \<and> addr = ''::ffff:'' @ t"
      then have "isIPv4MappedIPv6Literal addr"
        using isIPv4MappedIPv6Literal_prefix [of t] by simp
      then show "Invalid ?P (SubnetValue subnet) ''privateIPv4Address is not a valid IPv4 address''
         \<notin> set ?errs"
        unfolding inv privateInvalidIP_literal [OF assms(5)] by simp
    qed
    show "\<forall>pre cs post.
          isIPv4Literal addr \<and> ?n \<noteq> [] \<and> ?cs = pre @ cs # post
          \<and> ClusterSubnetSpec.Name cs = ?n
          \<and> (\<forall>c \<in> set pre. ClusterSubnetSpec.Name c \<noteq> ?n)
          \<and> isIPv4CIDR (CIDR cs) \<longrightarrow>
          (Invalid ?P (SubnetValue subnet) ''privateIPv4Address is not part of the subnet CIDR''
             \<in> set ?errs) = (\<not> inIPv4CIDR (CIDR cs) addr)"
    proof (intro allI impI)
      fix pre cs post
      assume h: "isIPv4Literal addr \<and> ?n \<noteq> [] \<and> ?cs = pre @ cs # post
          \<and> ClusterSubnetSpec.Name cs = ?n
          \<and> (\<forall>c \<in> set pre. ClusterSubnetSpec.Name c \<noteq> ?n)
          \<and> isIPv4CIDR (CIDR cs)"
      then have "?res = Some cs" using resolved_first by blast
      then show "(Invalid ?P (SubnetValue subnet) ''privateIPv4Address is not part of the subnet CIDR''
             \<in> set ?errs) = (\<not> inIPv4CIDR (CIDR cs) addr)"
        unfolding inv using privateInvalidCIDR_inIPv4CIDR [OF assms(5), of cs fieldPath i lbSpec] h
        by simp
    qed
    show "\<forall>pre cs post cidrIP ipNet.
          (isIPv4Literal addr \<or> isIPv4MappedIPv6Literal addr) \<and> ?n \<noteq> [] \<and> ?cs = pre @ cs # post
          \<and> ClusterSubnetSpec.Name cs = ?n
          \<and> (\<forall>c \<in> set pre. ClusterSubnetSpec.Name c \<noteq> ?n)
          \<and> ParseCIDR (CIDR cs) = Some (cidrIP, ipNet) \<longrightarrow>
          (Invalid ?P (SubnetValue subnet) ''privateIPv4Address is not part of the subnet CIDR''
             \<in> set ?errs) = (\<not> Contains ipNet (ParseIP addr))"
    proof (intro allI impI)
      fix pre cs post cidrIP ipNet
      assume h: "(isIPv4Literal addr \<or> isIPv4MappedIPv6Literal addr) \<and> ?n \<noteq> []
          \<and> ?cs = pre @ cs # post
          \<and> ClusterSubnetSpec.Name cs = ?n
          \<and> (\<forall>c \<in> set pre. ClusterSubnetSpec.Name c \<noteq> ?n)
          \<and> ParseCIDR (CIDR cs) = Some (cidrIP, ipNet)"
      then have r: "?res = Some cs" using resolved_first by blast
      from h have a: "isIPv4Literal addr \<or> isIPv4MappedIPv6Literal addr"
        and p: "ParseCIDR (CIDR cs) = Some (cidrIP, ipNet)" by blast+
      show "(Invalid ?P (SubnetValue subnet) ''privateIPv4Address is not part of the subnet CIDR''
             \<in> set ?errs) = (\<not> Contains ipNet (ParseIP addr))"
        unfolding inv r by (rule privateInvalidCIDR_Contains [OF assms(5) a p])
    qed
    show "?n = [] \<or> ?n \<notin> ClusterSubnetSpec.Name ` set ?cs \<longrightarrow>
         Invalid ?P (SubnetValue subnet) ''privateIPv4Address is not part of the subnet CIDR''
         \<notin> set ?errs"
    proof
      assume "?n = [] \<or> ?n \<notin> ClusterSubnetSpec.Name ` set ?cs"
      then have r: "?res = None" by (rule unresolved)
      show "Invalid ?P (SubnetValue subnet) ''privateIPv4Address is not part of the subnet CIDR''
         \<notin> set ?errs"
        unfolding inv r by (rule privateInvalidCIDR_None [OF assms(5)])
    qed
  qed
qed

text \<open>
  The theorem at bindings of the cluster of the tests, whose subnet \<open>a\<close> has the CIDR
  \<open>10.0.0.0/24\<close> and which has no subnet \<open>d\<close>. On the subnet \<open>a\<close>: the address
  \<open>11.0.0.10\<close> is an IPv4 literal outside the block and gets the Invalid "not part of
  the subnet CIDR"; the address \<open>10.0.0.10\<close> is an IPv4 literal inside the block and
  gets neither error; the addresses \<open>10.0.0.999\<close>, \<open>010.0.0.10\<close>,
  \<open>::0ffff:10.0.0.10\<close> and \<open>2001:db8::1\<close> are neither IPv4 literals nor IPv4-mapped
  IPv6 literals and get the Invalid "not a valid IPv4 address"; the IPv4-mapped IPv6
  literal \<open>::ffff:11.0.0.10\<close> is outside the network and gets the Invalid "not part of
  the subnet CIDR"; \<open>::ffff:10.0.0.10\<close> does not get the Invalid "not a valid IPv4
  address"; the empty address gets Required. On the name \<open>d\<close>, which does not
  resolve, the address \<open>11.0.0.10\<close> does not get the Invalid "not part of the subnet
  CIDR".
\<close>

theorem private_ipv4_address_witness:
  "Invalid (Child (Index lbSubnetsPath 0) ''privateIPv4Address'')
       (SubnetValue (privateBinding ''a'' ''11.0.0.10'')) ''privateIPv4Address is not part of the subnet CIDR''
     \<in> set (privateBindingErrs ''a'' ''11.0.0.10'')
   \<and> Invalid (Child (Index lbSubnetsPath 0) ''privateIPv4Address'')
       (SubnetValue (privateBinding ''a'' ''10.0.0.10'')) ''privateIPv4Address is not part of the subnet CIDR''
     \<notin> set (privateBindingErrs ''a'' ''10.0.0.10'')
   \<and> Invalid (Child (Index lbSubnetsPath 0) ''privateIPv4Address'')
       (SubnetValue (privateBinding ''a'' ''10.0.0.10'')) ''privateIPv4Address is not a valid IPv4 address''
     \<notin> set (privateBindingErrs ''a'' ''10.0.0.10'')
   \<and> Invalid (Child (Index lbSubnetsPath 0) ''privateIPv4Address'')
       (SubnetValue (privateBinding ''a'' ''10.0.0.999'')) ''privateIPv4Address is not a valid IPv4 address''
     \<in> set (privateBindingErrs ''a'' ''10.0.0.999'')
   \<and> Invalid (Child (Index lbSubnetsPath 0) ''privateIPv4Address'')
       (SubnetValue (privateBinding ''a'' ''010.0.0.10'')) ''privateIPv4Address is not a valid IPv4 address''
     \<in> set (privateBindingErrs ''a'' ''010.0.0.10'')
   \<and> Invalid (Child (Index lbSubnetsPath 0) ''privateIPv4Address'')
       (SubnetValue (privateBinding ''a'' ''::0ffff:10.0.0.10'')) ''privateIPv4Address is not a valid IPv4 address''
     \<in> set (privateBindingErrs ''a'' ''::0ffff:10.0.0.10'')
   \<and> Invalid (Child (Index lbSubnetsPath 0) ''privateIPv4Address'')
       (SubnetValue (privateBinding ''a'' ''2001:db8::1'')) ''privateIPv4Address is not a valid IPv4 address''
     \<in> set (privateBindingErrs ''a'' ''2001:db8::1'')
   \<and> Invalid (Child (Index lbSubnetsPath 0) ''privateIPv4Address'')
       (SubnetValue (privateBinding ''a'' ''::ffff:11.0.0.10'')) ''privateIPv4Address is not part of the subnet CIDR''
     \<in> set (privateBindingErrs ''a'' ''::ffff:11.0.0.10'')
   \<and> Invalid (Child (Index lbSubnetsPath 0) ''privateIPv4Address'')
       (SubnetValue (privateBinding ''d'' ''11.0.0.10'')) ''privateIPv4Address is not part of the subnet CIDR''
     \<notin> set (privateBindingErrs ''d'' ''11.0.0.10'')
   \<and> Invalid (Child (Index lbSubnetsPath 0) ''privateIPv4Address'')
       (SubnetValue (privateBinding ''a'' ''::ffff:10.0.0.10'')) ''privateIPv4Address is not a valid IPv4 address''
     \<notin> set (privateBindingErrs ''a'' ''::ffff:10.0.0.10'')
   \<and> Required (Child (Index lbSubnetsPath 0) ''privateIPv4Address'')
       ''privateIPv4Address can't be empty''
     \<in> set (loadBalancerSubnetErrs lbSubnetsPath testClusterSubnets
              (testLoadBalancer LoadBalancerClassNetwork LoadBalancerTypeInternal
                 [\<lparr>LoadBalancerSubnetSpec.Name = ''a'', PrivateIPv4Address = Some [],
                   AllocationID = None\<rparr>]) 0
              \<lparr>LoadBalancerSubnetSpec.Name = ''a'', PrivateIPv4Address = Some [],
                AllocationID = None\<rparr>)"
proof -
  have h1: "\<And>s. API (testClusterSpec LoadBalancerClassNetwork LoadBalancerTypeInternal [s])
      = Some \<lparr>LoadBalancer = Some (testLoadBalancer LoadBalancerClassNetwork LoadBalancerTypeInternal [s])\<rparr>"
    by (simp add: testClusterSpec_def)
  have h2: "\<And>s. LoadBalancer \<lparr>LoadBalancer = Some (testLoadBalancer LoadBalancerClassNetwork LoadBalancerTypeInternal [s])\<rparr>
      = Some (testLoadBalancer LoadBalancerClassNetwork LoadBalancerTypeInternal [s])" by simp
  have h3: "\<And>s. 0 < length (LoadBalancerAccessSpec.Subnets
      (testLoadBalancer LoadBalancerClassNetwork LoadBalancerTypeInternal [s]))"
    by (simp add: testLoadBalancer_def)
  have h4: "\<And>s. s = LoadBalancerAccessSpec.Subnets
      (testLoadBalancer LoadBalancerClassNetwork LoadBalancerTypeInternal [s]) ! 0"
    by (simp add: testLoadBalancer_def)
  have cs: "\<And>s. ClusterSpec.Subnets
      (testClusterSpec LoadBalancerClassNetwork LoadBalancerTypeInternal [s]) = testClusterSubnets"
    by (simp add: testClusterSpec_def)
  have p: "\<And>n a. PrivateIPv4Address (privateBinding n a) = Some a"
    by (simp add: privateBinding_def)
  have nm: "\<And>n a. LoadBalancerSubnetSpec.Name (privateBinding n a) = n"
    by (simp add: privateBinding_def)
  let ?a = "\<lparr>ClusterSubnetSpec.Name = ''a'', CIDR = ''10.0.0.0/24''\<rparr>"
  let ?net = "\<lparr>IP = [10, 0, 0, 0], Mask = [255, 255, 255, 0]\<rparr>"
  have ra: "''a'' \<noteq> []
      \<and> testClusterSubnets = [] @ ?a # tl testClusterSubnets
      \<and> ClusterSubnetSpec.Name ?a = ''a''
      \<and> (\<forall>c \<in> set []. ClusterSubnetSpec.Name c \<noteq> ''a'')"
    by (simp add: testClusterSubnets_def)
  have rd: "''d'' = [] \<or> ''d'' \<notin> ClusterSubnetSpec.Name ` set testClusterSubnets"
    by (simp add: testClusterSubnets_def)
  have ca: "isIPv4CIDR (CIDR ?a)" by code_simp
  have pa: "ParseCIDR (CIDR ?a)
      = Some ([0, 0, 0, 0, 0, 0, 0, 0, 0, 0, 255, 255, 10, 0, 0, 0], ?net)" by code_simp
  have l1: "isIPv4Literal ''11.0.0.10''" by code_simp
  have o1: "\<not> inIPv4CIDR (CIDR ?a) ''11.0.0.10''" by code_simp
  have f1: "Invalid (Child (Index lbSubnetsPath 0) ''privateIPv4Address'')
       (SubnetValue (privateBinding ''a'' ''11.0.0.10'')) ''privateIPv4Address is not part of the subnet CIDR''
     \<in> set (privateBindingErrs ''a'' ''11.0.0.10'')"
    using private_ipv4_address_rules [OF h1 h2 h3 h4 p [of "''a''" "''11.0.0.10''"], of lbSubnetsPath,
        unfolded cs nm, folded privateBindingErrs_def, THEN conjunct2, THEN conjunct2, THEN conjunct2, THEN conjunct2,
        THEN conjunct1, rule_format,
        of "[]" ?a "tl testClusterSubnets"] l1 ca o1 ra by simp
  have l2: "isIPv4Literal ''10.0.0.10''" by code_simp
  have o2: "inIPv4CIDR (CIDR ?a) ''10.0.0.10''" by code_simp
  have f2: "Invalid (Child (Index lbSubnetsPath 0) ''privateIPv4Address'')
       (SubnetValue (privateBinding ''a'' ''10.0.0.10'')) ''privateIPv4Address is not part of the subnet CIDR''
     \<notin> set (privateBindingErrs ''a'' ''10.0.0.10'')"
    using private_ipv4_address_rules [OF h1 h2 h3 h4 p [of "''a''" "''10.0.0.10''"], of lbSubnetsPath,
        unfolded cs nm, folded privateBindingErrs_def, THEN conjunct2, THEN conjunct2, THEN conjunct2, THEN conjunct2,
        THEN conjunct1, rule_format,
        of "[]" ?a "tl testClusterSubnets"] l2 ca o2 ra by simp
  have f3: "Invalid (Child (Index lbSubnetsPath 0) ''privateIPv4Address'')
       (SubnetValue (privateBinding ''a'' ''10.0.0.10'')) ''privateIPv4Address is not a valid IPv4 address''
     \<notin> set (privateBindingErrs ''a'' ''10.0.0.10'')"
    using private_ipv4_address_rules [OF h1 h2 h3 h4 p [of "''a''" "''10.0.0.10''"], of lbSubnetsPath,
        unfolded cs nm, folded privateBindingErrs_def, THEN conjunct2, THEN conjunct2, THEN conjunct1] l2 by simp
  have l4: "\<not> isIPv4Literal ''10.0.0.999'' \<and> \<not> isIPv4MappedIPv6Literal ''10.0.0.999''"
    by code_simp
  have f4: "Invalid (Child (Index lbSubnetsPath 0) ''privateIPv4Address'')
       (SubnetValue (privateBinding ''a'' ''10.0.0.999'')) ''privateIPv4Address is not a valid IPv4 address''
     \<in> set (privateBindingErrs ''a'' ''10.0.0.999'')"
    using private_ipv4_address_rules [OF h1 h2 h3 h4 p [of "''a''" "''10.0.0.999''"], of lbSubnetsPath,
        unfolded cs nm, folded privateBindingErrs_def, THEN conjunct2, THEN conjunct2, THEN conjunct1] l4 by simp
  have l5: "\<not> isIPv4Literal ''010.0.0.10'' \<and> \<not> isIPv4MappedIPv6Literal ''010.0.0.10''"
    by code_simp
  have f5: "Invalid (Child (Index lbSubnetsPath 0) ''privateIPv4Address'')
       (SubnetValue (privateBinding ''a'' ''010.0.0.10'')) ''privateIPv4Address is not a valid IPv4 address''
     \<in> set (privateBindingErrs ''a'' ''010.0.0.10'')"
    using private_ipv4_address_rules [OF h1 h2 h3 h4 p [of "''a''" "''010.0.0.10''"], of lbSubnetsPath,
        unfolded cs nm, folded privateBindingErrs_def, THEN conjunct2, THEN conjunct2, THEN conjunct1] l5 by simp
  have l6: "\<not> isIPv4Literal ''::0ffff:10.0.0.10''
      \<and> \<not> isIPv4MappedIPv6Literal ''::0ffff:10.0.0.10''"
    by code_simp
  have f6: "Invalid (Child (Index lbSubnetsPath 0) ''privateIPv4Address'')
       (SubnetValue (privateBinding ''a'' ''::0ffff:10.0.0.10'')) ''privateIPv4Address is not a valid IPv4 address''
     \<in> set (privateBindingErrs ''a'' ''::0ffff:10.0.0.10'')"
    using private_ipv4_address_rules [OF h1 h2 h3 h4 p [of "''a''" "''::0ffff:10.0.0.10''"], of lbSubnetsPath,
        unfolded cs nm, folded privateBindingErrs_def, THEN conjunct2, THEN conjunct2, THEN conjunct1] l6 by simp
  have l7: "\<not> isIPv4Literal ''2001:db8::1'' \<and> \<not> isIPv4MappedIPv6Literal ''2001:db8::1''"
    by code_simp
  have f7: "Invalid (Child (Index lbSubnetsPath 0) ''privateIPv4Address'')
       (SubnetValue (privateBinding ''a'' ''2001:db8::1'')) ''privateIPv4Address is not a valid IPv4 address''
     \<in> set (privateBindingErrs ''a'' ''2001:db8::1'')"
    using private_ipv4_address_rules [OF h1 h2 h3 h4 p [of "''a''" "''2001:db8::1''"], of lbSubnetsPath,
        unfolded cs nm, folded privateBindingErrs_def, THEN conjunct2, THEN conjunct2, THEN conjunct1] l7 by simp
  have l8: "isIPv4MappedIPv6Literal ''::ffff:11.0.0.10''" by code_simp
  have o8: "\<not> Contains ?net (ParseIP ''::ffff:11.0.0.10'')" by code_simp
  have f8: "Invalid (Child (Index lbSubnetsPath 0) ''privateIPv4Address'')
       (SubnetValue (privateBinding ''a'' ''::ffff:11.0.0.10'')) ''privateIPv4Address is not part of the subnet CIDR''
     \<in> set (privateBindingErrs ''a'' ''::ffff:11.0.0.10'')"
    using private_ipv4_address_rules [OF h1 h2 h3 h4 p [of "''a''" "''::ffff:11.0.0.10''"], of lbSubnetsPath,
        unfolded cs nm, folded privateBindingErrs_def, THEN conjunct2, THEN conjunct2, THEN conjunct2, THEN conjunct2, THEN conjunct2,
        THEN conjunct1, rule_format,
        of "[]" ?a "tl testClusterSubnets" _ ?net]
      l8 pa o8 ra by simp
  have f9: "Invalid (Child (Index lbSubnetsPath 0) ''privateIPv4Address'')
       (SubnetValue (privateBinding ''d'' ''11.0.0.10'')) ''privateIPv4Address is not part of the subnet CIDR''
     \<notin> set (privateBindingErrs ''d'' ''11.0.0.10'')"
    using private_ipv4_address_rules [OF h1 h2 h3 h4 p [of "''d''" "''11.0.0.10''"], of lbSubnetsPath,
        unfolded cs nm, folded privateBindingErrs_def, THEN conjunct2, THEN conjunct2, THEN conjunct2, THEN conjunct2, THEN conjunct2, THEN conjunct2, rule_format] rd by simp
  have f11: "Invalid (Child (Index lbSubnetsPath 0) ''privateIPv4Address'')
       (SubnetValue (privateBinding ''a'' ''::ffff:10.0.0.10'')) ''privateIPv4Address is not a valid IPv4 address''
     \<notin> set (privateBindingErrs ''a'' ''::ffff:10.0.0.10'')"
    using private_ipv4_address_rules [OF h1 h2 h3 h4 p [of "''a''" "''::ffff:10.0.0.10''"], of lbSubnetsPath,
        unfolded cs nm, folded privateBindingErrs_def, THEN conjunct2, THEN conjunct2, THEN conjunct2,
        THEN conjunct1, rule_format,
        of "''10.0.0.10''"] l2 by simp
  let ?e = "\<lparr>LoadBalancerSubnetSpec.Name = ''a'', PrivateIPv4Address = Some [],
             AllocationID = None\<rparr>"
  have pe: "PrivateIPv4Address ?e = Some []" by simp
  note R = private_ipv4_address_rules [OF h1 h2 h3 h4 pe, of lbSubnetsPath, unfolded cs,
             THEN conjunct2, THEN conjunct1]
  from R have f10: "Required (Child (Index lbSubnetsPath 0) ''privateIPv4Address'')
       ''privateIPv4Address can't be empty''
     \<in> set (loadBalancerSubnetErrs lbSubnetsPath testClusterSubnets
              (testLoadBalancer LoadBalancerClassNetwork LoadBalancerTypeInternal
                 [\<lparr>LoadBalancerSubnetSpec.Name = ''a'', PrivateIPv4Address = Some [],
                   AllocationID = None\<rparr>]) 0
              \<lparr>LoadBalancerSubnetSpec.Name = ''a'', PrivateIPv4Address = Some [],
                AllocationID = None\<rparr>)"
    by simp
  from f1 f2 f3 f4 f5 f6 f7 f8 f9 f11 f10 show ?thesis by (intro conjI)
qed

text \<open>
  Claim C1 as it is written fails: the address \<open>::ffff:10.0.0.10\<close> is not empty and
  is not an IPv4 literal (it holds colons), yet the validator gives no error for the
  binding: \<^verbatim>\<open>net.ParseIP\<close> reads it as the IPv4-mapped address 10.0.0.10, which
  \<^verbatim>\<open>To4\<close> accepts.
\<close>

theorem private_ipv4_mapped_counterexample:
  "''::ffff:10.0.0.10'' \<noteq> []
   \<and> CHR '':'' \<in> set ''::ffff:10.0.0.10''
   \<and> \<not> isIPv4Literal ''::ffff:10.0.0.10''
   \<and> awsValidateLoadBalancerSubnets lbSubnetsPath
       (testClusterSpec LoadBalancerClassNetwork LoadBalancerTypeInternal
          [\<lparr>LoadBalancerSubnetSpec.Name = ''a'', PrivateIPv4Address = Some ''::ffff:10.0.0.10'',
            AllocationID = None\<rparr>]) = Some []"
  by code_simp

text \<open>
  Claim C3. For a load-balancer subnet binding at index \<open>i\<close>, whose errors are among
  the errors of the validator: when a private IPv4 address is specified, Forbidden at the
  binding's \<open>privateIPv4Address\<close> path is given unless the class of the load balancer
  is the network class and its type is internal; when an allocation ID is specified,
  Forbidden at the binding's \<open>allocationID\<close> path is given unless the class is the
  network class and the type is not internal. Both checks run on every binding, one after
  the other: the errors of the allocation-ID check do not depend on the private address,
  and the kinds, fields and messages of the private-address check do not depend on the
  allocation ID.
\<close>

theorem subnet_forbidden_rules:
  assumes "API spec = Some api" and "LoadBalancer api = Some lbSpec"
    and "i < length (LoadBalancerAccessSpec.Subnets lbSpec)"
    and "subnet = LoadBalancerAccessSpec.Subnets lbSpec ! i"
  shows "(\<exists>errs. awsValidateLoadBalancerSubnets fieldPath spec = Some errs
           \<and> set (loadBalancerSubnetErrs fieldPath (ClusterSpec.Subnets spec) lbSpec i subnet)
               \<subseteq> set errs)
    \<and> (PrivateIPv4Address subnet \<noteq> None \<longrightarrow>
         (Forbidden (Child (Index fieldPath i) ''privateIPv4Address'')
            ''privateIPv4Address only allowed for internal NLBs''
          \<in> set (loadBalancerSubnetErrs fieldPath (ClusterSpec.Subnets spec) lbSpec i subnet))
         = (\<not> (Class lbSpec = LoadBalancerClassNetwork
                \<and> LoadBalancerAccessSpec.Type lbSpec = LoadBalancerTypeInternal)))
    \<and> (AllocationID subnet \<noteq> None \<longrightarrow>
         (Forbidden (Child (Index fieldPath i) ''allocationID'')
            ''allocationID only allowed for Public NLBs''
          \<in> set (loadBalancerSubnetErrs fieldPath (ClusterSpec.Subnets spec) lbSpec i subnet))
         = (\<not> (Class lbSpec = LoadBalancerClassNetwork
                \<and> LoadBalancerAccessSpec.Type lbSpec \<noteq> LoadBalancerTypeInternal)))
    \<and> loadBalancerSubnetErrs fieldPath (ClusterSpec.Subnets spec) lbSpec i subnet =
         fst (subnetNameCheck fieldPath (ClusterSpec.Subnets spec) i subnet)
         @ subnetPrivateIPv4Check fieldPath lbSpec i subnet
             (snd (subnetNameCheck fieldPath (ClusterSpec.Subnets spec) i subnet))
         @ subnetAllocationIDCheck fieldPath lbSpec i subnet
    \<and> (\<forall>x. subnetAllocationIDCheck fieldPath lbSpec i (subnet\<lparr>PrivateIPv4Address := x\<rparr>)
             = subnetAllocationIDCheck fieldPath lbSpec i subnet)
    \<and> (\<forall>y resolved.
          map (\<lambda>e. (Error.Type e, Field e, Detail e))
            (subnetPrivateIPv4Check fieldPath lbSpec i (subnet\<lparr>AllocationID := y\<rparr>) resolved)
          = map (\<lambda>e. (Error.Type e, Field e, Detail e))
              (subnetPrivateIPv4Check fieldPath lbSpec i subnet resolved))"
proof -
  let ?cs = "ClusterSpec.Subnets spec"
  let ?errs = "loadBalancerSubnetErrs fieldPath ?cs lbSpec i subnet"
  obtain errs where errs: "awsValidateLoadBalancerSubnets fieldPath spec = Some errs"
    using awsValidateLoadBalancerSubnets_closed [OF assms(1,2)] by blast
  have sub: "set ?errs \<subseteq> set errs"
    using binding_errs_emitted [OF assms(1,2,3) errs] assms(4) by simp
  have parts: "?errs =
         fst (subnetNameCheck fieldPath ?cs i subnet)
         @ subnetPrivateIPv4Check fieldPath lbSpec i subnet (snd (subnetNameCheck fieldPath ?cs i subnet))
         @ subnetAllocationIDCheck fieldPath lbSpec i subnet"
    by (rule loadBalancerSubnetErrs_parts)
  have p: "PrivateIPv4Address subnet \<noteq> None \<longrightarrow>
         (Forbidden (Child (Index fieldPath i) ''privateIPv4Address'')
            ''privateIPv4Address only allowed for internal NLBs'' \<in> set ?errs)
         = (\<not> (Class lbSpec = LoadBalancerClassNetwork
                \<and> LoadBalancerAccessSpec.Type lbSpec = LoadBalancerTypeInternal))"
    unfolding parts
    using privateForbidden_iff [of subnet _ fieldPath i lbSpec]
      privateForbidden_not_in_allocation [of fieldPath i lbSpec subnet]
      Forbidden_in_nameErrs [of _ _ fieldPath ?cs i subnet]
    by auto
  have a: "AllocationID subnet \<noteq> None \<longrightarrow>
         (Forbidden (Child (Index fieldPath i) ''allocationID'')
            ''allocationID only allowed for Public NLBs'' \<in> set ?errs)
         = (\<not> (Class lbSpec = LoadBalancerClassNetwork
                \<and> LoadBalancerAccessSpec.Type lbSpec \<noteq> LoadBalancerTypeInternal))"
    unfolding parts
    using allocationForbidden_iff [of subnet _ fieldPath i lbSpec]
      allocationForbidden_not_in_private [of fieldPath i lbSpec subnet]
      Forbidden_in_nameErrs [of _ _ fieldPath ?cs i subnet]
    by auto
  have ind1: "\<forall>x. subnetAllocationIDCheck fieldPath lbSpec i (subnet\<lparr>PrivateIPv4Address := x\<rparr>)
             = subnetAllocationIDCheck fieldPath lbSpec i subnet"
    by (simp add: subnetAllocationIDCheck_def)
  have ind2: "\<forall>y resolved.
          map (\<lambda>e. (Error.Type e, Field e, Detail e))
            (subnetPrivateIPv4Check fieldPath lbSpec i (subnet\<lparr>AllocationID := y\<rparr>) resolved)
          = map (\<lambda>e. (Error.Type e, Field e, Detail e))
              (subnetPrivateIPv4Check fieldPath lbSpec i subnet resolved)"
    by (simp add: subnetPrivateIPv4Check_def Let_def Required_def Invalid_def Forbidden_def
          split: option.split prod.split)
  have e: "\<exists>errs. awsValidateLoadBalancerSubnets fieldPath spec = Some errs \<and> set ?errs \<subseteq> set errs"
    using errs sub by blast
  from e p a parts ind1 ind2 show ?thesis by (intro conjI)
qed

text \<open>
  The theorem at a binding that carries both values, on a classic load balancer: both
  Forbidden errors are given.
\<close>

theorem subnet_forbidden_witness:
  "Forbidden (Child (Index lbSubnetsPath 0) ''privateIPv4Address'')
     ''privateIPv4Address only allowed for internal NLBs''
   \<in> set (loadBalancerSubnetErrs lbSubnetsPath testClusterSubnets
            (testLoadBalancer LoadBalancerClassClassic LoadBalancerTypeInternal
               [\<lparr>LoadBalancerSubnetSpec.Name = ''a'', PrivateIPv4Address = Some ''10.0.0.10'',
                 AllocationID = Some ''eipalloc-222ghi789''\<rparr>]) 0
            \<lparr>LoadBalancerSubnetSpec.Name = ''a'', PrivateIPv4Address = Some ''10.0.0.10'',
              AllocationID = Some ''eipalloc-222ghi789''\<rparr>)
   \<and> Forbidden (Child (Index lbSubnetsPath 0) ''allocationID'')
       ''allocationID only allowed for Public NLBs''
     \<in> set (loadBalancerSubnetErrs lbSubnetsPath testClusterSubnets
            (testLoadBalancer LoadBalancerClassClassic LoadBalancerTypeInternal
               [\<lparr>LoadBalancerSubnetSpec.Name = ''a'', PrivateIPv4Address = Some ''10.0.0.10'',
                 AllocationID = Some ''eipalloc-222ghi789''\<rparr>]) 0
            \<lparr>LoadBalancerSubnetSpec.Name = ''a'', PrivateIPv4Address = Some ''10.0.0.10'',
              AllocationID = Some ''eipalloc-222ghi789''\<rparr>)"
proof -
  let ?s = "\<lparr>LoadBalancerSubnetSpec.Name = ''a'', PrivateIPv4Address = Some ''10.0.0.10'',
             AllocationID = Some ''eipalloc-222ghi789''\<rparr>"
  let ?lb = "testLoadBalancer LoadBalancerClassClassic LoadBalancerTypeInternal [?s]"
  let ?spec = "testClusterSpec LoadBalancerClassClassic LoadBalancerTypeInternal [?s]"
  have h1: "API ?spec = Some \<lparr>LoadBalancer = Some ?lb\<rparr>"
    by (simp add: testClusterSpec_def)
  have h2: "LoadBalancer \<lparr>LoadBalancer = Some ?lb\<rparr> = Some ?lb" by simp
  have h3: "0 < length (LoadBalancerAccessSpec.Subnets ?lb)"
    by (simp add: testLoadBalancer_def)
  have h4: "?s = LoadBalancerAccessSpec.Subnets ?lb ! 0"
    by (simp add: testLoadBalancer_def)
  have cs: "ClusterSpec.Subnets ?spec = testClusterSubnets"
    by (simp add: testClusterSpec_def)
  have cl: "Class ?lb \<noteq> LoadBalancerClassNetwork"
    by (simp add: testLoadBalancer_def LoadBalancerClassClassic_def LoadBalancerClassNetwork_def)
  note t = subnet_forbidden_rules [OF h1 h2 h3 h4, of lbSubnetsPath, unfolded cs]
  note p = t [THEN conjunct2, THEN conjunct1]
  note a = t [THEN conjunct2, THEN conjunct2, THEN conjunct1]
  from p a cl show ?thesis by simp
qed

text \<open>
  Claim C4. The rule on the external cloud controller manager gives exactly one
  Forbidden error, at \<open>spec.externalCloudControllerManager\<close>, when the cluster declares
  an external cloud controller manager and neither the external cloud volume plugin of
  the kube controller manager is \<open>aws\<close> nor the cloud configuration enables the AWS EBS
  CSI driver; otherwise it gives no error. The cluster validator always returns, and its
  errors at that path are exactly the errors of this rule.
\<close>

theorem external_cloud_controller_manager_rule:
  "awsValidateExternalCloudControllerManager spec =
     (if ExternalCloudControllerManager spec \<noteq> None
         \<and> \<not> (\<exists>kcm. KubeControllerManager spec = Some kcm
                  \<and> ExternalCloudVolumePlugin kcm = ''aws'')
         \<and> \<not> (\<exists>cc driver. CloudConfig spec = Some cc \<and> AWSEBSCSIDriver cc = Some driver
                  \<and> Enabled driver = Some True)
      then [Forbidden (NewPath ''spec'' [''externalCloudControllerManager''])
              ''AWS external CCM cannot be used without enabling spec.cloudConfig.AWSEBSCSIDriver or setting spec.kubeControllerManaager.externalCloudVolumePlugin set to `aws`'']
      else [])
   \<and> Path_String (NewPath ''spec'' [''externalCloudControllerManager''])
       = ''spec.externalCloudControllerManager''
   \<and> (\<exists>errs. awsValidateCluster \<lparr>Cluster.Spec = spec\<rparr> = Some errs
         \<and> filter (\<lambda>e. Field e = ''spec.externalCloudControllerManager'') errs
             = awsValidateExternalCloudControllerManager spec)"
proof (intro conjI)
  show "awsValidateExternalCloudControllerManager spec =
     (if ExternalCloudControllerManager spec \<noteq> None
         \<and> \<not> (\<exists>kcm. KubeControllerManager spec = Some kcm
                  \<and> ExternalCloudVolumePlugin kcm = ''aws'')
         \<and> \<not> (\<exists>cc driver. CloudConfig spec = Some cc \<and> AWSEBSCSIDriver cc = Some driver
                  \<and> Enabled driver = Some True)
      then [Forbidden (NewPath ''spec'' [''externalCloudControllerManager''])
              ''AWS external CCM cannot be used without enabling spec.cloudConfig.AWSEBSCSIDriver or setting spec.kubeControllerManaager.externalCloudVolumePlugin set to `aws`'']
      else [])"
    by (rule awsValidateExternalCloudControllerManager_cases)
  show "Path_String (NewPath ''spec'' [''externalCloudControllerManager''])
       = ''spec.externalCloudControllerManager''"
    by (rule Path_String_ccm)
  show "\<exists>errs. awsValidateCluster \<lparr>Cluster.Spec = spec\<rparr> = Some errs
         \<and> filter (\<lambda>e. Field e = ''spec.externalCloudControllerManager'') errs
             = awsValidateExternalCloudControllerManager spec"
    using awsValidateCluster_ccm [of "\<lparr>Cluster.Spec = spec\<rparr>"] by simp
qed

text \<open>
  The theorem at the three inputs of the package's test: an external cloud controller
  manager alone, with the CSI driver enabled, and with the volume plugin \<open>aws\<close>.
\<close>

theorem external_cloud_controller_manager_witness:
  "map errString (awsValidateExternalCloudControllerManager ccmOnly)
     = [''Forbidden::spec.externalCloudControllerManager'']
   \<and> awsValidateExternalCloudControllerManager ccmWithCSIDriver = []
   \<and> awsValidateExternalCloudControllerManager ccmWithVolumePlugin = []"
  using external_cloud_controller_manager_rule [of ccmOnly, THEN conjunct1]
    external_cloud_controller_manager_rule [of ccmWithCSIDriver, THEN conjunct1]
    external_cloud_controller_manager_rule [of ccmWithVolumePlugin, THEN conjunct1]
    external_cloud_controller_manager_rule [of ccmOnly, THEN conjunct2, THEN conjunct1]
  by (simp add: ccmOnly_def ccmWithCSIDriver_def ccmWithVolumePlugin_def errString_def)

text \<open>
  Claim C6. For a load-balancer subnet binding at index \<open>i\<close>, whose errors are among
  the errors of the validator: an empty name gives Required at \<open>subnets[i].name\<close> and
  resolves to no cluster subnet; a name that is not empty and is not the name of a cluster
  subnet gives NotFound at \<open>subnets[i].name\<close> and resolves to no cluster subnet; a name
  that is not empty and is the name of a cluster subnet gives no error on the name and
  resolves to the first cluster subnet with exactly that name, and this is the record
  that the check of the private address receives: when a private address is specified,
  the Invalid "not part of the subnet CIDR" is given exactly when the address passes the
  check of \<^verbatim>\<open>net.ParseIP\<close>, the CIDR of that record parses and its network does
  not contain the address.
\<close>

theorem subnet_name_resolution:
  assumes "API spec = Some api" and "LoadBalancer api = Some lbSpec"
    and "i < length (LoadBalancerAccessSpec.Subnets lbSpec)"
    and "subnet = LoadBalancerAccessSpec.Subnets lbSpec ! i"
  shows "(\<exists>errs. awsValidateLoadBalancerSubnets fieldPath spec = Some errs
           \<and> set (loadBalancerSubnetErrs fieldPath (ClusterSpec.Subnets spec) lbSpec i subnet)
               \<subseteq> set errs)
    \<and> (LoadBalancerSubnetSpec.Name subnet = [] \<longrightarrow>
         subnetNameCheck fieldPath (ClusterSpec.Subnets spec) i subnet =
           ([Required (Child (Index fieldPath i) ''name'') ''subnet name can't be empty''], None)
         \<and> Required (Child (Index fieldPath i) ''name'') ''subnet name can't be empty''
             \<in> set (loadBalancerSubnetErrs fieldPath (ClusterSpec.Subnets spec) lbSpec i subnet))
    \<and> (LoadBalancerSubnetSpec.Name subnet \<noteq> []
         \<and> LoadBalancerSubnetSpec.Name subnet \<notin> ClusterSubnetSpec.Name ` set (ClusterSpec.Subnets spec) \<longrightarrow>
         subnetNameCheck fieldPath (ClusterSpec.Subnets spec) i subnet =
           ([NotFound (Child (Index fieldPath i) ''name'')
               (SprintfValue ''subnet %q not found in cluster subnets''
                  [LoadBalancerSubnetSpec.Name subnet])], None)
         \<and> NotFound (Child (Index fieldPath i) ''name'')
               (SprintfValue ''subnet %q not found in cluster subnets''
                  [LoadBalancerSubnetSpec.Name subnet])
             \<in> set (loadBalancerSubnetErrs fieldPath (ClusterSpec.Subnets spec) lbSpec i subnet))
    \<and> (LoadBalancerSubnetSpec.Name subnet \<noteq> []
         \<and> LoadBalancerSubnetSpec.Name subnet \<in> ClusterSubnetSpec.Name ` set (ClusterSpec.Subnets spec) \<longrightarrow>
         (\<exists>pre cs post.
            ClusterSpec.Subnets spec = pre @ cs # post
            \<and> ClusterSubnetSpec.Name cs = LoadBalancerSubnetSpec.Name subnet
            \<and> (\<forall>c \<in> set pre. ClusterSubnetSpec.Name c \<noteq> LoadBalancerSubnetSpec.Name subnet)
            \<and> subnetNameCheck fieldPath (ClusterSpec.Subnets spec) i subnet = ([], Some cs)
            \<and> loadBalancerSubnetErrs fieldPath (ClusterSpec.Subnets spec) lbSpec i subnet =
                 subnetPrivateIPv4Check fieldPath lbSpec i subnet (Some cs)
                 @ subnetAllocationIDCheck fieldPath lbSpec i subnet
            \<and> (\<forall>addr. PrivateIPv4Address subnet = Some addr \<longrightarrow>
                 (Invalid (Child (Index fieldPath i) ''privateIPv4Address'') (SubnetValue subnet)
                    ''privateIPv4Address is not part of the subnet CIDR''
                  \<in> set (loadBalancerSubnetErrs fieldPath (ClusterSpec.Subnets spec) lbSpec i subnet))
                 = (ParseIP addr \<noteq> [] \<and> To4 (ParseIP addr) \<noteq> []
                    \<and> (\<exists>cidrIP ipNet. ParseCIDR (CIDR cs) = Some (cidrIP, ipNet)
                          \<and> \<not> Contains ipNet (ParseIP addr))))))"
proof -
  let ?cs = "ClusterSpec.Subnets spec"
  let ?n = "LoadBalancerSubnetSpec.Name subnet"
  let ?errs = "loadBalancerSubnetErrs fieldPath ?cs lbSpec i subnet"
  let ?P = "Child (Index fieldPath i) ''privateIPv4Address''"
  obtain errs where errs: "awsValidateLoadBalancerSubnets fieldPath spec = Some errs"
    using awsValidateLoadBalancerSubnets_closed [OF assms(1,2)] by blast
  have sub: "set (loadBalancerSubnetErrs fieldPath ?cs lbSpec i subnet) \<subseteq> set errs"
    using binding_errs_emitted [OF assms(1,2,3) errs] assms(4) by simp
  have a: "?n = [] \<longrightarrow>
         subnetNameCheck fieldPath ?cs i subnet =
           ([Required (Child (Index fieldPath i) ''name'') ''subnet name can't be empty''], None)
         \<and> Required (Child (Index fieldPath i) ''name'') ''subnet name can't be empty''
             \<in> set ?errs"
  proof
    assume e: "?n = []"
    then have c: "subnetNameCheck fieldPath ?cs i subnet =
           ([Required (Child (Index fieldPath i) ''name'') ''subnet name can't be empty''], None)"
      by (rule subnetNameCheck_empty)
    then have "Required (Child (Index fieldPath i) ''name'') ''subnet name can't be empty''
        \<in> set (loadBalancerSubnetErrs fieldPath ?cs lbSpec i subnet)"
      by (simp add: loadBalancerSubnetErrs_def)
    with c show "subnetNameCheck fieldPath ?cs i subnet =
           ([Required (Child (Index fieldPath i) ''name'') ''subnet name can't be empty''], None)
         \<and> Required (Child (Index fieldPath i) ''name'') ''subnet name can't be empty''
             \<in> set ?errs"
      by blast
  qed
  have b: "?n \<noteq> [] \<and> ?n \<notin> ClusterSubnetSpec.Name ` set ?cs \<longrightarrow>
         subnetNameCheck fieldPath ?cs i subnet =
           ([NotFound (Child (Index fieldPath i) ''name'')
               (SprintfValue ''subnet %q not found in cluster subnets'' [?n])], None)
         \<and> NotFound (Child (Index fieldPath i) ''name'')
               (SprintfValue ''subnet %q not found in cluster subnets'' [?n]) \<in> set ?errs"
  proof
    assume e: "?n \<noteq> [] \<and> ?n \<notin> ClusterSubnetSpec.Name ` set ?cs"
    then have c: "subnetNameCheck fieldPath ?cs i subnet =
           ([NotFound (Child (Index fieldPath i) ''name'')
               (SprintfValue ''subnet %q not found in cluster subnets'' [?n])], None)"
      using subnetNameCheck_missing by blast
    then have "NotFound (Child (Index fieldPath i) ''name'')
               (SprintfValue ''subnet %q not found in cluster subnets'' [?n])
        \<in> set (loadBalancerSubnetErrs fieldPath ?cs lbSpec i subnet)"
      by (simp add: loadBalancerSubnetErrs_def)
    with c show "subnetNameCheck fieldPath ?cs i subnet =
           ([NotFound (Child (Index fieldPath i) ''name'')
               (SprintfValue ''subnet %q not found in cluster subnets'' [?n])], None)
         \<and> NotFound (Child (Index fieldPath i) ''name'')
               (SprintfValue ''subnet %q not found in cluster subnets'' [?n]) \<in> set ?errs"
      by blast
  qed
  have c: "?n \<noteq> [] \<and> ?n \<in> ClusterSubnetSpec.Name ` set ?cs \<longrightarrow>
         (\<exists>pre cs post.
            ?cs = pre @ cs # post
            \<and> ClusterSubnetSpec.Name cs = ?n
            \<and> (\<forall>c \<in> set pre. ClusterSubnetSpec.Name c \<noteq> ?n)
            \<and> subnetNameCheck fieldPath ?cs i subnet = ([], Some cs)
            \<and> loadBalancerSubnetErrs fieldPath ?cs lbSpec i subnet =
                 subnetPrivateIPv4Check fieldPath lbSpec i subnet (Some cs)
                 @ subnetAllocationIDCheck fieldPath lbSpec i subnet
            \<and> (\<forall>addr. PrivateIPv4Address subnet = Some addr \<longrightarrow>
                 (Invalid ?P (SubnetValue subnet)
                    ''privateIPv4Address is not part of the subnet CIDR'' \<in> set ?errs)
                 = (ParseIP addr \<noteq> [] \<and> To4 (ParseIP addr) \<noteq> []
                    \<and> (\<exists>cidrIP ipNet. ParseCIDR (CIDR cs) = Some (cidrIP, ipNet)
                          \<and> \<not> Contains ipNet (ParseIP addr)))))"
  proof
    assume e: "?n \<noteq> [] \<and> ?n \<in> ClusterSubnetSpec.Name ` set ?cs"
    then have "findClusterSubnet ?n ?cs \<noteq> None"
      by (simp add: findClusterSubnet_None)
    then obtain cs where f: "findClusterSubnet ?n ?cs = Some cs" by blast
    then obtain pre post where d: "?cs = pre @ cs # post" "ClusterSubnetSpec.Name cs = ?n"
      "\<forall>c \<in> set pre. ClusterSubnetSpec.Name c \<noteq> ?n"
      using findClusterSubnet_Some by blast
    have n: "subnetNameCheck fieldPath ?cs i subnet = ([], Some cs)"
      using e f by (simp add: subnetNameCheck_found)
    then have l: "loadBalancerSubnetErrs fieldPath ?cs lbSpec i subnet =
                 subnetPrivateIPv4Check fieldPath lbSpec i subnet (Some cs)
                 @ subnetAllocationIDCheck fieldPath lbSpec i subnet"
      by (simp add: loadBalancerSubnetErrs_def)
    have r: "snd (subnetNameCheck fieldPath ?cs i subnet) = Some cs"
      using n by simp
    have k: "\<forall>addr. PrivateIPv4Address subnet = Some addr \<longrightarrow>
                 (Invalid ?P (SubnetValue subnet)
                    ''privateIPv4Address is not part of the subnet CIDR'' \<in> set ?errs)
                 = (ParseIP addr \<noteq> [] \<and> To4 (ParseIP addr) \<noteq> []
                    \<and> (\<exists>cidrIP ipNet. ParseCIDR (CIDR cs) = Some (cidrIP, ipNet)
                          \<and> \<not> Contains ipNet (ParseIP addr)))"
    proof (intro allI impI)
      fix addr
      assume p: "PrivateIPv4Address subnet = Some addr"
      show "(Invalid ?P (SubnetValue subnet)
                    ''privateIPv4Address is not part of the subnet CIDR'' \<in> set ?errs)
                 = (ParseIP addr \<noteq> [] \<and> To4 (ParseIP addr) \<noteq> []
                    \<and> (\<exists>cidrIP ipNet. ParseCIDR (CIDR cs) = Some (cidrIP, ipNet)
                          \<and> \<not> Contains ipNet (ParseIP addr)))"
        unfolding bindingInvalid_iff r privateInvalidCIDR_iff [OF p] by simp
    qed
    from d n l k show "\<exists>pre cs post.
            ?cs = pre @ cs # post
            \<and> ClusterSubnetSpec.Name cs = ?n
            \<and> (\<forall>c \<in> set pre. ClusterSubnetSpec.Name c \<noteq> ?n)
            \<and> subnetNameCheck fieldPath ?cs i subnet = ([], Some cs)
            \<and> loadBalancerSubnetErrs fieldPath ?cs lbSpec i subnet =
                 subnetPrivateIPv4Check fieldPath lbSpec i subnet (Some cs)
                 @ subnetAllocationIDCheck fieldPath lbSpec i subnet
            \<and> (\<forall>addr. PrivateIPv4Address subnet = Some addr \<longrightarrow>
                 (Invalid ?P (SubnetValue subnet)
                    ''privateIPv4Address is not part of the subnet CIDR'' \<in> set ?errs)
                 = (ParseIP addr \<noteq> [] \<and> To4 (ParseIP addr) \<noteq> []
                    \<and> (\<exists>cidrIP ipNet. ParseCIDR (CIDR cs) = Some (cidrIP, ipNet)
                          \<and> \<not> Contains ipNet (ParseIP addr))))"
      by (intro exI conjI)
  qed
  have e: "\<exists>errs. awsValidateLoadBalancerSubnets fieldPath spec = Some errs \<and> set ?errs \<subseteq> set errs"
    using errs sub by blast
  from e a b c show ?thesis by (intro conjI)
qed

text \<open>
  The theorem at three bindings. The binding \<open>d\<close> of the tests, which no cluster
  subnet is named after, gives NotFound; the binding with the empty name gives Required.
  The binding \<open>a\<close> with the address \<open>11.0.0.10\<close>, on
  a cluster with two subnets named \<open>a\<close>, the first with the CIDR \<open>10.0.0.0/24\<close> and
  the second with the CIDR \<open>11.0.0.0/24\<close>, resolves to the first one, whose network does
  not contain the address: the Invalid "not part of the subnet CIDR" is given.
\<close>

theorem subnet_name_witness:
  "NotFound (Child (Index lbSubnetsPath 0) ''name'')
     (SprintfValue ''subnet %q not found in cluster subnets'' [''d''])
   \<in> set (loadBalancerSubnetErrs lbSubnetsPath testClusterSubnets
            (testLoadBalancer LoadBalancerClassNetwork LoadBalancerTypeInternal
               [\<lparr>LoadBalancerSubnetSpec.Name = ''d'', PrivateIPv4Address = None,
                 AllocationID = None\<rparr>]) 0
            \<lparr>LoadBalancerSubnetSpec.Name = ''d'', PrivateIPv4Address = None,
              AllocationID = None\<rparr>)
   \<and> Invalid (Child (Index lbSubnetsPath 0) ''privateIPv4Address'')
       (SubnetValue \<lparr>LoadBalancerSubnetSpec.Name = ''a'', PrivateIPv4Address = Some ''11.0.0.10'',
                     AllocationID = None\<rparr>)
       ''privateIPv4Address is not part of the subnet CIDR''
     \<in> set (loadBalancerSubnetErrs lbSubnetsPath sameNameSubnets
            (testLoadBalancer LoadBalancerClassNetwork LoadBalancerTypeInternal
               [\<lparr>LoadBalancerSubnetSpec.Name = ''a'', PrivateIPv4Address = Some ''11.0.0.10'',
                 AllocationID = None\<rparr>]) 0
            \<lparr>LoadBalancerSubnetSpec.Name = ''a'', PrivateIPv4Address = Some ''11.0.0.10'',
              AllocationID = None\<rparr>)
   \<and> Required (Child (Index lbSubnetsPath 0) ''name'') ''subnet name can't be empty''
     \<in> set (loadBalancerSubnetErrs lbSubnetsPath testClusterSubnets
            (testLoadBalancer LoadBalancerClassNetwork LoadBalancerTypeInternal
               [\<lparr>LoadBalancerSubnetSpec.Name = [], PrivateIPv4Address = None,
                 AllocationID = None\<rparr>]) 0
            \<lparr>LoadBalancerSubnetSpec.Name = [], PrivateIPv4Address = None,
              AllocationID = None\<rparr>)"
proof -
  let ?s = "\<lparr>LoadBalancerSubnetSpec.Name = ''d'', PrivateIPv4Address = None,
             AllocationID = None\<rparr>"
  let ?lb = "testLoadBalancer LoadBalancerClassNetwork LoadBalancerTypeInternal [?s]"
  let ?spec = "testClusterSpec LoadBalancerClassNetwork LoadBalancerTypeInternal [?s]"
  have h1: "API ?spec = Some \<lparr>LoadBalancer = Some ?lb\<rparr>"
    by (simp add: testClusterSpec_def)
  have h2: "LoadBalancer \<lparr>LoadBalancer = Some ?lb\<rparr> = Some ?lb" by simp
  have h3: "0 < length (LoadBalancerAccessSpec.Subnets ?lb)"
    by (simp add: testLoadBalancer_def)
  have h4: "?s = LoadBalancerAccessSpec.Subnets ?lb ! 0"
    by (simp add: testLoadBalancer_def)
  have cs: "ClusterSpec.Subnets ?spec = testClusterSubnets"
    by (simp add: testClusterSpec_def)
  have n: "LoadBalancerSubnetSpec.Name ?s \<noteq> []
           \<and> LoadBalancerSubnetSpec.Name ?s \<notin> ClusterSubnetSpec.Name ` set testClusterSubnets"
    by (simp add: testClusterSubnets_def)
  note t = subnet_name_resolution [OF h1 h2 h3 h4, of lbSubnetsPath, unfolded cs]
  note m = t [THEN conjunct2, THEN conjunct2, THEN conjunct1, rule_format, OF n]
  from m have first: "NotFound (Child (Index lbSubnetsPath 0) ''name'')
     (SprintfValue ''subnet %q not found in cluster subnets'' [''d''])
     \<in> set (loadBalancerSubnetErrs lbSubnetsPath testClusterSubnets ?lb 0 ?s)"
    by simp
  let ?s' = "\<lparr>LoadBalancerSubnetSpec.Name = ''a'', PrivateIPv4Address = Some ''11.0.0.10'',
              AllocationID = None\<rparr>"
  let ?lb' = "testLoadBalancer LoadBalancerClassNetwork LoadBalancerTypeInternal [?s']"
  let ?spec' = "(testClusterSpec LoadBalancerClassNetwork LoadBalancerTypeInternal [?s'])
                  \<lparr>ClusterSpec.Subnets := sameNameSubnets\<rparr>"
  let ?a1 = "\<lparr>ClusterSubnetSpec.Name = ''a'', CIDR = ''10.0.0.0/24''\<rparr>"
  let ?net = "\<lparr>IP = [10, 0, 0, 0], Mask = [255, 255, 255, 0]\<rparr>"
  let ?E = "loadBalancerSubnetErrs lbSubnetsPath sameNameSubnets ?lb' 0 ?s'"
  let ?I = "Invalid (Child (Index lbSubnetsPath 0) ''privateIPv4Address'') (SubnetValue ?s')
              ''privateIPv4Address is not part of the subnet CIDR''"
  have g1: "API ?spec' = Some \<lparr>LoadBalancer = Some ?lb'\<rparr>"
    by (simp add: testClusterSpec_def)
  have g2: "LoadBalancer \<lparr>LoadBalancer = Some ?lb'\<rparr> = Some ?lb'" by simp
  have g3: "0 < length (LoadBalancerAccessSpec.Subnets ?lb')"
    by (simp add: testLoadBalancer_def)
  have g4: "?s' = LoadBalancerAccessSpec.Subnets ?lb' ! 0"
    by (simp add: testLoadBalancer_def)
  have cs': "ClusterSpec.Subnets ?spec' = sameNameSubnets" by simp
  have n': "LoadBalancerSubnetSpec.Name ?s' \<noteq> []
           \<and> LoadBalancerSubnetSpec.Name ?s' \<in> ClusterSubnetSpec.Name ` set sameNameSubnets"
    by (simp add: sameNameSubnets_def)
  have r: "subnetNameCheck lbSubnetsPath sameNameSubnets 0 ?s' = ([], Some ?a1)"
    by code_simp
  have e1: "ParseIP ''11.0.0.10'' \<noteq> [] \<and> To4 (ParseIP ''11.0.0.10'') \<noteq> []" by code_simp
  have e2: "ParseCIDR (CIDR ?a1)
              = Some ([0, 0, 0, 0, 0, 0, 0, 0, 0, 0, 255, 255, 10, 0, 0, 0], ?net)"
    by code_simp
  have e3: "\<not> Contains ?net (ParseIP ''11.0.0.10'')" by code_simp
  note t' = subnet_name_resolution [OF g1 g2 g3 g4, of lbSubnetsPath, unfolded cs']
  note m' = t' [THEN conjunct2, THEN conjunct2, THEN conjunct2, rule_format, OF n']
  from m' obtain cs where
    q: "subnetNameCheck lbSubnetsPath sameNameSubnets 0 ?s' = ([], Some cs)"
    and k: "\<forall>addr. PrivateIPv4Address ?s' = Some addr \<longrightarrow>
              (?I \<in> set ?E)
              = (ParseIP addr \<noteq> [] \<and> To4 (ParseIP addr) \<noteq> []
                 \<and> (\<exists>cidrIP ipNet. ParseCIDR (CIDR cs) = Some (cidrIP, ipNet)
                       \<and> \<not> Contains ipNet (ParseIP addr)))"
    by (elim exE conjE)
  from q r have "cs = ?a1" by simp
  with k have "(?I \<in> set ?E)
      = (ParseIP ''11.0.0.10'' \<noteq> [] \<and> To4 (ParseIP ''11.0.0.10'') \<noteq> []
         \<and> (\<exists>cidrIP ipNet. ParseCIDR (CIDR ?a1) = Some (cidrIP, ipNet)
               \<and> \<not> Contains ipNet (ParseIP ''11.0.0.10'')))"
    by simp
  with e1 e2 e3 have second: "?I \<in> set ?E" by simp
  let ?s0 = "\<lparr>LoadBalancerSubnetSpec.Name = [], PrivateIPv4Address = None,
              AllocationID = None\<rparr>"
  let ?lb0 = "testLoadBalancer LoadBalancerClassNetwork LoadBalancerTypeInternal [?s0]"
  let ?spec0 = "testClusterSpec LoadBalancerClassNetwork LoadBalancerTypeInternal [?s0]"
  have k1: "API ?spec0 = Some \<lparr>LoadBalancer = Some ?lb0\<rparr>"
    by (simp add: testClusterSpec_def)
  have k2: "LoadBalancer \<lparr>LoadBalancer = Some ?lb0\<rparr> = Some ?lb0" by simp
  have k3: "0 < length (LoadBalancerAccessSpec.Subnets ?lb0)"
    by (simp add: testLoadBalancer_def)
  have k4: "?s0 = LoadBalancerAccessSpec.Subnets ?lb0 ! 0"
    by (simp add: testLoadBalancer_def)
  have cs0: "ClusterSpec.Subnets ?spec0 = testClusterSubnets"
    by (simp add: testClusterSpec_def)
  note t0 = subnet_name_resolution [OF k1 k2 k3 k4, of lbSubnetsPath, unfolded cs0,
              THEN conjunct2, THEN conjunct1]
  from t0 have third: "Required (Child (Index lbSubnetsPath 0) ''name'') ''subnet name can't be empty''
     \<in> set (loadBalancerSubnetErrs lbSubnetsPath testClusterSubnets ?lb0 0 ?s0)"
    by simp
  from first second third show ?thesis by (intro conjI)
qed

subsection \<open>Claims on the instance-group validator\<close>

text \<open>
  Claim C2. The validator of a security-group list gives, entry by entry and in the
  order of the list: a Duplicate at the entry's index when the entry equals an earlier
  one; then an Invalid at the index when the entry is blank (empty or white space only),
  and only for an entry that is not blank an Invalid at the index when it does not start
  with \<open>sg-\<close>. A blank entry does not stop the entries after it from being checked.
  The list \<open>[sg-1234abcd]\<close> gives no error, \<open>[sg-1234abcd, ""]\<close> one Invalid at
  index 1, \<open>[" ", ""]\<close> an Invalid at index 0 and then one at index 1, and
  \<open>[--invalid]\<close> one Invalid at index 0.
\<close>

theorem additional_security_groups_per_entry:
  "awsValidateAdditionalSecurityGroups fieldPath groups =
     concat (map (\<lambda>i.
        (if groups ! i \<in> set (take i groups)
         then [Duplicate (Index fieldPath i) (StringValue (groups ! i))] else [])
        @ (if TrimSpace (groups ! i) = []
           then [Invalid (Index fieldPath i) (StringValue (groups ! i))
                   ''security group cannot be empty, if specified'']
           else if \<not> HasPrefix (groups ! i) ''sg-''
           then [Invalid (Index fieldPath i) (StringValue (groups ! i))
                   ''security group does not match the expected AWS format'']
           else [])) [0..<length groups])
   \<and> awsValidateAdditionalSecurityGroups fieldPath [''sg-1234abcd''] = []
   \<and> map (\<lambda>e. (Error.Type e, Field e))
         (awsValidateAdditionalSecurityGroups fieldPath [''sg-1234abcd'', []])
       = [(ErrorTypeInvalid, Path_String (Index fieldPath 1))]
   \<and> map (\<lambda>e. (Error.Type e, Field e))
         (awsValidateAdditionalSecurityGroups fieldPath ['' '', []])
       = [(ErrorTypeInvalid, Path_String (Index fieldPath 0)),
          (ErrorTypeInvalid, Path_String (Index fieldPath 1))]
   \<and> map (\<lambda>e. (Error.Type e, Field e))
         (awsValidateAdditionalSecurityGroups fieldPath [''--invalid''])
       = [(ErrorTypeInvalid, Path_String (Index fieldPath 0))]"
proof (intro conjI)
  show "awsValidateAdditionalSecurityGroups fieldPath groups =
     concat (map (\<lambda>i.
        (if groups ! i \<in> set (take i groups)
         then [Duplicate (Index fieldPath i) (StringValue (groups ! i))] else [])
        @ (if TrimSpace (groups ! i) = []
           then [Invalid (Index fieldPath i) (StringValue (groups ! i))
                   ''security group cannot be empty, if specified'']
           else if \<not> HasPrefix (groups ! i) ''sg-''
           then [Invalid (Index fieldPath i) (StringValue (groups ! i))
                   ''security group does not match the expected AWS format'']
           else [])) [0..<length groups])"
    unfolding awsValidateAdditionalSecurityGroups_def securityGroupsLoop_closed
    by (simp add: securityGroupErrs_def)
  show "awsValidateAdditionalSecurityGroups fieldPath [''sg-1234abcd''] = []"
    by code_simp
  show "map (\<lambda>e. (Error.Type e, Field e))
         (awsValidateAdditionalSecurityGroups fieldPath [''sg-1234abcd'', []])
       = [(ErrorTypeInvalid, Path_String (Index fieldPath 1))]"
    by code_simp
  show "map (\<lambda>e. (Error.Type e, Field e))
         (awsValidateAdditionalSecurityGroups fieldPath ['' '', []])
       = [(ErrorTypeInvalid, Path_String (Index fieldPath 0)),
          (ErrorTypeInvalid, Path_String (Index fieldPath 1))]"
    by code_simp
  show "map (\<lambda>e. (Error.Type e, Field e))
         (awsValidateAdditionalSecurityGroups fieldPath [''--invalid''])
       = [(ErrorTypeInvalid, Path_String (Index fieldPath 0))]"
    by code_simp
qed

text \<open>
  The theorem at a list with a repeated entry, blank entries and an entry without the
  prefix, under the path of an instance group.
\<close>

theorem additional_security_groups_witness:
  "map errString (awsValidateAdditionalSecurityGroups
       (NewPath ''spec'' [''additionalSecurityGroups''])
       [''sg-1'', ''sg-1'', '' '', ''x'', '' ''])
   = [''Duplicate value::spec.additionalSecurityGroups[1]'',
      ''Invalid value::spec.additionalSecurityGroups[2]'',
      ''Invalid value::spec.additionalSecurityGroups[3]'',
      ''Duplicate value::spec.additionalSecurityGroups[4]'',
      ''Invalid value::spec.additionalSecurityGroups[4]'']"
  by (subst additional_security_groups_per_entry [THEN conjunct1]) code_simp

text \<open>
  Claim C5. A machine type that is not empty, with a cloud at hand, is split at its
  commas (the pieces, each followed by a comma, give back the value followed by a comma,
  and no piece holds a comma); every piece is looked up on its own, and every piece whose
  lookup returns an error gives one Invalid error, in the order of the pieces and whatever
  the lookups before it returned. All these errors are at the field path itself. Without
  a cloud, or for an empty machine type, there is no error.
\<close>

theorem instance_type_candidates:
  "awsValidateInstanceType fieldPath instanceType cloud =
     (case cloud of
        None \<Rightarrow> []
      | Some cl \<Rightarrow>
          if instanceType = [] then []
          else map (\<lambda>typ. Invalid fieldPath (StringValue typ) ''machine type specified is invalid'')
                 (filter (\<lambda>typ. isl (DescribeInstanceType cl typ)) (Split instanceType CHR '','')))
   \<and> concat (map (\<lambda>typ. typ @ '','') (Split instanceType CHR '','')) = instanceType @ '',''
   \<and> (\<forall>typ \<in> set (Split instanceType CHR '',''). CHR '','' \<notin> set typ)
   \<and> (\<forall>e \<in> set (awsValidateInstanceType fieldPath instanceType cloud).
         Error.Type e = ErrorTypeInvalid \<and> Field e = Path_String fieldPath)"
proof (intro conjI)
  show g: "awsValidateInstanceType fieldPath instanceType cloud =
     (case cloud of
        None \<Rightarrow> []
      | Some cl \<Rightarrow>
          if instanceType = [] then []
          else map (\<lambda>typ. Invalid fieldPath (StringValue typ) ''machine type specified is invalid'')
                 (filter (\<lambda>typ. isl (DescribeInstanceType cl typ)) (Split instanceType CHR '','')))"
    by (simp add: awsValidateInstanceType_def instanceTypeLoop_closed split: option.split)
  show "concat (map (\<lambda>typ. typ @ '','') (Split instanceType CHR '','')) = instanceType @ '',''"
    by (rule Split_join)
  show "\<forall>typ \<in> set (Split instanceType CHR '',''). CHR '','' \<notin> set typ"
    using Split_pieces by blast
  show "\<forall>e \<in> set (awsValidateInstanceType fieldPath instanceType cloud).
         Error.Type e = ErrorTypeInvalid \<and> Field e = Path_String fieldPath"
    unfolding g by (auto simp: Invalid_def split: option.splits)
qed

text \<open>
  The theorem at a machine type of four pieces, two of which the cloud does not know (one
  of them empty), and at the same machine type without a cloud.
\<close>

theorem instance_type_witness:
  "map (\<lambda>e. (errString e, BadValue e))
     (awsValidateInstanceType (NewPath ''test-nodes'' [''spec'', ''machineType''])
        ''t2.micro,t2.invalidType,,m5.large'' (Some sampleCloud))
   = [(''Invalid value::test-nodes.spec.machineType'', StringValue ''t2.invalidType''),
      (''Invalid value::test-nodes.spec.machineType'', StringValue [])]
   \<and> awsValidateInstanceType (NewPath ''test-nodes'' [''spec'', ''machineType''])
        ''t2.micro,t2.invalidType,,m5.large'' (None :: unit AWSCloud option) = []"
proof
  show "map (\<lambda>e. (errString e, BadValue e))
     (awsValidateInstanceType (NewPath ''test-nodes'' [''spec'', ''machineType''])
        ''t2.micro,t2.invalidType,,m5.large'' (Some sampleCloud))
   = [(''Invalid value::test-nodes.spec.machineType'', StringValue ''t2.invalidType''),
      (''Invalid value::test-nodes.spec.machineType'', StringValue [])]"
    by (subst instance_type_candidates [THEN conjunct1]) code_simp
  show "awsValidateInstanceType (NewPath ''test-nodes'' [''spec'', ''machineType''])
        ''t2.micro,t2.invalidType,,m5.large'' (None :: unit AWSCloud option) = []"
    by (subst instance_type_candidates [THEN conjunct1]) simp
qed

text \<open>
  Claim C7. A spot duration that is present gives no error when its value is one of 60,
  120, 180, 240, 300 and 360, and one Unsupported error at the field path for any other
  value; an absent spot duration gives no error.
\<close>

theorem spot_duration_valid_values:
  "awsValidateSpotDurationInMinute fieldPath ig =
     (case SpotDurationInMinutes (InstanceGroup.Spec ig) of
        None \<Rightarrow> []
      | Some d \<Rightarrow>
          if sint d \<in> {60, 120, 180, 240, 300, 360} then []
          else [NotSupported fieldPath (StringValue (FormatInt d)) validSpotDurations])"
  by (simp add: awsValidateSpotDurationInMinute_def IsValidValue_def FormatInt_valid_iff Let_def
        split: option.split)

text \<open>
  The theorem at the values of the package's test, on the instance group
  \<open>test-nodes\<close>: 120 is accepted, 55, 125 and 380 are not, and nothing is checked when
  the duration is absent.
\<close>

theorem spot_duration_witness:
  "awsValidateSpotDurationInMinute (NewPath ''test-nodes'' [''spec'', ''spotDurationInMinutes''])
     (testNodes (emptyInstanceGroupSpec\<lparr>SpotDurationInMinutes := Some 120\<rparr>)) = []
   \<and> map errString (awsValidateSpotDurationInMinute
         (NewPath ''test-nodes'' [''spec'', ''spotDurationInMinutes''])
         (testNodes (emptyInstanceGroupSpec\<lparr>SpotDurationInMinutes := Some 55\<rparr>)))
       = [''Unsupported value::test-nodes.spec.spotDurationInMinutes'']
   \<and> map errString (awsValidateSpotDurationInMinute
         (NewPath ''test-nodes'' [''spec'', ''spotDurationInMinutes''])
         (testNodes (emptyInstanceGroupSpec\<lparr>SpotDurationInMinutes := Some 125\<rparr>)))
       = [''Unsupported value::test-nodes.spec.spotDurationInMinutes'']
   \<and> map errString (awsValidateSpotDurationInMinute
         (NewPath ''test-nodes'' [''spec'', ''spotDurationInMinutes''])
         (testNodes (emptyInstanceGroupSpec\<lparr>SpotDurationInMinutes := Some 380\<rparr>)))
       = [''Unsupported value::test-nodes.spec.spotDurationInMinutes'']
   \<and> awsValidateSpotDurationInMinute (NewPath ''test-nodes'' [''spec'', ''spotDurationInMinutes''])
       (testNodes emptyInstanceGroupSpec) = []"
  using spot_duration_valid_values [of "NewPath ''test-nodes'' [''spec'', ''spotDurationInMinutes'']"
          "testNodes (emptyInstanceGroupSpec\<lparr>SpotDurationInMinutes := Some 120\<rparr>)"]
    spot_duration_valid_values [of "NewPath ''test-nodes'' [''spec'', ''spotDurationInMinutes'']"
          "testNodes (emptyInstanceGroupSpec\<lparr>SpotDurationInMinutes := Some 55\<rparr>)"]
    spot_duration_valid_values [of "NewPath ''test-nodes'' [''spec'', ''spotDurationInMinutes'']"
          "testNodes (emptyInstanceGroupSpec\<lparr>SpotDurationInMinutes := Some 125\<rparr>)"]
    spot_duration_valid_values [of "NewPath ''test-nodes'' [''spec'', ''spotDurationInMinutes'']"
          "testNodes (emptyInstanceGroupSpec\<lparr>SpotDurationInMinutes := Some 380\<rparr>)"]
    spot_duration_valid_values [of "NewPath ''test-nodes'' [''spec'', ''spotDurationInMinutes'']"
          "testNodes emptyInstanceGroupSpec"]
  by (simp add: testNodes_def emptyInstanceGroupSpec_def errString_def Path_String_def NewPath_def)

text \<open>
  Claim C8. For instance-metadata options: \<open>httpTokens\<close>, when present and neither
  \<open>optional\<close> nor \<open>required\<close>, gives one Unsupported error at \<open>.httpTokens\<close>;
  \<open>httpPutResponseHopLimit\<close>, when present and outside 1 to 64 (a negative value
  included), gives one Invalid error at \<open>.httpPutResponseHopLimit\<close>; there is no other
  error.
\<close>

theorem instance_metadata_rules:
  "awsValidateInstanceMetadata fieldPath m =
     (case HTTPTokens m of
        None \<Rightarrow> []
      | Some t \<Rightarrow>
          if t = ''optional'' \<or> t = ''required'' then []
          else [NotSupported (Child fieldPath ''httpTokens'') (StringValue t)
                  [''optional'', ''required'']])
     @ (case HTTPPutResponseHopLimit m of
          None \<Rightarrow> []
        | Some h \<Rightarrow>
            if 1 \<le> sint h \<and> sint h \<le> 64 then []
            else [Invalid (Child fieldPath ''httpPutResponseHopLimit'') (Int64PtrValue (Some h))
                    ''HTTPPutResponseLimit must be a value between 1 and 64''])"
  by (auto simp: awsValidateInstanceMetadata_def IsValidValue_def Int64Value_def Let_def
        split: option.splits)

text \<open>
  The theorem at \<open>{httpTokens: "abc"}\<close> and at
  \<open>{httpPutResponseHopLimit: -1, httpTokens: "required"}\<close>.
\<close>

theorem instance_metadata_witness:
  "map errString (awsValidateInstanceMetadata (NewPath ''spec'' [''instanceMetadata''])
       \<lparr>HTTPPutResponseHopLimit = None, HTTPTokens = Some ''abc''\<rparr>)
     = [''Unsupported value::spec.instanceMetadata.httpTokens'']
   \<and> map errString (awsValidateInstanceMetadata (NewPath ''spec'' [''instanceMetadata''])
       \<lparr>HTTPPutResponseHopLimit = Some (- 1), HTTPTokens = Some ''required''\<rparr>)
     = [''Invalid value::spec.instanceMetadata.httpPutResponseHopLimit'']"
  using instance_metadata_rules [of "NewPath ''spec'' [''instanceMetadata'']"
          "\<lparr>HTTPPutResponseHopLimit = None, HTTPTokens = Some ''abc''\<rparr>"]
    instance_metadata_rules [of "NewPath ''spec'' [''instanceMetadata'']"
          "\<lparr>HTTPPutResponseHopLimit = Some (- 1), HTTPTokens = Some ''required''\<rparr>"]
  by (simp add: errString_def Path_String_def NewPath_def Child_def)

text \<open>
  Claim C9. The errors of a mixed-instances policy are, in this order: for every listed
  instance type, at its index, the errors of the machine-type check at the path
  \<open>.instances[i]\<close>; for a present \<open>onDemandBase\<close>, an Invalid when it is negative
  and an Invalid when it is greater than the maximum size of the instance group (an
  absent maximum size counts as zero); for a present \<open>onDemandAboveBase\<close>, an Invalid
  when it is below 0 and an Invalid when it is above 100; and the result of the generic
  check of \<open>spotAllocationStrategy\<close> against the allocation strategies, which gives no
  error for an absent value.
\<close>

theorem mixed_instances_policy_rules:
  "awsValidateMixedInstancesPolicy strategies path spec ig cloud =
     concat (map (\<lambda>i. awsValidateInstanceType (Index (Child path ''instances'') i)
                         (Instances spec ! i) cloud) [0..<length (Instances spec)])
     @ (case OnDemandBase spec of
          None \<Rightarrow> []
        | Some b \<Rightarrow>
            (if sint b < 0
             then [Invalid (Child path ''onDemandBase'') (Int64PtrValue (Some b))
                     ''cannot be less than zero'']
             else [])
            @ (if (case MaxSize (InstanceGroup.Spec ig) of None \<Rightarrow> 0 | Some m \<Rightarrow> sint m) < sint b
               then [Invalid (Child path ''onDemandBase'') (Int64PtrValue (Some b))
                       ''cannot be greater than max size'']
               else []))
     @ (case OnDemandAboveBase spec of
          None \<Rightarrow> []
        | Some a \<Rightarrow>
            (if sint a < 0
             then [Invalid (Child path ''onDemandAboveBase'') (Int64PtrValue (Some a))
                     ''cannot be less than 0'']
             else [])
            @ (if 100 < sint a
               then [Invalid (Child path ''onDemandAboveBase'') (Int64PtrValue (Some a))
                       ''cannot be greater than 100'']
               else []))
     @ IsValidValue (Child path ''spotAllocationStrategy'') (SpotAllocationStrategy spec) strategies
   \<and> IsValidValue (Child path ''spotAllocationStrategy'') None strategies = []"
  by (simp add: mixedInstancesPolicy_parts IsValidValue_def)

text \<open>
  The theorem at a policy on the instance group \<open>test-nodes\<close> with the maximum size 3:
  one unknown instance type, an \<open>onDemandBase\<close> of 5, an \<open>onDemandAboveBase\<close> of -1
  and an allocation strategy outside the list.
\<close>

theorem mixed_instances_policy_witness:
  "map errString
     (awsValidateMixedInstancesPolicy [''lowest-price'', ''diversified'', ''capacity-optimized'']
        (NewPath ''spec'' [''mixedInstancesPolicy''])
        \<lparr>Instances = [''t2.micro'', ''t2.invalidType''], OnDemandBase = Some 5,
          OnDemandAboveBase = Some (- 1), SpotAllocationStrategy = Some ''cheapest''\<rparr>
        (testNodes (emptyInstanceGroupSpec\<lparr>MaxSize := Some 3\<rparr>)) (Some sampleCloud))
   = [''Invalid value::spec.mixedInstancesPolicy.instances[1]'',
      ''Invalid value::spec.mixedInstancesPolicy.onDemandBase'',
      ''Invalid value::spec.mixedInstancesPolicy.onDemandAboveBase'',
      ''Unsupported value::spec.mixedInstancesPolicy.spotAllocationStrategy'']"
  by (subst mixed_instances_policy_rules [THEN conjunct1]) code_simp

text \<open>
  Claim C10. The errors of an instance group are the errors of its six rules, in the
  order of the calls. The errors of the machine-type, spot-duration and
  interruption-behavior rules are at paths that start with the name of the instance
  group, followed by \<open>.spec.machineType\<close>, \<open>.spec.spotDurationInMinutes\<close> and
  \<open>.spec.instanceInterruptionBehavior\<close> (an empty name is printed as \<open>[]\<close>). The
  errors of the additional-security-groups, mixed-instances-policy and instance-metadata
  rules are at paths that start with \<open>spec\<close>, whatever the name of the group is:
  \<open>spec.additionalSecurityGroups[i]\<close>, \<open>spec.mixedInstancesPolicy.\<close> and
  \<open>spec.instanceMetadata.\<close> followed by a field.
\<close>

theorem instance_group_error_paths:
  "awsValidateInstanceGroup strategies ig cloud =
     awsValidateAdditionalSecurityGroups (NewPath ''spec'' [''additionalSecurityGroups''])
       (InstanceGroupSpec.AdditionalSecurityGroups (InstanceGroup.Spec ig))
     @ awsValidateInstanceType (NewPath (GetName ig) [''spec'', ''machineType''])
         (MachineType (InstanceGroup.Spec ig)) cloud
     @ awsValidateSpotDurationInMinute (NewPath (GetName ig) [''spec'', ''spotDurationInMinutes'']) ig
     @ awsValidateInstanceInterruptionBehavior
         (NewPath (GetName ig) [''spec'', ''instanceInterruptionBehavior'']) ig
     @ (case MixedInstancesPolicy (InstanceGroup.Spec ig) of
          None \<Rightarrow> []
        | Some policy \<Rightarrow>
            awsValidateMixedInstancesPolicy strategies (NewPath ''spec'' [''mixedInstancesPolicy''])
              policy ig cloud)
     @ (case InstanceMetadata (InstanceGroup.Spec ig) of
          None \<Rightarrow> []
        | Some m \<Rightarrow> awsValidateInstanceMetadata (NewPath ''spec'' [''instanceMetadata'']) m)
   \<and> (\<forall>e \<in> set (awsValidateInstanceType (NewPath (GetName ig) [''spec'', ''machineType''])
                    (MachineType (InstanceGroup.Spec ig)) cloud).
         Field e = (if GetName ig = [] then ''[]'' else GetName ig) @ ''.spec.machineType'')
   \<and> (\<forall>e \<in> set (awsValidateSpotDurationInMinute
                    (NewPath (GetName ig) [''spec'', ''spotDurationInMinutes'']) ig).
         Field e = (if GetName ig = [] then ''[]'' else GetName ig) @ ''.spec.spotDurationInMinutes'')
   \<and> (\<forall>e \<in> set (awsValidateInstanceInterruptionBehavior
                    (NewPath (GetName ig) [''spec'', ''instanceInterruptionBehavior'']) ig).
         Field e = (if GetName ig = [] then ''[]'' else GetName ig)
                     @ ''.spec.instanceInterruptionBehavior'')
   \<and> (\<forall>e \<in> set (awsValidateAdditionalSecurityGroups (NewPath ''spec'' [''additionalSecurityGroups''])
                    (InstanceGroupSpec.AdditionalSecurityGroups (InstanceGroup.Spec ig))).
         \<exists>i. Field e = ''spec.additionalSecurityGroups['' @ Itoa i @ '']'')
   \<and> (\<forall>policy. \<forall>e \<in> set (awsValidateMixedInstancesPolicy strategies
                    (NewPath ''spec'' [''mixedInstancesPolicy'']) policy ig cloud).
         \<exists>r. Field e = ''spec.mixedInstancesPolicy.'' @ r)
   \<and> (\<forall>m. \<forall>e \<in> set (awsValidateInstanceMetadata (NewPath ''spec'' [''instanceMetadata'']) m).
         \<exists>r. Field e = ''spec.instanceMetadata.'' @ r)"
proof (intro conjI ballI allI)
  show "awsValidateInstanceGroup strategies ig cloud =
     awsValidateAdditionalSecurityGroups (NewPath ''spec'' [''additionalSecurityGroups''])
       (InstanceGroupSpec.AdditionalSecurityGroups (InstanceGroup.Spec ig))
     @ awsValidateInstanceType (NewPath (GetName ig) [''spec'', ''machineType''])
         (MachineType (InstanceGroup.Spec ig)) cloud
     @ awsValidateSpotDurationInMinute (NewPath (GetName ig) [''spec'', ''spotDurationInMinutes'']) ig
     @ awsValidateInstanceInterruptionBehavior
         (NewPath (GetName ig) [''spec'', ''instanceInterruptionBehavior'']) ig
     @ (case MixedInstancesPolicy (InstanceGroup.Spec ig) of
          None \<Rightarrow> []
        | Some policy \<Rightarrow>
            awsValidateMixedInstancesPolicy strategies (NewPath ''spec'' [''mixedInstancesPolicy''])
              policy ig cloud)
     @ (case InstanceMetadata (InstanceGroup.Spec ig) of
          None \<Rightarrow> []
        | Some m \<Rightarrow> awsValidateInstanceMetadata (NewPath ''spec'' [''instanceMetadata'']) m)"
    by (simp add: awsValidateInstanceGroup_def Let_def split: option.split)
next
  fix e
  assume "e \<in> set (awsValidateInstanceType (NewPath (GetName ig) [''spec'', ''machineType''])
                    (MachineType (InstanceGroup.Spec ig)) cloud)"
  then have "Field e = Path_String (NewPath (GetName ig) [''spec'', ''machineType''])"
    by (rule instanceType_Field)
  then show "Field e = (if GetName ig = [] then ''[]'' else GetName ig) @ ''.spec.machineType''"
    by (simp add: Path_String_def renderPath_NewPath2)
next
  fix e
  assume "e \<in> set (awsValidateSpotDurationInMinute
                    (NewPath (GetName ig) [''spec'', ''spotDurationInMinutes'']) ig)"
  then have "Field e = Path_String (NewPath (GetName ig) [''spec'', ''spotDurationInMinutes''])"
    by (rule spotDuration_Field)
  then show "Field e = (if GetName ig = [] then ''[]'' else GetName ig) @ ''.spec.spotDurationInMinutes''"
    by (simp add: Path_String_def renderPath_NewPath2)
next
  fix e
  assume "e \<in> set (awsValidateInstanceInterruptionBehavior
                    (NewPath (GetName ig) [''spec'', ''instanceInterruptionBehavior'']) ig)"
  then have "Field e = Path_String (NewPath (GetName ig) [''spec'', ''instanceInterruptionBehavior''])"
    by (rule interruptionBehavior_Field)
  then show "Field e = (if GetName ig = [] then ''[]'' else GetName ig)
                     @ ''.spec.instanceInterruptionBehavior''"
    by (simp add: Path_String_def renderPath_NewPath2)
next
  fix e
  assume "e \<in> set (awsValidateAdditionalSecurityGroups (NewPath ''spec'' [''additionalSecurityGroups''])
                    (InstanceGroupSpec.AdditionalSecurityGroups (InstanceGroup.Spec ig)))"
  then obtain i where "Field e = Path_String (Index (NewPath ''spec'' [''additionalSecurityGroups'']) i)"
    using securityGroups_Field by blast
  then have "Field e = ''spec.additionalSecurityGroups['' @ Itoa i @ '']''"
    by (simp add: Path_String_Index NewPath_def)
  then show "\<exists>i. Field e = ''spec.additionalSecurityGroups['' @ Itoa i @ '']''" by blast
next
  fix policy e
  assume "e \<in> set (awsValidateMixedInstancesPolicy strategies
                    (NewPath ''spec'' [''mixedInstancesPolicy'']) policy ig cloud)"
  then have "(\<exists>i<length (Instances policy).
                Field e = Path_String (Index (Child (NewPath ''spec'' [''mixedInstancesPolicy'']) ''instances'') i))
       \<or> Field e = Path_String (Child (NewPath ''spec'' [''mixedInstancesPolicy'']) ''onDemandBase'')
       \<or> Field e = Path_String (Child (NewPath ''spec'' [''mixedInstancesPolicy'']) ''onDemandAboveBase'')
       \<or> Field e = Path_String (Child (NewPath ''spec'' [''mixedInstancesPolicy'']) ''spotAllocationStrategy'')"
    by (rule mixedInstancesPolicy_Field)
  then consider i where "Field e = Path_String (Index (Child (NewPath ''spec'' [''mixedInstancesPolicy'']) ''instances'') i)"
    | "Field e = Path_String (Child (NewPath ''spec'' [''mixedInstancesPolicy'']) ''onDemandBase'')"
    | "Field e = Path_String (Child (NewPath ''spec'' [''mixedInstancesPolicy'']) ''onDemandAboveBase'')"
    | "Field e = Path_String (Child (NewPath ''spec'' [''mixedInstancesPolicy'']) ''spotAllocationStrategy'')"
    by blast
  then show "\<exists>r. Field e = ''spec.mixedInstancesPolicy.'' @ r"
  proof cases
    case 1
    then have "Field e = ''spec.mixedInstancesPolicy.'' @ (''instances['' @ Itoa i @ '']'')"
      by (simp add: Path_String_Index renderPath_Child NewPath_def)
    then show ?thesis by blast
  next
    case 2
    then have "Field e = ''spec.mixedInstancesPolicy.'' @ ''onDemandBase''"
      by (simp add: Path_String_Child NewPath_def)
    then show ?thesis by blast
  next
    case 3
    then have "Field e = ''spec.mixedInstancesPolicy.'' @ ''onDemandAboveBase''"
      by (simp add: Path_String_Child NewPath_def)
    then show ?thesis by blast
  next
    case 4
    then have "Field e = ''spec.mixedInstancesPolicy.'' @ ''spotAllocationStrategy''"
      by (simp add: Path_String_Child NewPath_def)
    then show ?thesis by blast
  qed
next
  fix m e
  assume "e \<in> set (awsValidateInstanceMetadata (NewPath ''spec'' [''instanceMetadata'']) m)"
  then have "Field e = Path_String (Child (NewPath ''spec'' [''instanceMetadata'']) ''httpTokens'')
       \<or> Field e = Path_String (Child (NewPath ''spec'' [''instanceMetadata'']) ''httpPutResponseHopLimit'')"
    by (rule instanceMetadata_Field)
  then consider
      "Field e = Path_String (Child (NewPath ''spec'' [''instanceMetadata'']) ''httpTokens'')"
    | "Field e = Path_String (Child (NewPath ''spec'' [''instanceMetadata'']) ''httpPutResponseHopLimit'')"
    by blast
  then show "\<exists>r. Field e = ''spec.instanceMetadata.'' @ r"
  proof cases
    case 1
    then have "Field e = ''spec.instanceMetadata.'' @ ''httpTokens''"
      by (simp add: Path_String_Child NewPath_def)
    then show ?thesis by blast
  next
    case 2
    then have "Field e = ''spec.instanceMetadata.'' @ ''httpPutResponseHopLimit''"
      by (simp add: Path_String_Child NewPath_def)
    then show ?thesis by blast
  qed
qed

text \<open>
  The theorem at the instance group \<open>test-nodes\<close> with a wrong security group, an
  unknown machine type, a wrong spot duration, a wrong interruption behavior and wrong
  instance-metadata options: the fields of the errors of the machine-type rule, and all
  the errors in their order.
\<close>

theorem instance_group_error_paths_witness:
  "list_all (\<lambda>e. Field e = ''test-nodes.spec.machineType'')
     (awsValidateInstanceType (NewPath ''test-nodes'' [''spec'', ''machineType''])
        ''t2.invalidType'' (Some sampleCloud))
   \<and> awsValidateInstanceType (NewPath ''test-nodes'' [''spec'', ''machineType''])
        ''t2.invalidType'' (Some sampleCloud) \<noteq> []
   \<and> map errString
       (awsValidateInstanceGroup [''lowest-price'', ''diversified'', ''capacity-optimized'']
          (testNodes
             \<lparr>InstanceGroupSpec.AdditionalSecurityGroups = [''--invalid''],
              MachineType = ''t2.invalidType'', MaxSize = None,
              SpotDurationInMinutes = Some 55,
              InstanceInterruptionBehavior = Some ''invalidValue'',
              MixedInstancesPolicy = None,
              InstanceMetadata =
                Some \<lparr>HTTPPutResponseHopLimit = Some (- 1), HTTPTokens = Some ''abc''\<rparr>\<rparr>)
          (Some sampleCloud))
     = [''Invalid value::spec.additionalSecurityGroups[0]'',
        ''Invalid value::test-nodes.spec.machineType'',
        ''Unsupported value::test-nodes.spec.spotDurationInMinutes'',
        ''Unsupported value::test-nodes.spec.instanceInterruptionBehavior'',
        ''Unsupported value::spec.instanceMetadata.httpTokens'',
        ''Invalid value::spec.instanceMetadata.httpPutResponseHopLimit'']"
proof (intro conjI)
  let ?ig = "testNodes
             \<lparr>InstanceGroupSpec.AdditionalSecurityGroups = [''--invalid''],
              MachineType = ''t2.invalidType'', MaxSize = None,
              SpotDurationInMinutes = Some 55,
              InstanceInterruptionBehavior = Some ''invalidValue'',
              MixedInstancesPolicy = None,
              InstanceMetadata =
                Some \<lparr>HTTPPutResponseHopLimit = Some (- 1), HTTPTokens = Some ''abc''\<rparr>\<rparr>"
  note t = instance_group_error_paths
             [of "[''lowest-price'', ''diversified'', ''capacity-optimized'']" ?ig "Some sampleCloud"]
  have n: "GetName ?ig = ''test-nodes''" by (simp add: GetName_def testNodes_def)
  have m: "MachineType (InstanceGroup.Spec ?ig) = ''t2.invalidType''"
    by (simp add: testNodes_def)
  from t [THEN conjunct2, THEN conjunct1]
  show "list_all (\<lambda>e. Field e = ''test-nodes.spec.machineType'')
     (awsValidateInstanceType (NewPath ''test-nodes'' [''spec'', ''machineType''])
        ''t2.invalidType'' (Some sampleCloud))"
    unfolding n m by (simp add: list_all_iff)
  show "awsValidateInstanceType (NewPath ''test-nodes'' [''spec'', ''machineType''])
        ''t2.invalidType'' (Some sampleCloud) \<noteq> []"
    by code_simp
  show "map errString
       (awsValidateInstanceGroup [''lowest-price'', ''diversified'', ''capacity-optimized'']
          ?ig (Some sampleCloud))
     = [''Invalid value::spec.additionalSecurityGroups[0]'',
        ''Invalid value::test-nodes.spec.machineType'',
        ''Unsupported value::test-nodes.spec.spotDurationInMinutes'',
        ''Unsupported value::test-nodes.spec.instanceInterruptionBehavior'',
        ''Unsupported value::spec.instanceMetadata.httpTokens'',
        ''Invalid value::spec.instanceMetadata.httpPutResponseHopLimit'']"
    by (subst t [THEN conjunct1]) code_simp
qed

end
